theory Spec2Isabelle
  imports Main "HOL-Library.Sublist"
begin

section \<open>Values of the configuration tree\<close>

text \<open>
  The builder of \<^verbatim>\<open>src/main.ts\<close> mutates one nested options document. The document is
  modelled as a tagged union: scalars, ordered sequences and mappings. A mapping is an
  association list in insertion order, as the own enumerable string-keyed properties of a
  plain object. \<open>Fn\<close> is an opaque function value (a formatter callback).

  Scope of the model: own properties only. A read that would be answered by a built-in
  prototype, a named property stored on an array or a function, and the index keys of
  arrays and strings reached through a computed key are reported as \<open>Unmodelled\<close>
  instead of being guessed. Numbers are integers. All methods of the source are class
  methods, hence strict-mode code: assigning a property on a primitive raises
  \<open>TypeError\<close>, as does any property access on \<open>undefined\<close> or \<open>null\<close>.
  A raised exception is the value \<open>Inl e\<close>; the partially mutated tree is not returned.
\<close>

datatype jsval =
    Undef
  | Null
  | Bool bool
  | Num int
  | Str string
  | Fn nat
  | Arr "jsval list"
  | Obj "(string \<times> jsval) list"

datatype js_error = TypeError | Unmodelled

type_synonym 'a res = "js_error + 'a"

fun andThen :: "'a res \<Rightarrow> ('a \<Rightarrow> 'b res) \<Rightarrow> 'b res" where
  "andThen (Inl e) f = Inl e"
| "andThen (Inr x) f = f x"

fun truthy :: "jsval \<Rightarrow> bool" where
  "truthy Undef = False"
| "truthy Null = False"
| "truthy (Bool b) = b"
| "truthy (Num n) = (n \<noteq> 0)"
| "truthy (Str s) = (s \<noteq> [])"
| "truthy (Fn f) = True"
| "truthy (Arr xs) = True"
| "truthy (Obj ps) = True"

fun is_obj :: "jsval \<Rightarrow> bool" where
  "is_obj (Obj ps) = True"
| "is_obj v = False"

fun nullish :: "jsval \<Rightarrow> bool" where
  "nullish Undef = True"
| "nullish Null = True"
| "nullish v = False"

text \<open>\<open>a || {}\<close>\<close>

definition orEmpty :: "jsval \<Rightarrow> jsval" where
  "orEmpty v = (if truthy v then v else Obj [])"

text \<open>Own-property lookup and own-property assignment on the entries of a mapping. An
  existing key keeps its position, a new key is appended.\<close>

definition lookup :: "(string \<times> jsval) list \<Rightarrow> string \<Rightarrow> jsval" where
  "lookup ps k = (case map_of ps k of None \<Rightarrow> Undef | Some v \<Rightarrow> v)"

fun assign :: "(string \<times> 'a) list \<Rightarrow> string \<Rightarrow> 'a \<Rightarrow> (string \<times> 'a) list" where
  "assign [] k v = [(k, v)]"
| "assign ((k', v') # ps) k v = (if k' = k then (k, v) # ps else (k', v') # assign ps k v)"

text \<open>The property names of \<open>Object.prototype\<close>: a plain object answers a read of one of
  them even when it has no such own property.\<close>

definition object_prototype_keys :: "string list" where
  "object_prototype_keys =
     [''constructor'', ''__defineGetter__'', ''__defineSetter__'', ''hasOwnProperty'',
      ''__lookupGetter__'', ''__lookupSetter__'', ''isPrototypeOf'', ''propertyIsEnumerable'',
      ''toString'', ''valueOf'', ''__proto__'', ''toLocaleString'']"

definition inherited :: "string \<Rightarrow> bool" where
  "inherited k = (k \<in> set object_prototype_keys)"

text \<open>The property names the builder itself reads that no built-in prototype of a number,
  boolean, string or array defines: reading one of them from such a value gives
  \<open>undefined\<close>.\<close>

definition plain_keys :: "string list" where
  "plain_keys =
     [''chart'', ''series'', ''xaxis'', ''yaxis'', ''tooltip'', ''legend'', ''grid'',
      ''dataLabels'', ''markers'', ''theme'', ''plotOptions'', ''title'', ''subtitle'',
      ''colors'', ''states'', ''responsive'', ''text'', ''categories'', ''type'', ''labels'',
      ''style'', ''min'', ''max'', ''tickAmount'', ''axisBorder'', ''axisTicks'',
      ''crosshairs'', ''x'', ''y'', ''itemMargin'', ''lines'', ''padding'', ''background'',
      ''hover'', ''monochrome'', ''bar'', ''pie'', ''radialBar'', ''heatmap'', ''donut'',
      ''name'', ''value'', ''total'', ''hollow'', ''track'', ''colorScale'', ''normal'',
      ''active'', ''animations'', ''animateGradually'', ''dynamicAnimation'', ''height'',
      ''width'']"

text \<open>\<open>o[k]\<close> as an r-value.\<close>

fun getProp :: "jsval \<Rightarrow> string \<Rightarrow> jsval res" where
  "getProp Undef k = Inl TypeError"
| "getProp Null k = Inl TypeError"
| "getProp (Obj ps) k =
     (case map_of ps k of
        Some v \<Rightarrow> Inr v
      | None \<Rightarrow> if inherited k then Inl Unmodelled else Inr Undef)"
| "getProp (Fn f) k = Inl Unmodelled"
| "getProp v k = (if k \<in> set plain_keys then Inr Undef else Inl Unmodelled)"

text \<open>\<open>o[k] = v\<close> in strict mode, returning the receiver after the assignment.\<close>

fun setProp :: "jsval \<Rightarrow> string \<Rightarrow> jsval \<Rightarrow> jsval res" where
  "setProp (Obj ps) k v = (if k = ''__proto__'' then Inl Unmodelled else Inr (Obj (assign ps k v)))"
| "setProp (Arr xs) k v = Inl Unmodelled"
| "setProp (Fn f) k v = Inl Unmodelled"
| "setProp w k v = (if k = ''__proto__'' then Inl Unmodelled else Inl TypeError)"

text \<open>\<open>o?.[k]\<close>\<close>

definition getOpt :: "jsval \<Rightarrow> string \<Rightarrow> jsval res" where
  "getOpt v k = (if nullish v then Inr Undef else getProp v k)"

text \<open>A child that was read through a reference and mutated in place is stored back at
  the key it was read from. Only a mapping can hold such a child.\<close>

fun putBack :: "jsval \<Rightarrow> string \<Rightarrow> jsval \<Rightarrow> jsval" where
  "putBack (Obj ps) k c = Obj (assign ps k c)"
| "putBack v k c = v"

text \<open>\<open>const c = o[k]; ...mutate c...\<close>: the statements \<open>f\<close> run on the child.\<close>

definition modify :: "jsval \<Rightarrow> string \<Rightarrow> (jsval \<Rightarrow> jsval res) \<Rightarrow> jsval res" where
  "modify v k f = andThen (getProp v k) (\<lambda>c. andThen (f c) (\<lambda>c'. Inr (putBack v k c')))"

text \<open>The properties an object spread \<open>{...v}\<close> copies.\<close>

fun ownProps :: "jsval \<Rightarrow> (string \<times> jsval) list res" where
  "ownProps (Obj ps) = Inr ps"
| "ownProps (Arr xs) = (if xs = [] then Inr [] else Inl Unmodelled)"
| "ownProps (Str s) = (if s = [] then Inr [] else Inl Unmodelled)"
| "ownProps v = Inr []"

definition copyProps :: "(string \<times> 'a) list \<Rightarrow> (string \<times> 'a) list \<Rightarrow> (string \<times> 'a) list" where
  "copyProps acc ps = foldl (\<lambda>qs (k, v). assign qs k v) acc ps"

text \<open>\<open>{...a, ...b}\<close>\<close>

definition spread2 :: "jsval \<Rightarrow> jsval \<Rightarrow> jsval res" where
  "spread2 a b =
     andThen (ownProps a) (\<lambda>pa. andThen (ownProps b) (\<lambda>pb. Inr (Obj (copyProps (copyProps [] pa) pb))))"

text \<open>Reading along a path of own properties, \<open>undefined\<close> where the path leaves the
  mappings. Used to state what a tree contains.\<close>

fun getPath :: "jsval \<Rightarrow> string list \<Rightarrow> jsval" where
  "getPath v [] = v"
| "getPath (Obj ps) (k # ks) = getPath (lookup ps k) ks"
| "getPath v (k # ks) = Undef"

section \<open>The path-set primitive\<close>





section \<open>Statement patterns shared by the components\<close>

text \<open>A sequence of statements, each mutating the same node.\<close>

fun chain :: "'a \<Rightarrow> ('a \<Rightarrow> 'a res) list \<Rightarrow> 'a res" where
  "chain x [] = Inr x"
| "chain x (f # fs) = andThen (f x) (\<lambda>y. chain y fs)"

text \<open>\<open>c.k = c.k || {}\<close>\<close>

definition orInit :: "string \<Rightarrow> jsval \<Rightarrow> jsval res" where
  "orInit k c = andThen (getProp c k) (\<lambda>v. setProp c k (orEmpty v))"

text \<open>\<open>if (!c.k) c.k = {}\<close>\<close>

definition ensureKey :: "string \<Rightarrow> jsval \<Rightarrow> jsval res" where
  "ensureKey k c = andThen (getProp c k) (\<lambda>v. if truthy v then Inr c else setProp c k (Obj []))"

text \<open>\<open>c.k = { ...c.k, ...config }\<close>\<close>

definition mergeProp :: "string \<Rightarrow> jsval \<Rightarrow> jsval \<Rightarrow> jsval res" where
  "mergeProp k config c =
     andThen (getProp c k) (\<lambda>old. andThen (spread2 old config) (\<lambda>m. setProp c k m))"

text \<open>\<open>c.k = { ...(c.k || {}), ...config }\<close>\<close>

definition mergeOrEmpty :: "string \<Rightarrow> jsval \<Rightarrow> jsval \<Rightarrow> jsval res" where
  "mergeOrEmpty k config c =
     andThen (getProp c k) (\<lambda>old. andThen (spread2 (orEmpty old) config) (\<lambda>m. setProp c k m))"

text \<open>\<open>this.getChartOptions().ck!.k = v\<close>\<close>

definition assignIn :: "string \<Rightarrow> string \<Rightarrow> jsval \<Rightarrow> jsval \<Rightarrow> jsval res" where
  "assignIn ck k v t = modify t ck (\<lambda>c. setProp c k v)"

text \<open>\<open>const c = this.getChartOptions().ck!; c.k = { ...c.k, ...config }\<close>\<close>

definition mergeIn :: "string \<Rightarrow> string \<Rightarrow> jsval \<Rightarrow> jsval \<Rightarrow> jsval res" where
  "mergeIn ck k config t = modify t ck (mergeProp k config)"

section \<open>Axis\<close>

datatype axis_type = XAxis | YAxis

datatype axis_kind = Category | Datetime | Numeric

fun axis_key :: "axis_type \<Rightarrow> string" where
  "axis_key XAxis = ''xaxis''"
| "axis_key YAxis = ''yaxis''"

fun axis_kind_name :: "axis_kind \<Rightarrow> string" where
  "axis_kind_name Category = ''category''"
| "axis_kind_name Datetime = ''datetime''"
| "axis_kind_name Numeric = ''numeric''"

text \<open>\<open>Axis.getAxisConfig\<close>: the x-axis slot; for the y-axis the first element of a
  sequence (\<open>undefined\<close> when it is empty), else the slot itself.\<close>

fun getAxisConfig :: "axis_type \<Rightarrow> jsval \<Rightarrow> jsval res" where
  "getAxisConfig XAxis t = getProp t ''xaxis''"
| "getAxisConfig YAxis t =
     andThen (getProp t ''yaxis'') (\<lambda>y.
       case y of
         Arr xs \<Rightarrow> Inr (case xs of [] \<Rightarrow> Undef | x # rest \<Rightarrow> x)
       | _ \<Rightarrow> Inr y)"

text \<open>The resolved axis mapping is mutated through the reference \<open>getAxisConfig\<close>
  returned: the new content is stored where it was read, element 0 of a sequence or the
  slot itself.\<close>

fun putAxisConfig :: "axis_type \<Rightarrow> jsval \<Rightarrow> jsval \<Rightarrow> jsval" where
  "putAxisConfig XAxis t c = putBack t ''xaxis'' c"
| "putAxisConfig YAxis t c =
     (case getPath t [''yaxis''] of
        Arr [] \<Rightarrow> t
      | Arr (x # rest) \<Rightarrow> putBack t ''yaxis'' (Arr (c # rest))
      | _ \<Rightarrow> putBack t ''yaxis'' c)"

text \<open>\<open>const axisConfig = this.getAxisConfig(); if (axisConfig) { body }\<close>\<close>

definition whenAxis :: "axis_type \<Rightarrow> (jsval \<Rightarrow> jsval res) \<Rightarrow> jsval \<Rightarrow> jsval res" where
  "whenAxis a body t =
     andThen (getAxisConfig a t) (\<lambda>c.
       if truthy c then andThen (body c) (\<lambda>c'. Inr (putAxisConfig a t c')) else Inr t)"

text \<open>The first block of the constructor: the slot is created when it is falsy; an empty
  y-axis sequence gets one empty mapping pushed.\<close>

fun Axis_ensure_slot :: "axis_type \<Rightarrow> jsval \<Rightarrow> jsval res" where
  "Axis_ensure_slot YAxis t =
     andThen (getProp t ''yaxis'') (\<lambda>y.
       if \<not> truthy y then setProp t ''yaxis'' (Obj [])
       else (case y of
               Arr [] \<Rightarrow> Inr (putBack t ''yaxis'' (Arr ([] @ [Obj []])))
             | _ \<Rightarrow> Inr t))"
| "Axis_ensure_slot XAxis t =
     andThen (getProp t ''xaxis'') (\<lambda>x.
       if \<not> truthy x then setProp t ''xaxis'' (Obj []) else Inr t)"

text \<open>The second block: the nested objects of the resolved axis mapping.\<close>

definition Axis_scaffold :: "jsval \<Rightarrow> jsval res" where
  "Axis_scaffold c =
     chain c
       [orInit ''title'',
        orInit ''labels'',
        (\<lambda>c. modify c ''labels'' (orInit ''style'')),
        orInit ''axisBorder'',
        orInit ''axisTicks'',
        orInit ''crosshairs'']"

definition Axis_constructor :: "axis_type \<Rightarrow> jsval \<Rightarrow> jsval res" where
  "Axis_constructor a t = andThen (Axis_ensure_slot a t) (whenAxis a Axis_scaffold)"

text \<open>\<open>if (axisConfig?.title) { axisConfig.title.text = text }\<close>\<close>

definition Axis_title :: "axis_type \<Rightarrow> string \<Rightarrow> jsval \<Rightarrow> jsval res" where
  "Axis_title a text t =
     andThen (getAxisConfig a t) (\<lambda>c.
       andThen (getOpt c ''title'') (\<lambda>ti.
         if truthy ti
         then andThen (modify c ''title'' (\<lambda>x. setProp x ''text'' (Str text)))
                (\<lambda>c'. Inr (putAxisConfig a t c'))
         else Inr t))"

definition Axis_categories :: "axis_type \<Rightarrow> jsval list \<Rightarrow> jsval \<Rightarrow> jsval res" where
  "Axis_categories a categories t = whenAxis a (\<lambda>c. setProp c ''categories'' (Arr categories)) t"

definition Axis_type :: "axis_type \<Rightarrow> axis_kind \<Rightarrow> jsval \<Rightarrow> jsval res" where
  "Axis_type a k t = whenAxis a (\<lambda>c. setProp c ''type'' (Str (axis_kind_name k))) t"

definition Axis_labels :: "axis_type \<Rightarrow> jsval \<Rightarrow> jsval \<Rightarrow> jsval res" where
  "Axis_labels a config t =
     whenAxis a (\<lambda>c.
       chain c
         [orInit ''labels'',
          mergeProp ''labels'' config,
          (\<lambda>c. andThen (getProp config ''style'') (\<lambda>s.
             if truthy s
             then modify c ''labels'' (\<lambda>l. chain l [orInit ''style'', mergeProp ''style'' s])
             else Inr c))]) t"

definition Axis_range :: "axis_type \<Rightarrow> int \<Rightarrow> int \<Rightarrow> jsval \<Rightarrow> jsval res" where
  "Axis_range a mn mx t =
     whenAxis a (\<lambda>c. chain c [\<lambda>c. setProp c ''min'' (Num mn), \<lambda>c. setProp c ''max'' (Num mx)]) t"

definition Axis_tickAmount :: "axis_type \<Rightarrow> int \<Rightarrow> jsval \<Rightarrow> jsval res" where
  "Axis_tickAmount a amount t = whenAxis a (\<lambda>c. setProp c ''tickAmount'' (Num amount)) t"

definition Axis_axisBorder :: "axis_type \<Rightarrow> jsval \<Rightarrow> jsval \<Rightarrow> jsval res" where
  "Axis_axisBorder a config t = whenAxis a (mergeOrEmpty ''axisBorder'' config) t"

definition Axis_axisTicks :: "axis_type \<Rightarrow> jsval \<Rightarrow> jsval \<Rightarrow> jsval res" where
  "Axis_axisTicks a config t = whenAxis a (mergeOrEmpty ''axisTicks'' config) t"

definition Axis_crosshairs :: "axis_type \<Rightarrow> jsval \<Rightarrow> jsval \<Rightarrow> jsval res" where
  "Axis_crosshairs a config t = whenAxis a (mergeOrEmpty ''crosshairs'' config) t"

section \<open>Tooltip\<close>

definition Tooltip_constructor :: "jsval \<Rightarrow> jsval res" where
  "Tooltip_constructor t =
     andThen (ensureKey ''tooltip'' t) (\<lambda>t.
       modify t ''tooltip'' (\<lambda>c. chain c [orInit ''style'', orInit ''x'', orInit ''y'']))"

definition Tooltip_enabled :: "bool \<Rightarrow> jsval \<Rightarrow> jsval res" where
  "Tooltip_enabled enabled t = assignIn ''tooltip'' ''enabled'' (Bool enabled) t"

definition Tooltip_shared :: "bool \<Rightarrow> jsval \<Rightarrow> jsval res" where
  "Tooltip_shared shared t = assignIn ''tooltip'' ''shared'' (Bool shared) t"

definition Tooltip_followCursor :: "bool \<Rightarrow> jsval \<Rightarrow> jsval res" where
  "Tooltip_followCursor follow t = assignIn ''tooltip'' ''followCursor'' (Bool follow) t"

definition Tooltip_theme :: "string \<Rightarrow> jsval \<Rightarrow> jsval res" where
  "Tooltip_theme theme t = assignIn ''tooltip'' ''theme'' (Str theme) t"

definition Tooltip_style :: "jsval \<Rightarrow> jsval \<Rightarrow> jsval res" where
  "Tooltip_style config t = mergeIn ''tooltip'' ''style'' config t"

definition Tooltip_custom :: "nat \<Rightarrow> jsval \<Rightarrow> jsval res" where
  "Tooltip_custom formatter t = assignIn ''tooltip'' ''custom'' (Fn formatter) t"

definition Tooltip_xFormatter :: "nat \<Rightarrow> jsval \<Rightarrow> jsval res" where
  "Tooltip_xFormatter formatter t =
     modify t ''tooltip'' (\<lambda>c. modify c ''x'' (\<lambda>x. setProp x ''formatter'' (Fn formatter)))"

definition Tooltip_yFormatter :: "nat \<Rightarrow> jsval \<Rightarrow> jsval res" where
  "Tooltip_yFormatter formatter t =
     modify t ''tooltip'' (\<lambda>c. modify c ''y'' (\<lambda>y. setProp y ''formatter'' (Fn formatter)))"

section \<open>Legend\<close>

definition Legend_constructor :: "jsval \<Rightarrow> jsval res" where
  "Legend_constructor t =
     andThen (ensureKey ''legend'' t) (\<lambda>t.
       modify t ''legend'' (\<lambda>c.
         chain c [orInit ''labels'', orInit ''markers'', orInit ''itemMargin'']))"

definition Legend_show :: "bool \<Rightarrow> jsval \<Rightarrow> jsval res" where
  "Legend_show visible t = assignIn ''legend'' ''show'' (Bool visible) t"

definition Legend_position :: "string \<Rightarrow> jsval \<Rightarrow> jsval res" where
  "Legend_position position t = assignIn ''legend'' ''position'' (Str position) t"

definition Legend_horizontalAlign :: "string \<Rightarrow> jsval \<Rightarrow> jsval res" where
  "Legend_horizontalAlign align t = assignIn ''legend'' ''horizontalAlign'' (Str align) t"

definition Legend_fontSize :: "string \<Rightarrow> jsval \<Rightarrow> jsval res" where
  "Legend_fontSize sz t = assignIn ''legend'' ''fontSize'' (Str sz) t"

definition Legend_fontFamily :: "string \<Rightarrow> jsval \<Rightarrow> jsval res" where
  "Legend_fontFamily family t = assignIn ''legend'' ''fontFamily'' (Str family) t"

definition Legend_labels :: "jsval \<Rightarrow> jsval \<Rightarrow> jsval res" where
  "Legend_labels config t = mergeIn ''legend'' ''labels'' config t"

definition Legend_markers :: "jsval \<Rightarrow> jsval \<Rightarrow> jsval res" where
  "Legend_markers config t = mergeIn ''legend'' ''markers'' config t"

definition Legend_itemMargin :: "jsval \<Rightarrow> jsval \<Rightarrow> jsval res" where
  "Legend_itemMargin config t = mergeIn ''legend'' ''itemMargin'' config t"

section \<open>Grid\<close>

definition Grid_constructor :: "jsval \<Rightarrow> jsval res" where
  "Grid_constructor t =
     andThen (ensureKey ''grid'' t) (\<lambda>t.
       modify t ''grid'' (\<lambda>g.
         chain g
           [orInit ''xaxis'',
            (\<lambda>g. modify g ''xaxis'' (orInit ''lines'')),
            orInit ''yaxis'',
            (\<lambda>g. modify g ''yaxis'' (orInit ''lines'')),
            orInit ''padding'']))"

definition Grid_show :: "bool \<Rightarrow> jsval \<Rightarrow> jsval res" where
  "Grid_show visible t = assignIn ''grid'' ''show'' (Bool visible) t"

definition Grid_borderColor :: "string \<Rightarrow> jsval \<Rightarrow> jsval res" where
  "Grid_borderColor color t = assignIn ''grid'' ''borderColor'' (Str color) t"

definition Grid_strokeDashArray :: "int \<Rightarrow> jsval \<Rightarrow> jsval res" where
  "Grid_strokeDashArray dashArray t = assignIn ''grid'' ''strokeDashArray'' (Num dashArray) t"

definition Grid_position :: "string \<Rightarrow> jsval \<Rightarrow> jsval res" where
  "Grid_position position t = assignIn ''grid'' ''position'' (Str position) t"

text \<open>\<open>grid.ax = grid.ax || {}; grid.ax.lines = { ...(grid.ax.lines || {}), ...config.lines }\<close>\<close>

definition grid_lines :: "string \<Rightarrow> jsval \<Rightarrow> jsval \<Rightarrow> jsval res" where
  "grid_lines ax config t =
     modify t ''grid'' (\<lambda>g.
       chain g
         [orInit ax,
          (\<lambda>g. modify g ax (\<lambda>x.
             andThen (getProp x ''lines'') (\<lambda>old.
               andThen (getProp config ''lines'') (\<lambda>cl.
                 andThen (spread2 (orEmpty old) cl) (\<lambda>m. setProp x ''lines'' m)))))])"

definition Grid_xaxis :: "jsval \<Rightarrow> jsval \<Rightarrow> jsval res" where
  "Grid_xaxis config t = grid_lines ''xaxis'' config t"

definition Grid_yaxis :: "jsval \<Rightarrow> jsval \<Rightarrow> jsval res" where
  "Grid_yaxis config t = grid_lines ''yaxis'' config t"

definition Grid_padding :: "jsval \<Rightarrow> jsval \<Rightarrow> jsval res" where
  "Grid_padding config t = mergeIn ''grid'' ''padding'' config t"

section \<open>DataLabels\<close>

definition DataLabels_constructor :: "jsval \<Rightarrow> jsval res" where
  "DataLabels_constructor t =
     andThen (ensureKey ''dataLabels'' t) (\<lambda>t.
       modify t ''dataLabels'' (\<lambda>c. chain c [orInit ''style'', orInit ''background'']))"

definition DataLabels_enabled :: "bool \<Rightarrow> jsval \<Rightarrow> jsval res" where
  "DataLabels_enabled enabled t = assignIn ''dataLabels'' ''enabled'' (Bool enabled) t"

definition DataLabels_formatter :: "nat \<Rightarrow> jsval \<Rightarrow> jsval res" where
  "DataLabels_formatter formatter t = assignIn ''dataLabels'' ''formatter'' (Fn formatter) t"

definition DataLabels_style :: "jsval \<Rightarrow> jsval \<Rightarrow> jsval res" where
  "DataLabels_style config t = mergeIn ''dataLabels'' ''style'' config t"

definition DataLabels_background :: "jsval \<Rightarrow> jsval \<Rightarrow> jsval res" where
  "DataLabels_background config t = mergeIn ''dataLabels'' ''background'' config t"

definition DataLabels_offsetX :: "int \<Rightarrow> jsval \<Rightarrow> jsval res" where
  "DataLabels_offsetX offset t = assignIn ''dataLabels'' ''offsetX'' (Num offset) t"

definition DataLabels_offsetY :: "int \<Rightarrow> jsval \<Rightarrow> jsval res" where
  "DataLabels_offsetY offset t = assignIn ''dataLabels'' ''offsetY'' (Num offset) t"

section \<open>Markers\<close>

definition Markers_constructor :: "jsval \<Rightarrow> jsval res" where
  "Markers_constructor t =
     andThen (ensureKey ''markers'' t) (\<lambda>t. modify t ''markers'' (orInit ''hover''))"

definition Markers_size :: "jsval \<Rightarrow> jsval \<Rightarrow> jsval res" where
  "Markers_size sz t = assignIn ''markers'' ''size'' sz t"

definition Markers_colors :: "string list \<Rightarrow> jsval \<Rightarrow> jsval res" where
  "Markers_colors colors t = assignIn ''markers'' ''colors'' (Arr (map Str colors)) t"

definition Markers_strokeColors :: "jsval \<Rightarrow> jsval \<Rightarrow> jsval res" where
  "Markers_strokeColors colors t = assignIn ''markers'' ''strokeColors'' colors t"

definition Markers_strokeWidth :: "jsval \<Rightarrow> jsval \<Rightarrow> jsval res" where
  "Markers_strokeWidth width t = assignIn ''markers'' ''strokeWidth'' width t"

definition Markers_shape :: "jsval \<Rightarrow> jsval \<Rightarrow> jsval res" where
  "Markers_shape shape t = assignIn ''markers'' ''shape'' shape t"

definition Markers_radius :: "int \<Rightarrow> jsval \<Rightarrow> jsval res" where
  "Markers_radius radius t = assignIn ''markers'' ''radius'' (Num radius) t"

definition Markers_hover :: "jsval \<Rightarrow> jsval \<Rightarrow> jsval res" where
  "Markers_hover config t = mergeIn ''markers'' ''hover'' config t"

section \<open>Theme\<close>

definition Theme_constructor :: "jsval \<Rightarrow> jsval res" where
  "Theme_constructor t =
     andThen (ensureKey ''theme'' t) (\<lambda>t. modify t ''theme'' (orInit ''monochrome''))"

definition Theme_mode :: "string \<Rightarrow> jsval \<Rightarrow> jsval res" where
  "Theme_mode mode t = assignIn ''theme'' ''mode'' (Str mode) t"

definition Theme_palette :: "string \<Rightarrow> jsval \<Rightarrow> jsval res" where
  "Theme_palette palette t = assignIn ''theme'' ''palette'' (Str palette) t"

definition Theme_monochrome :: "jsval \<Rightarrow> jsval \<Rightarrow> jsval res" where
  "Theme_monochrome config t = mergeIn ''theme'' ''monochrome'' config t"

section \<open>Plot options\<close>

text \<open>The helpers return the tree after the check; the object the source returns is the
  child at \<open>plotOptions\<close> (at \<open>plotOptions[type]\<close>), read again by the caller.\<close>

definition ensurePlotOptions :: "jsval \<Rightarrow> jsval res" where
  "ensurePlotOptions t = ensureKey ''plotOptions'' t"

definition ensurePlotOptionType :: "string \<Rightarrow> jsval \<Rightarrow> jsval res" where
  "ensurePlotOptionType ty t =
     andThen (ensurePlotOptions t) (\<lambda>t. modify t ''plotOptions'' (ensureKey ty))"

text \<open>\<open>const o = ensurePlotOptionType(this.chart, ty); ...statements on o...\<close>\<close>

definition onPlotType :: "string \<Rightarrow> (jsval \<Rightarrow> jsval res) \<Rightarrow> jsval \<Rightarrow> jsval res" where
  "onPlotType ty body t =
     andThen (ensurePlotOptionType ty t) (\<lambda>t.
       modify t ''plotOptions'' (\<lambda>p. modify p ty body))"

definition BarOptions_horizontal :: "bool \<Rightarrow> jsval \<Rightarrow> jsval res" where
  "BarOptions_horizontal isHorizontal t =
     onPlotType ''bar'' (\<lambda>b. setProp b ''horizontal'' (Bool isHorizontal)) t"

definition BarOptions_columnWidth :: "string \<Rightarrow> jsval \<Rightarrow> jsval res" where
  "BarOptions_columnWidth width t =
     onPlotType ''bar'' (\<lambda>b. setProp b ''columnWidth'' (Str width)) t"

definition BarOptions_barHeight :: "string \<Rightarrow> jsval \<Rightarrow> jsval res" where
  "BarOptions_barHeight height t =
     onPlotType ''bar'' (\<lambda>b. setProp b ''barHeight'' (Str height)) t"

definition BarOptions_distributed :: "bool \<Rightarrow> jsval \<Rightarrow> jsval res" where
  "BarOptions_distributed distributed t =
     onPlotType ''bar'' (\<lambda>b. setProp b ''distributed'' (Bool distributed)) t"

definition BarOptions_borderRadius :: "int \<Rightarrow> jsval \<Rightarrow> jsval res" where
  "BarOptions_borderRadius radius t =
     onPlotType ''bar'' (\<lambda>b. setProp b ''borderRadius'' (Num radius)) t"

definition BarOptions_colors :: "jsval \<Rightarrow> jsval \<Rightarrow> jsval res" where
  "BarOptions_colors config t = onPlotType ''bar'' (mergeOrEmpty ''colors'' config) t"

definition PieOptions_startAngle :: "int \<Rightarrow> jsval \<Rightarrow> jsval res" where
  "PieOptions_startAngle angle t =
     onPlotType ''pie'' (\<lambda>p. setProp p ''startAngle'' (Num angle)) t"

definition PieOptions_endAngle :: "int \<Rightarrow> jsval \<Rightarrow> jsval res" where
  "PieOptions_endAngle angle t =
     onPlotType ''pie'' (\<lambda>p. setProp p ''endAngle'' (Num angle)) t"

definition PieOptions_expandOnClick :: "bool \<Rightarrow> jsval \<Rightarrow> jsval res" where
  "PieOptions_expandOnClick expand t =
     onPlotType ''pie'' (\<lambda>p. setProp p ''expandOnClick'' (Bool expand)) t"

text \<open>\<open>{ ...(labels?.k || {}), ...configLabels.k }\<close>, with \<open>labels\<close> the value read from
  \<open>pieOptions.donut.labels\<close> at this point of the method.\<close>

definition donut_label :: "jsval \<Rightarrow> jsval \<Rightarrow> string \<Rightarrow> jsval res" where
  "donut_label labels configLabels k =
     andThen (getOpt labels k) (\<lambda>old.
       andThen (getProp configLabels k) (\<lambda>new. spread2 (orEmpty old) new))"

text \<open>
  \<open>PieOptions.donut\<close>. The first statement replaces \<open>pieOptions.donut\<close> by the shallow
  merge; the object literal of the second statement reads \<open>pieOptions.donut.labels\<close> from
  that merged object.
\<close>

definition PieOptions_donut :: "jsval \<Rightarrow> jsval \<Rightarrow> jsval res" where
  "PieOptions_donut config t =
     onPlotType ''pie'' (\<lambda>pieOptions.
       chain pieOptions
         [mergeOrEmpty ''donut'' config,
          (\<lambda>pieOptions. andThen (getProp config ''labels'') (\<lambda>configLabels.
             if truthy configLabels
             then modify pieOptions ''donut'' (\<lambda>donut.
                    andThen (getProp donut ''labels'') (\<lambda>labels.
                    andThen (ownProps (orEmpty labels)) (\<lambda>p1.
                    andThen (ownProps configLabels) (\<lambda>p2.
                    andThen (donut_label labels configLabels ''name'') (\<lambda>nm.
                    andThen (donut_label labels configLabels ''value'') (\<lambda>vl.
                    andThen (donut_label labels configLabels ''total'') (\<lambda>tl.
                      setProp donut ''labels''
                        (Obj (copyProps (copyProps (copyProps [] p1) p2)
                                [(''name'', nm), (''value'', vl), (''total'', tl)])))))))))
             else Inr pieOptions))]) t"

definition RadialBarOptions_hollow :: "jsval \<Rightarrow> jsval \<Rightarrow> jsval res" where
  "RadialBarOptions_hollow config t = onPlotType ''radialBar'' (mergeOrEmpty ''hollow'' config) t"

definition RadialBarOptions_track :: "jsval \<Rightarrow> jsval \<Rightarrow> jsval res" where
  "RadialBarOptions_track config t = onPlotType ''radialBar'' (mergeOrEmpty ''track'' config) t"

text \<open>\<open>if (config.k) { o.dataLabels.k = { ...(o.dataLabels.k || {}), ...config.k } }\<close>\<close>

definition radial_label :: "jsval \<Rightarrow> string \<Rightarrow> jsval \<Rightarrow> jsval res" where
  "radial_label config k radialOptions =
     andThen (getProp config k) (\<lambda>ck.
       if truthy ck then modify radialOptions ''dataLabels'' (mergeOrEmpty k ck)
       else Inr radialOptions)"

definition RadialBarOptions_dataLabels :: "jsval \<Rightarrow> jsval \<Rightarrow> jsval res" where
  "RadialBarOptions_dataLabels config t =
     onPlotType ''radialBar'' (\<lambda>radialOptions.
       chain radialOptions
         [mergeOrEmpty ''dataLabels'' config,
          radial_label config ''name'',
          radial_label config ''value'',
          radial_label config ''total'']) t"

definition HeatmapOptions_radius :: "int \<Rightarrow> jsval \<Rightarrow> jsval res" where
  "HeatmapOptions_radius radius t =
     onPlotType ''heatmap'' (\<lambda>h. setProp h ''radius'' (Num radius)) t"

definition HeatmapOptions_enableShades :: "bool \<Rightarrow> jsval \<Rightarrow> jsval res" where
  "HeatmapOptions_enableShades enable t =
     onPlotType ''heatmap'' (\<lambda>h. setProp h ''enableShades'' (Bool enable)) t"

definition HeatmapOptions_shadeIntensity :: "int \<Rightarrow> jsval \<Rightarrow> jsval res" where
  "HeatmapOptions_shadeIntensity intensity t =
     onPlotType ''heatmap'' (\<lambda>h. setProp h ''shadeIntensity'' (Num intensity)) t"

definition HeatmapOptions_colorScale :: "jsval \<Rightarrow> jsval \<Rightarrow> jsval res" where
  "HeatmapOptions_colorScale config t =
     onPlotType ''heatmap'' (mergeOrEmpty ''colorScale'' config) t"

subsection \<open>PlotOptionsManager\<close>

text \<open>
  The manager caches one component object per plot type. A component object is identified
  by the reference it was allocated at; \<open>allocated\<close> counts the component objects created
  so far. The plot-type components have no state of their own: their setters act on the
  tree of the chart, \<open>options\<close>.
\<close>

record manager =
  options :: jsval
  allocated :: nat
  cached_bar :: "nat option"
  cached_pie :: "nat option"
  cached_radialBar :: "nat option"
  cached_heatmap :: "nat option"

definition PlotOptionsManager_constructor :: "nat \<Rightarrow> jsval \<Rightarrow> manager res" where
  "PlotOptionsManager_constructor n t =
     andThen (ensurePlotOptions t) (\<lambda>t'.
       Inr \<lparr>options = t', allocated = n, cached_bar = None, cached_pie = None,
            cached_radialBar = None, cached_heatmap = None\<rparr>)"

definition PlotOptionsManager_bar :: "manager \<Rightarrow> nat \<times> manager" where
  "PlotOptionsManager_bar m =
     (case cached_bar m of
        None \<Rightarrow> (allocated m, m\<lparr>cached_bar := Some (allocated m), allocated := Suc (allocated m)\<rparr>)
      | Some r \<Rightarrow> (r, m))"

definition PlotOptionsManager_pie :: "manager \<Rightarrow> nat \<times> manager" where
  "PlotOptionsManager_pie m =
     (case cached_pie m of
        None \<Rightarrow> (allocated m, m\<lparr>cached_pie := Some (allocated m), allocated := Suc (allocated m)\<rparr>)
      | Some r \<Rightarrow> (r, m))"

definition PlotOptionsManager_radialBar :: "manager \<Rightarrow> nat \<times> manager" where
  "PlotOptionsManager_radialBar m =
     (case cached_radialBar m of
        None \<Rightarrow> (allocated m,
                 m\<lparr>cached_radialBar := Some (allocated m), allocated := Suc (allocated m)\<rparr>)
      | Some r \<Rightarrow> (r, m))"

definition PlotOptionsManager_heatmap :: "manager \<Rightarrow> nat \<times> manager" where
  "PlotOptionsManager_heatmap m =
     (case cached_heatmap m of
        None \<Rightarrow> (allocated m,
                 m\<lparr>cached_heatmap := Some (allocated m), allocated := Suc (allocated m)\<rparr>)
      | Some r \<Rightarrow> (r, m))"

section \<open>Chart\<close>

datatype chart_type =
    Line | Area | Bar | Pie | Donut | RadialBar | Scatter | Bubble | Heatmap | Candlestick
  | BoxPlot | Radar | PolarArea | RangeBar | RangeArea | Treemap

fun chart_type_name :: "chart_type \<Rightarrow> string" where
  "chart_type_name Line = ''line''"
| "chart_type_name Area = ''area''"
| "chart_type_name Bar = ''bar''"
| "chart_type_name Pie = ''pie''"
| "chart_type_name Donut = ''donut''"
| "chart_type_name RadialBar = ''radialBar''"
| "chart_type_name Scatter = ''scatter''"
| "chart_type_name Bubble = ''bubble''"
| "chart_type_name Heatmap = ''heatmap''"
| "chart_type_name Candlestick = ''candlestick''"
| "chart_type_name BoxPlot = ''boxPlot''"
| "chart_type_name Radar = ''radar''"
| "chart_type_name PolarArea = ''polarArea''"
| "chart_type_name RangeBar = ''rangeBar''"
| "chart_type_name RangeArea = ''rangeArea''"
| "chart_type_name Treemap = ''treemap''"

text \<open>The constructor seeds \<open>_options\<close> and creates the nine component builders in this
  order; the value is \<open>_options\<close> after the last of them.\<close>

definition Chart_constructor :: "chart_type \<Rightarrow> jsval res" where
  "Chart_constructor ty =
     chain (Obj [(''chart'', Obj [(''type'', Str (chart_type_name ty))]), (''series'', Arr [])])
       [Axis_constructor XAxis,
        Axis_constructor YAxis,
        Tooltip_constructor,
        Legend_constructor,
        Grid_constructor,
        DataLabels_constructor,
        Markers_constructor,
        Theme_constructor,
        ensurePlotOptions]"

definition Chart_create :: "chart_type \<Rightarrow> jsval res" where
  "Chart_create ty = Chart_constructor ty"

definition Chart_title :: "string \<Rightarrow> jsval \<Rightarrow> jsval res" where
  "Chart_title text t = andThen (ensureKey ''title'' t) (assignIn ''title'' ''text'' (Str text))"

definition Chart_subtitle :: "string \<Rightarrow> jsval \<Rightarrow> jsval res" where
  "Chart_subtitle text t =
     andThen (ensureKey ''subtitle'' t) (assignIn ''subtitle'' ''text'' (Str text))"

text \<open>\<open>if (!this._options.chart) this._options.chart = { type: 'line' }\<close>\<close>

definition ensureChart :: "jsval \<Rightarrow> jsval res" where
  "ensureChart t =
     andThen (getProp t ''chart'') (\<lambda>c.
       if truthy c then Inr t else setProp t ''chart'' (Obj [(''type'', Str ''line'')]))"

definition Chart_height :: "jsval \<Rightarrow> jsval \<Rightarrow> jsval res" where
  "Chart_height height t = andThen (ensureChart t) (assignIn ''chart'' ''height'' height)"

definition Chart_width :: "jsval \<Rightarrow> jsval \<Rightarrow> jsval res" where
  "Chart_width width t = andThen (ensureChart t) (assignIn ''chart'' ''width'' width)"

definition Chart_series :: "jsval list \<Rightarrow> jsval \<Rightarrow> jsval res" where
  "Chart_series data t = setProp t ''series'' (Arr data)"

definition Chart_colors :: "string list \<Rightarrow> jsval \<Rightarrow> jsval res" where
  "Chart_colors colors t = setProp t ''colors'' (Arr (map Str colors))"

text \<open>
  One of the three blocks of \<open>Chart.states\<close>:
  \<open>if (config.k?.filter) { states.k = { ...(states.k || {}),
     filter: { ...(states.k?.filter || {}), ...config.k.filter } } }\<close>
\<close>

definition state_filter :: "jsval \<Rightarrow> string \<Rightarrow> jsval \<Rightarrow> jsval res" where
  "state_filter config k t =
     andThen (getProp config k) (\<lambda>ck.
     andThen (getOpt ck ''filter'') (\<lambda>cf.
       if truthy cf
       then modify t ''states'' (\<lambda>states.
              andThen (getProp states k) (\<lambda>sk.
              andThen (ownProps (orEmpty sk)) (\<lambda>p1.
              andThen (getOpt sk ''filter'') (\<lambda>sf.
              andThen (getProp ck ''filter'') (\<lambda>cf'.
              andThen (spread2 (orEmpty sf) cf') (\<lambda>f.
                setProp states k (Obj (copyProps (copyProps [] p1) [(''filter'', f)]))))))))
       else Inr t))"

definition Chart_states :: "jsval \<Rightarrow> jsval \<Rightarrow> jsval res" where
  "Chart_states config t =
     chain t
       [mergeOrEmpty ''states'' config,
        state_filter config ''normal'',
        state_filter config ''hover'',
        state_filter config ''active'']"

definition Chart_responsive :: "jsval list \<Rightarrow> jsval \<Rightarrow> jsval res" where
  "Chart_responsive breakpoints t = setProp t ''responsive'' (Arr breakpoints)"

text \<open>\<open>if (config?.k) { animations.k = { ...(animations.k || {}), ...config.k } }\<close>\<close>

definition animation_part :: "jsval \<Rightarrow> string \<Rightarrow> jsval \<Rightarrow> jsval res" where
  "animation_part config k chart =
     andThen (getOpt config k) (\<lambda>ck.
       if truthy ck then modify chart ''animations'' (mergeOrEmpty k ck) else Inr chart)"

definition Chart_animations :: "jsval \<Rightarrow> jsval \<Rightarrow> jsval res" where
  "Chart_animations config t =
     andThen (ensureChart t) (\<lambda>t.
       modify t ''chart'' (\<lambda>chart.
         chain chart
           [mergeOrEmpty ''animations'' config,
            animation_part config ''animateGradually'',
            animation_part config ''dynamicAnimation'']))"

text \<open>The getter \<open>options\<close> returns the live tree.\<close>

definition Chart_options :: "jsval \<Rightarrow> jsval" where
  "Chart_options t = t"

text \<open>The chart-kind subclasses call the constructor with their discriminant; \<open>Donut\<close>
  forwards its argument to the pie component, \<open>Bar\<close> adds a passthrough.\<close>

definition Line_constructor :: "jsval res" where
  "Line_constructor = Chart_constructor Line"

definition Pie_constructor :: "jsval res" where
  "Pie_constructor = Chart_constructor Pie"

definition Bar_constructor :: "jsval res" where
  "Bar_constructor = Chart_constructor Bar"

definition Bar_horizontal :: "bool \<Rightarrow> jsval \<Rightarrow> jsval res" where
  "Bar_horizontal isHorizontal t = BarOptions_horizontal isHorizontal t"

definition Donut_constructor :: "jsval \<Rightarrow> jsval res" where
  "Donut_constructor config = andThen (Chart_constructor Donut) (PieOptions_donut config)"

section \<open>Calls of the builder\<close>

text \<open>
  A call of a public method of a component, as data, so that statements can range over
  every operation and over sequences of calls. \<open>perform\<close> runs the method; \<open>target\<close> is
  the top-level key of the tree under which the method writes.
\<close>

datatype axis_op =
    AxTitle string | AxCategories "jsval list" | AxType axis_kind | AxLabels jsval
  | AxRange int int | AxTickAmount int | AxAxisBorder jsval | AxAxisTicks jsval
  | AxCrosshairs jsval

fun Axis_call :: "axis_type \<Rightarrow> axis_op \<Rightarrow> jsval \<Rightarrow> jsval res" where
  "Axis_call a (AxTitle text) = Axis_title a text"
| "Axis_call a (AxCategories cs) = Axis_categories a cs"
| "Axis_call a (AxType k) = Axis_type a k"
| "Axis_call a (AxLabels config) = Axis_labels a config"
| "Axis_call a (AxRange mn mx) = Axis_range a mn mx"
| "Axis_call a (AxTickAmount n) = Axis_tickAmount a n"
| "Axis_call a (AxAxisBorder config) = Axis_axisBorder a config"
| "Axis_call a (AxAxisTicks config) = Axis_axisTicks a config"
| "Axis_call a (AxCrosshairs config) = Axis_crosshairs a config"

datatype tooltip_op =
    TtEnabled bool | TtShared bool | TtFollowCursor bool | TtTheme string | TtStyle jsval
  | TtCustom nat | TtXFormatter nat | TtYFormatter nat

fun Tooltip_call :: "tooltip_op \<Rightarrow> jsval \<Rightarrow> jsval res" where
  "Tooltip_call (TtEnabled b) = Tooltip_enabled b"
| "Tooltip_call (TtShared b) = Tooltip_shared b"
| "Tooltip_call (TtFollowCursor b) = Tooltip_followCursor b"
| "Tooltip_call (TtTheme s) = Tooltip_theme s"
| "Tooltip_call (TtStyle config) = Tooltip_style config"
| "Tooltip_call (TtCustom f) = Tooltip_custom f"
| "Tooltip_call (TtXFormatter f) = Tooltip_xFormatter f"
| "Tooltip_call (TtYFormatter f) = Tooltip_yFormatter f"

datatype legend_op =
    LgShow bool | LgPosition string | LgHorizontalAlign string | LgFontSize string
  | LgFontFamily string | LgLabels jsval | LgMarkers jsval | LgItemMargin jsval

fun Legend_call :: "legend_op \<Rightarrow> jsval \<Rightarrow> jsval res" where
  "Legend_call (LgShow b) = Legend_show b"
| "Legend_call (LgPosition s) = Legend_position s"
| "Legend_call (LgHorizontalAlign s) = Legend_horizontalAlign s"
| "Legend_call (LgFontSize s) = Legend_fontSize s"
| "Legend_call (LgFontFamily s) = Legend_fontFamily s"
| "Legend_call (LgLabels config) = Legend_labels config"
| "Legend_call (LgMarkers config) = Legend_markers config"
| "Legend_call (LgItemMargin config) = Legend_itemMargin config"

datatype grid_op =
    GrShow bool | GrBorderColor string | GrStrokeDashArray int | GrPosition string
  | GrXaxis jsval | GrYaxis jsval | GrPadding jsval

fun Grid_call :: "grid_op \<Rightarrow> jsval \<Rightarrow> jsval res" where
  "Grid_call (GrShow b) = Grid_show b"
| "Grid_call (GrBorderColor s) = Grid_borderColor s"
| "Grid_call (GrStrokeDashArray n) = Grid_strokeDashArray n"
| "Grid_call (GrPosition s) = Grid_position s"
| "Grid_call (GrXaxis config) = Grid_xaxis config"
| "Grid_call (GrYaxis config) = Grid_yaxis config"
| "Grid_call (GrPadding config) = Grid_padding config"

datatype datalabels_op =
    DlEnabled bool | DlFormatter nat | DlStyle jsval | DlBackground jsval | DlOffsetX int
  | DlOffsetY int

fun DataLabels_call :: "datalabels_op \<Rightarrow> jsval \<Rightarrow> jsval res" where
  "DataLabels_call (DlEnabled b) = DataLabels_enabled b"
| "DataLabels_call (DlFormatter f) = DataLabels_formatter f"
| "DataLabels_call (DlStyle config) = DataLabels_style config"
| "DataLabels_call (DlBackground config) = DataLabels_background config"
| "DataLabels_call (DlOffsetX n) = DataLabels_offsetX n"
| "DataLabels_call (DlOffsetY n) = DataLabels_offsetY n"

datatype markers_op =
    MkSize jsval | MkColors "string list" | MkStrokeColors jsval | MkStrokeWidth jsval
  | MkShape jsval | MkRadius int | MkHover jsval

fun Markers_call :: "markers_op \<Rightarrow> jsval \<Rightarrow> jsval res" where
  "Markers_call (MkSize v) = Markers_size v"
| "Markers_call (MkColors cs) = Markers_colors cs"
| "Markers_call (MkStrokeColors v) = Markers_strokeColors v"
| "Markers_call (MkStrokeWidth v) = Markers_strokeWidth v"
| "Markers_call (MkShape v) = Markers_shape v"
| "Markers_call (MkRadius n) = Markers_radius n"
| "Markers_call (MkHover config) = Markers_hover config"

datatype theme_op = ThMode string | ThPalette string | ThMonochrome jsval

fun Theme_call :: "theme_op \<Rightarrow> jsval \<Rightarrow> jsval res" where
  "Theme_call (ThMode s) = Theme_mode s"
| "Theme_call (ThPalette s) = Theme_palette s"
| "Theme_call (ThMonochrome config) = Theme_monochrome config"

datatype plot_op =
    BarHorizontal bool | BarColumnWidth string | BarBarHeight string | BarDistributed bool
  | BarBorderRadius int | BarColors jsval
  | PieStartAngle int | PieEndAngle int | PieExpandOnClick bool | PieDonut jsval
  | RadialHollow jsval | RadialTrack jsval | RadialDataLabels jsval
  | HeatRadius int | HeatEnableShades bool | HeatShadeIntensity int | HeatColorScale jsval

fun PlotOptions_call :: "plot_op \<Rightarrow> jsval \<Rightarrow> jsval res" where
  "PlotOptions_call (BarHorizontal b) = BarOptions_horizontal b"
| "PlotOptions_call (BarColumnWidth s) = BarOptions_columnWidth s"
| "PlotOptions_call (BarBarHeight s) = BarOptions_barHeight s"
| "PlotOptions_call (BarDistributed b) = BarOptions_distributed b"
| "PlotOptions_call (BarBorderRadius n) = BarOptions_borderRadius n"
| "PlotOptions_call (BarColors config) = BarOptions_colors config"
| "PlotOptions_call (PieStartAngle n) = PieOptions_startAngle n"
| "PlotOptions_call (PieEndAngle n) = PieOptions_endAngle n"
| "PlotOptions_call (PieExpandOnClick b) = PieOptions_expandOnClick b"
| "PlotOptions_call (PieDonut config) = PieOptions_donut config"
| "PlotOptions_call (RadialHollow config) = RadialBarOptions_hollow config"
| "PlotOptions_call (RadialTrack config) = RadialBarOptions_track config"
| "PlotOptions_call (RadialDataLabels config) = RadialBarOptions_dataLabels config"
| "PlotOptions_call (HeatRadius n) = HeatmapOptions_radius n"
| "PlotOptions_call (HeatEnableShades b) = HeatmapOptions_enableShades b"
| "PlotOptions_call (HeatShadeIntensity n) = HeatmapOptions_shadeIntensity n"
| "PlotOptions_call (HeatColorScale config) = HeatmapOptions_colorScale config"

datatype chart_op =
    ChTitle string | ChSubtitle string | ChHeight jsval | ChWidth jsval
  | ChSeries "jsval list" | ChColors "string list" | ChStates jsval
  | ChResponsive "jsval list" | ChAnimations jsval

fun Chart_call :: "chart_op \<Rightarrow> jsval \<Rightarrow> jsval res" where
  "Chart_call (ChTitle s) = Chart_title s"
| "Chart_call (ChSubtitle s) = Chart_subtitle s"
| "Chart_call (ChHeight v) = Chart_height v"
| "Chart_call (ChWidth v) = Chart_width v"
| "Chart_call (ChSeries xs) = Chart_series xs"
| "Chart_call (ChColors cs) = Chart_colors cs"
| "Chart_call (ChStates config) = Chart_states config"
| "Chart_call (ChResponsive bs) = Chart_responsive bs"
| "Chart_call (ChAnimations config) = Chart_animations config"

fun chart_op_key :: "chart_op \<Rightarrow> string" where
  "chart_op_key (ChTitle s) = ''title''"
| "chart_op_key (ChSubtitle s) = ''subtitle''"
| "chart_op_key (ChHeight v) = ''chart''"
| "chart_op_key (ChWidth v) = ''chart''"
| "chart_op_key (ChSeries xs) = ''series''"
| "chart_op_key (ChColors cs) = ''colors''"
| "chart_op_key (ChStates config) = ''states''"
| "chart_op_key (ChResponsive bs) = ''responsive''"
| "chart_op_key (ChAnimations config) = ''chart''"

datatype builder_op =
    OnAxis axis_type axis_op
  | OnTooltip tooltip_op
  | OnLegend legend_op
  | OnGrid grid_op
  | OnDataLabels datalabels_op
  | OnMarkers markers_op
  | OnTheme theme_op
  | OnPlotOptions plot_op
  | OnChart chart_op

fun perform :: "builder_op \<Rightarrow> jsval \<Rightarrow> jsval res" where
  "perform (OnAxis a op) = Axis_call a op"
| "perform (OnTooltip op) = Tooltip_call op"
| "perform (OnLegend op) = Legend_call op"
| "perform (OnGrid op) = Grid_call op"
| "perform (OnDataLabels op) = DataLabels_call op"
| "perform (OnMarkers op) = Markers_call op"
| "perform (OnTheme op) = Theme_call op"
| "perform (OnPlotOptions op) = PlotOptions_call op"
| "perform (OnChart op) = Chart_call op"

fun target :: "builder_op \<Rightarrow> string" where
  "target (OnAxis a op) = axis_key a"
| "target (OnTooltip op) = ''tooltip''"
| "target (OnLegend op) = ''legend''"
| "target (OnGrid op) = ''grid''"
| "target (OnDataLabels op) = ''dataLabels''"
| "target (OnMarkers op) = ''markers''"
| "target (OnTheme op) = ''theme''"
| "target (OnPlotOptions op) = ''plotOptions''"
| "target (OnChart op) = chart_op_key op"

fun run :: "builder_op list \<Rightarrow> jsval \<Rightarrow> jsval res" where
  "run [] t = Inr t"
| "run (op # ops) t = andThen (perform op t) (run ops)"

section \<open>Predicates used in the statements\<close>



text \<open>The nested objects the \<open>Axis\<close> constructor creates on an empty axis mapping, and the
  tree of a chart right after its construction.\<close>

definition axis_scaffold_value :: jsval where
  "axis_scaffold_value =
     Obj [(''title'', Obj []), (''labels'', Obj [(''style'', Obj [])]), (''axisBorder'', Obj []),
          (''axisTicks'', Obj []), (''crosshairs'', Obj [])]"

definition fresh_tree :: "chart_type \<Rightarrow> jsval" where
  "fresh_tree ty =
     Obj [(''chart'', Obj [(''type'', Str (chart_type_name ty))]),
          (''series'', Arr []),
          (''xaxis'', axis_scaffold_value),
          (''yaxis'', axis_scaffold_value),
          (''tooltip'', Obj [(''style'', Obj []), (''x'', Obj []), (''y'', Obj [])]),
          (''legend'', Obj [(''labels'', Obj []), (''markers'', Obj []), (''itemMargin'', Obj [])]),
          (''grid'', Obj [(''xaxis'', Obj [(''lines'', Obj [])]),
                         (''yaxis'', Obj [(''lines'', Obj [])]),
                         (''padding'', Obj [])]),
          (''dataLabels'', Obj [(''style'', Obj []), (''background'', Obj [])]),
          (''markers'', Obj [(''hover'', Obj [])]),
          (''theme'', Obj [(''monochrome'', Obj [])]),
          (''plotOptions'', Obj [])]"

text \<open>Two arguments of \<open>PieOptions.donut\<close>: \<open>{labels: {value: {show: true, fontSize: "16px"},
  total: {show: true}}}\<close> and \<open>{labels: {name: {show: true}}}\<close>.\<close>

definition donut_value_total :: jsval where
  "donut_value_total =
     Obj [(''labels'',
           Obj [(''value'', Obj [(''show'', Bool True), (''fontSize'', Str ''16px'')]),
                (''total'', Obj [(''show'', Bool True)])])]"

definition donut_name_only :: jsval where
  "donut_name_only = Obj [(''labels'', Obj [(''name'', Obj [(''show'', Bool True)])])]"

text \<open>The end-to-end scenario: a line chart, then \<open>title\<close>, \<open>height\<close>, \<open>series\<close>,
  \<open>xaxis.categories\<close>, \<open>xaxis.title\<close>, \<open>yaxis.title\<close>. \<open>claimed_export\<close> is the tree the
  scenario is said to export; \<open>actual_export\<close> lists the entries in insertion order.\<close>

definition end_to_end :: "jsval res" where
  "end_to_end =
     andThen (Chart_create Line) (\<lambda>t.
       chain t
         [Chart_title ''Sample'',
          Chart_height (Num 350),
          Chart_series [Obj [(''name'', Str ''S1''), (''data'', Arr [Num 1, Num 2, Num 3])]],
          Axis_categories XAxis [Str ''Jan'', Str ''Feb'', Str ''Mar''],
          Axis_title XAxis ''Month'',
          Axis_title YAxis ''Value''])"

definition claimed_export :: jsval where
  "claimed_export =
     Obj [(''chart'', Obj [(''type'', Str ''line''), (''height'', Num 350)]),
          (''series'', Arr [Obj [(''name'', Str ''S1''), (''data'', Arr [Num 1, Num 2, Num 3])]]),
          (''title'', Obj [(''text'', Str ''Sample'')]),
          (''xaxis'', Obj [(''categories'', Arr [Str ''Jan'', Str ''Feb'', Str ''Mar'']),
                          (''title'', Obj [(''text'', Str ''Month'')]),
                          (''labels'', Obj [(''style'', Obj [])]),
                          (''axisBorder'', Obj []),
                          (''axisTicks'', Obj []),
                          (''crosshairs'', Obj [])]),
          (''yaxis'', Obj [(''title'', Obj [(''text'', Str ''Value'')]),
                          (''labels'', Obj [(''style'', Obj [])]),
                          (''axisBorder'', Obj []),
                          (''axisTicks'', Obj []),
                          (''crosshairs'', Obj [])])]"

definition actual_export :: jsval where
  "actual_export =
     Obj [(''chart'', Obj [(''type'', Str ''line''), (''height'', Num 350)]),
          (''series'', Arr [Obj [(''name'', Str ''S1''), (''data'', Arr [Num 1, Num 2, Num 3])]]),
          (''xaxis'', Obj [(''title'', Obj [(''text'', Str ''Month'')]),
                          (''labels'', Obj [(''style'', Obj [])]),
                          (''axisBorder'', Obj []),
                          (''axisTicks'', Obj []),
                          (''crosshairs'', Obj []),
                          (''categories'', Arr [Str ''Jan'', Str ''Feb'', Str ''Mar''])]),
          (''yaxis'', Obj [(''title'', Obj [(''text'', Str ''Value'')]),
                          (''labels'', Obj [(''style'', Obj [])]),
                          (''axisBorder'', Obj []),
                          (''axisTicks'', Obj []),
                          (''crosshairs'', Obj [])]),
          (''tooltip'', Obj [(''style'', Obj []), (''x'', Obj []), (''y'', Obj [])]),
          (''legend'', Obj [(''labels'', Obj []), (''markers'', Obj []), (''itemMargin'', Obj [])]),
          (''grid'', Obj [(''xaxis'', Obj [(''lines'', Obj [])]),
                         (''yaxis'', Obj [(''lines'', Obj [])]),
                         (''padding'', Obj [])]),
          (''dataLabels'', Obj [(''style'', Obj []), (''background'', Obj [])]),
          (''markers'', Obj [(''hover'', Obj [])]),
          (''theme'', Obj [(''monochrome'', Obj [])]),
          (''plotOptions'', Obj []),
          (''title'', Obj [(''text'', Str ''Sample'')])]"

text \<open>
  The four accessors of the manager, by the plot type they give access to, and a sequence
  of accessor calls with the references it returns.
\<close>

datatype plot_kind = KBar | KPie | KRadialBar | KHeatmap

fun accessor :: "plot_kind \<Rightarrow> manager \<Rightarrow> nat \<times> manager" where
  "accessor KBar = PlotOptionsManager_bar"
| "accessor KPie = PlotOptionsManager_pie"
| "accessor KRadialBar = PlotOptionsManager_radialBar"
| "accessor KHeatmap = PlotOptionsManager_heatmap"

fun cache :: "plot_kind \<Rightarrow> manager \<Rightarrow> nat option" where
  "cache KBar = cached_bar"
| "cache KPie = cached_pie"
| "cache KRadialBar = cached_radialBar"
| "cache KHeatmap = cached_heatmap"

fun calls :: "plot_kind list \<Rightarrow> manager \<Rightarrow> nat list \<times> manager" where
  "calls [] m = ([], m)"
| "calls (k # ks) m =
     (case accessor k m of (r, m1) \<Rightarrow> (case calls ks m1 of (rs, m2) \<Rightarrow> (r # rs, m2)))"

text \<open>The sub-key of \<open>plotOptions\<close> a plot-type setter belongs to.\<close>

fun plot_op_key :: "plot_op \<Rightarrow> string" where
  "plot_op_key (BarHorizontal b) = ''bar''"
| "plot_op_key (BarColumnWidth s) = ''bar''"
| "plot_op_key (BarBarHeight s) = ''bar''"
| "plot_op_key (BarDistributed b) = ''bar''"
| "plot_op_key (BarBorderRadius n) = ''bar''"
| "plot_op_key (BarColors config) = ''bar''"
| "plot_op_key (PieStartAngle n) = ''pie''"
| "plot_op_key (PieEndAngle n) = ''pie''"
| "plot_op_key (PieExpandOnClick b) = ''pie''"
| "plot_op_key (PieDonut config) = ''pie''"
| "plot_op_key (RadialHollow config) = ''radialBar''"
| "plot_op_key (RadialTrack config) = ''radialBar''"
| "plot_op_key (RadialDataLabels config) = ''radialBar''"
| "plot_op_key (HeatRadius n) = ''heatmap''"
| "plot_op_key (HeatEnableShades b) = ''heatmap''"
| "plot_op_key (HeatShadeIntensity n) = ''heatmap''"
| "plot_op_key (HeatColorScale config) = ''heatmap''"

text \<open>Statements run on a node: every successful run leaves a mapping; a successful run
  on a mapping leaves a mapping.\<close>

definition yields_obj :: "(jsval \<Rightarrow> jsval res) \<Rightarrow> bool" where
  "yields_obj f \<longleftrightarrow> (\<forall>c c'. f c = Inr c' \<longrightarrow> is_obj c')"

definition keeps_obj :: "(jsval \<Rightarrow> jsval res) \<Rightarrow> bool" where
  "keeps_obj f \<longleftrightarrow> (\<forall>c c'. is_obj c \<and> f c = Inr c' \<longrightarrow> is_obj c')"

text \<open>
  The value \<open>getAxisConfig\<close> resolves the axis slot of a tree to, and the states of it
  the setters are defined on: \<open>axis_slot_ok\<close> holds of a falsy value and of a mapping
  whose nested objects are each falsy or a mapping; \<open>axis_args_ok\<close> holds of a call
  whose partial-object argument is a mapping with distinct keys (for \<open>labels\<close>, with a
  \<open>style\<close> that is falsy or a mapping).
\<close>

fun resolved_axis :: "axis_type \<Rightarrow> (string \<times> jsval) list \<Rightarrow> jsval" where
  "resolved_axis XAxis ps = lookup ps ''xaxis''"
| "resolved_axis YAxis ps =
     (case lookup ps ''yaxis'' of Arr [] \<Rightarrow> Undef | Arr (x # rest) \<Rightarrow> x | y \<Rightarrow> y)"

fun falsy_or_obj :: "jsval \<Rightarrow> bool" where
  "falsy_or_obj (Obj m) = True"
| "falsy_or_obj v = (\<not> truthy v)"

fun axis_slot_ok :: "jsval \<Rightarrow> bool" where
  "axis_slot_ok (Obj m) =
     list_all (\<lambda>k. falsy_or_obj (lookup m k))
       [''title'', ''labels'', ''axisBorder'', ''axisTicks'', ''crosshairs'']"
| "axis_slot_ok v = (\<not> truthy v)"

fun axis_args_ok :: "axis_op \<Rightarrow> bool" where
  "axis_args_ok (AxLabels config) =
     (case config of
        Obj cfg \<Rightarrow> distinct (map fst cfg) \<and> falsy_or_obj (lookup cfg ''style'')
      | _ \<Rightarrow> False)"
| "axis_args_ok (AxAxisBorder config) = is_obj config"
| "axis_args_ok (AxAxisTicks config) = is_obj config"
| "axis_args_ok (AxCrosshairs config) = is_obj config"
| "axis_args_ok op = True"

fun truthy_scalar :: "jsval \<Rightarrow> bool" where
  "truthy_scalar (Bool b) = b"
| "truthy_scalar (Num n) = (n \<noteq> 0)"
| "truthy_scalar (Str s) = (s \<noteq> [])"
| "truthy_scalar v = False"



text \<open>The top-level keys of the nine components a chart constructs.\<close>

definition component_keys :: "string list" where
  "component_keys =
     [''xaxis'', ''yaxis'', ''tooltip'', ''legend'', ''grid'', ''dataLabels'', ''markers'',
      ''theme'', ''plotOptions'']"

text \<open>A step from the mapping \<open>ps\<close> to \<open>t'\<close> that changes nothing outside the key \<open>k\<close>;
  and one that moreover leaves a mapping at \<open>k\<close> if there was one.\<close>

definition frames :: "string \<Rightarrow> (string \<times> jsval) list \<Rightarrow> jsval \<Rightarrow> bool" where
  "frames k ps t' \<longleftrightarrow> (\<exists>qs. t' = Obj qs \<and> (\<forall>k'. k' \<noteq> k \<longrightarrow> lookup qs k' = lookup ps k'))"

definition touches :: "string \<Rightarrow> (string \<times> jsval) list \<Rightarrow> jsval \<Rightarrow> bool" where
  "touches k ps t' \<longleftrightarrow>
     (\<exists>qs. t' = Obj qs \<and> (\<forall>k'. k' \<noteq> k \<longrightarrow> lookup qs k' = lookup ps k') \<and>
           (is_obj (lookup ps k) \<longrightarrow> is_obj (lookup qs k)))"

text \<open>
  Reading along a path through mappings and sequences; the component constructors, as
  data; and for each the paths at which its constructor may write: the key of the
  component and the nested objects it creates (for the y-axis, on the slot itself and on
  element 0 of a sequence).
\<close>

datatype seg = Key string | Idx nat

fun get_at :: "jsval \<Rightarrow> seg list \<Rightarrow> jsval" where
  "get_at v [] = v"
| "get_at (Obj ps) (Key k # r) = get_at (lookup ps k) r"
| "get_at (Arr xs) (Idx i # r) = (if i < length xs then get_at (xs ! i) r else Undef)"
| "get_at v (s # r) = Undef"

fun is_arr :: "jsval \<Rightarrow> bool" where
  "is_arr (Arr xs) = True"
| "is_arr v = False"

datatype component =
  AxisC axis_type | TooltipC | LegendC | GridC | DataLabelsC | MarkersC | ThemeC

fun construct :: "component \<Rightarrow> jsval \<Rightarrow> jsval res" where
  "construct (AxisC a) = Axis_constructor a"
| "construct TooltipC = Tooltip_constructor"
| "construct LegendC = Legend_constructor"
| "construct GridC = Grid_constructor"
| "construct DataLabelsC = DataLabels_constructor"
| "construct MarkersC = Markers_constructor"
| "construct ThemeC = Theme_constructor"

definition axis_spine :: "seg list list" where
  "axis_spine =
     [[], [Key ''title''], [Key ''labels''], [Key ''labels'', Key ''style''],
      [Key ''axisBorder''], [Key ''axisTicks''], [Key ''crosshairs'']]"

fun spine :: "component \<Rightarrow> seg list list" where
  "spine (AxisC XAxis) = [] # map ((#) (Key ''xaxis'')) axis_spine"
| "spine (AxisC YAxis) =
     [] # map ((#) (Key ''yaxis'')) axis_spine @
     map (\<lambda>p. Key ''yaxis'' # Idx 0 # p) axis_spine"
| "spine TooltipC =
     [[], [Key ''tooltip''], [Key ''tooltip'', Key ''style''], [Key ''tooltip'', Key ''x''],
      [Key ''tooltip'', Key ''y'']]"
| "spine LegendC =
     [[], [Key ''legend''], [Key ''legend'', Key ''labels''], [Key ''legend'', Key ''markers''],
      [Key ''legend'', Key ''itemMargin'']]"
| "spine GridC =
     [[], [Key ''grid''], [Key ''grid'', Key ''xaxis''],
      [Key ''grid'', Key ''xaxis'', Key ''lines''], [Key ''grid'', Key ''yaxis''],
      [Key ''grid'', Key ''yaxis'', Key ''lines''], [Key ''grid'', Key ''padding'']]"
| "spine DataLabelsC =
     [[], [Key ''dataLabels''], [Key ''dataLabels'', Key ''style''],
      [Key ''dataLabels'', Key ''background'']]"
| "spine MarkersC = [[], [Key ''markers''], [Key ''markers'', Key ''hover'']]"
| "spine ThemeC = [[], [Key ''theme''], [Key ''theme'', Key ''monochrome'']]"

text \<open>What a constructor may do to the value at a path: put a mapping where a mapping or
  a falsy value was, or keep a sequence a sequence. \<open>scaffolds sp f\<close>: the statements \<open>f\<close>
  do that at the paths of \<open>sp\<close> and leave the value at every other path as it is.\<close>

definition changed_ok :: "jsval \<Rightarrow> jsval \<Rightarrow> bool" where
  "changed_ok v v' \<longleftrightarrow> (is_obj v' \<and> (is_obj v \<or> \<not> truthy v)) \<or> (is_arr v \<and> is_arr v')"

definition scaffolds :: "seg list list \<Rightarrow> (jsval \<Rightarrow> jsval res) \<Rightarrow> bool" where
  "scaffolds sp f \<longleftrightarrow>
     (\<forall>c c' q. f c = Inr c' \<longrightarrow>
        get_at c' q = get_at c q \<or> (q \<in> set sp \<and> changed_ok (get_at c q) (get_at c' q)))"

text \<open>\<open>settles sp f\<close>: after the statements \<open>f\<close> the values at the paths of \<open>sp\<close> are
  truthy, and on a value where they are already truthy the statements change nothing.\<close>

definition settles :: "seg list list \<Rightarrow> (jsval \<Rightarrow> jsval res) \<Rightarrow> bool" where
  "settles sp f \<longleftrightarrow>
     (\<forall>c c'. f c = Inr c' \<longrightarrow> (\<forall>q\<in>set sp. truthy (get_at c' q))) \<and>
     (\<forall>c. (\<forall>q\<in>set sp. truthy (get_at c q)) \<longrightarrow> f c = Inr c)"

text \<open>\<open>fixing f\<close>: the statements \<open>f\<close> run on a mapping only, return a truthy value, settle
  some paths and keep what is at the others.\<close>

definition fixing :: "(jsval \<Rightarrow> jsval res) \<Rightarrow> bool" where
  "fixing f \<longleftrightarrow>
     (\<exists>sp. [] \<in> set sp \<and> settles sp f) \<and> (\<exists>sp. scaffolds sp f) \<and>
     (\<forall>x x'. f x = Inr x' \<longrightarrow> is_obj x)"

text \<open>
  The nested objects each component constructor creates, as paths below the key of the
  component, and the paths of all of them in the tree. A call of \<open>labels\<close> on an axis
  \<open>keeps_style\<close> unless its argument has an own entry \<open>style\<close> that is falsy, as in
  \<open>labels({style: undefined})\<close>.
\<close>

definition axis_children :: "string list list" where
  "axis_children =
     [[''title''], [''labels''], [''labels'', ''style''], [''axisBorder''], [''axisTicks''],
      [''crosshairs'']]"

definition scaffold_children :: "(string \<times> string list list) list" where
  "scaffold_children =
     [(''xaxis'', axis_children),
      (''yaxis'', axis_children),
      (''tooltip'', [[''style''], [''x''], [''y'']]),
      (''legend'', [[''labels''], [''markers''], [''itemMargin'']]),
      (''grid'', [[''xaxis''], [''xaxis'', ''lines''], [''yaxis''], [''yaxis'', ''lines''],
                 [''padding'']]),
      (''dataLabels'', [[''style''], [''background'']]),
      (''markers'', [[''hover'']]),
      (''theme'', [[''monochrome'']]),
      (''plotOptions'', [])]"

definition scaffold_paths :: "string list list" where
  "scaffold_paths = concat (map (\<lambda>(k, rs). [k] # map ((#) k) rs) scaffold_children)"

fun style_kept :: "jsval \<Rightarrow> bool" where
  "style_kept (Obj cfg) = (case map_of cfg ''style'' of None \<Rightarrow> True | Some s \<Rightarrow> truthy s)"
| "style_kept v = True"

fun keeps_style :: "builder_op \<Rightarrow> bool" where
  "keeps_style (OnAxis a (AxLabels config)) = style_kept config"
| "keeps_style op = True"








section \<open>Properties\<close>

subsection \<open>Mappings and the path-set primitive\<close>


lemma map_of_assign: "map_of (assign ps k v) = (map_of ps)(k \<mapsto> v)"
  by (induction ps) (auto simp: fun_eq_iff)

lemma lookup_assign: "lookup (assign ps k v) k' = (if k' = k then v else lookup ps k')"
  by (simp add: lookup_def map_of_assign)

lemma lookup_Nil: "lookup [] k = Undef"
  by (simp add: lookup_def)



lemma getProp_Obj_plain: "\<not> inherited k \<Longrightarrow> getProp (Obj ps) k = Inr (lookup ps k)"
  by (simp add: lookup_def split: option.splits)

lemma not_inherited_proto: "\<not> inherited k \<Longrightarrow> k \<noteq> ''__proto__''"
  by (auto simp: inherited_def object_prototype_keys_def)

lemma setProp_Obj_plain: "\<not> inherited k \<Longrightarrow> setProp (Obj ps) k v = Inr (Obj (assign ps k v))"
  by (simp add: not_inherited_proto)


lemma getPath_Null: "ks \<noteq> [] \<Longrightarrow> getPath Null ks = Undef"
  by (cases ks) auto

lemma assign_assign: "assign (assign ps k a) k b = assign ps k b"
  by (induction ps) auto










subsection \<open>Evaluating the builder on concrete trees\<close>

lemma plain_not_inherited: "list_all (\<lambda>k. \<not> inherited k) plain_keys"
  by (simp add: plain_keys_def inherited_def object_prototype_keys_def)

lemmas not_inh = plain_not_inherited[unfolded plain_keys_def, simplified]

lemmas ctor_defs = Chart_constructor_def Axis_constructor_def Axis_scaffold_def whenAxis_def
  Tooltip_constructor_def Legend_constructor_def Grid_constructor_def DataLabels_constructor_def
  Markers_constructor_def Theme_constructor_def ensurePlotOptions_def ensureKey_def orInit_def
  modify_def orEmpty_def not_inh lookup_def

lemmas plot_defs = onPlotType_def ensurePlotOptionType_def ensurePlotOptions_def ensureKey_def
  modify_def mergeOrEmpty_def spread2_def copyProps_def orEmpty_def donut_label_def getOpt_def
  not_inh lookup_def

lemmas op_defs = Chart_title_def Chart_height_def Chart_series_def Axis_categories_def
  Axis_title_def ensureChart_def assignIn_def whenAxis_def ensureKey_def modify_def getOpt_def
  not_inh lookup_def

lemma Chart_constructor_value: "Chart_constructor ty = Inr (fresh_tree ty)"
  by (simp add: ctor_defs fresh_tree_def axis_scaffold_value_def)

subsection \<open>Series\<close>

text \<open>
  Claim C9. For every two lists \<open>l1\<close> and \<open>l2\<close> of series configurations and every tree
  that is a mapping, \<open>series(l1)\<close> followed by \<open>series(l2)\<close> leaves the tree that
  \<open>series(l2)\<close> alone produces, and its \<open>series\<close> entry is exactly \<open>l2\<close>; so it is on the
  tree of a chart of any type.
\<close>

theorem Chart_series_replaces:
  "andThen (Chart_series l1 (Obj ps)) (Chart_series l2) = Chart_series l2 (Obj ps) \<and>
   andThen (Chart_series l2 (Obj ps)) (\<lambda>t. getProp t ''series'') = Inr (Arr l2) \<and>
   andThen (Chart_create ty) (\<lambda>t.
     andThen (Chart_series l1 t) (\<lambda>t.
       andThen (Chart_series l2 t) (\<lambda>t. getProp t ''series''))) = Inr (Arr l2)"
  by (simp add: Chart_series_def Chart_create_def Chart_constructor_value fresh_tree_def
      assign_assign map_of_assign)

subsection \<open>The donut labels\<close>

text \<open>
  Claim C3 says that \<open>PieOptions.donut\<close> with a config that only sets
  \<open>labels.name.show\<close> leaves the content of \<open>labels.value\<close> and \<open>labels.total\<close> in place.
  On a pie chart whose donut labels were set by a first call to \<open>{value: {show: true,
  fontSize: "16px"}, total: {show: true}}\<close> (first equation), the second call with
  \<open>{labels: {name: {show: true}}}\<close> leaves \<open>value\<close> and \<open>total\<close> empty: the first
  statement of the method has already replaced \<open>donut.labels\<close> by the labels of the
  config when the deeper merge reads it.
\<close>

theorem PieOptions_donut_discards_labels:
  "andThen Pie_constructor (\<lambda>t.
     andThen (PieOptions_donut donut_value_total t) (\<lambda>t.
       Inr (getPath t [''plotOptions'', ''pie'', ''donut'', ''labels'']))) =
     Inr (Obj [(''value'', Obj [(''show'', Bool True), (''fontSize'', Str ''16px'')]),
               (''total'', Obj [(''show'', Bool True)]),
               (''name'', Obj [])]) \<and>
   andThen Pie_constructor (\<lambda>t.
     andThen (PieOptions_donut donut_value_total t) (\<lambda>t.
       andThen (PieOptions_donut donut_name_only t) (\<lambda>t.
         Inr (getPath t [''plotOptions'', ''pie'', ''donut'', ''labels''])))) =
     Inr (Obj [(''name'', Obj [(''show'', Bool True)]),
               (''value'', Obj []),
               (''total'', Obj [])])"
  by (simp add: Pie_constructor_def Chart_constructor_value fresh_tree_def PieOptions_donut_def
      donut_value_total_def donut_name_only_def plot_defs)

subsection \<open>The end-to-end scenario\<close>

text \<open>
  Claim C6, amended. The scenario exports the tree \<open>actual_export\<close>: the entries the
  claim lists, with the values it lists, and in addition the scaffolding of every other
  component the chart constructor creates: \<open>tooltip\<close>, \<open>legend\<close>, \<open>grid\<close>, \<open>dataLabels\<close>,
  \<open>markers\<close>, \<open>theme\<close> and an empty \<open>plotOptions\<close>.
\<close>

theorem end_to_end_export: "andThen end_to_end (\<lambda>t. Inr (Chart_options t)) = Inr actual_export"
  by (simp add: end_to_end_def Chart_create_def Chart_constructor_value fresh_tree_def
      axis_scaffold_value_def actual_export_def Chart_options_def op_defs)

text \<open>The exported tree has an entry \<open>tooltip\<close>; the tree of the claim has none.\<close>

theorem end_to_end_counterexample:
  "andThen end_to_end (\<lambda>t. getProp (Chart_options t) ''tooltip'') =
     Inr (Obj [(''style'', Obj []), (''x'', Obj []), (''y'', Obj [])]) \<and>
   getProp claimed_export ''tooltip'' = Inr Undef"
  by (simp add: end_to_end_def Chart_create_def Chart_constructor_value fresh_tree_def
      axis_scaffold_value_def claimed_export_def Chart_options_def op_defs)

subsection \<open>Shallow merge\<close>

lemma assign_fresh: "k \<notin> fst ` set ps \<Longrightarrow> assign ps k v = ps @ [(k, v)]"
  by (induction ps) auto

lemma copyProps_Cons: "copyProps acc ((k, v) # ps) = copyProps (assign acc k v) ps"
  by (simp add: copyProps_def)

lemma copyProps_Nil2: "copyProps acc [] = acc"
  by (simp add: copyProps_def)

lemma copyProps_append_distinct:
  "distinct (map fst (acc @ ps)) \<Longrightarrow> copyProps acc ps = acc @ ps"
proof (induction ps arbitrary: acc)
  case Nil
  then show ?case by (simp add: copyProps_Nil2)
next
  case (Cons p ps)
  obtain k v where p: "p = (k, v)" by (cases p)
  from Cons.prems have fresh: "k \<notin> fst ` set acc" by (auto simp: p)
  from Cons.prems have "distinct (map fst ((acc @ [(k, v)]) @ ps))" by (auto simp: p)
  from Cons.IH[OF this] show ?case
    by (simp add: p copyProps_Cons assign_fresh[OF fresh])
qed

lemma copyProps_Nil_distinct: "distinct (map fst ps) \<Longrightarrow> copyProps [] ps = ps"
  using copyProps_append_distinct[of "[]" ps] by simp

lemma lookup_Cons: "lookup ((k, v) # ps) k' = (if k = k' then v else lookup ps k')"
  by (simp add: lookup_def)

lemma lookup_copyProps:
  "distinct (map fst new) \<Longrightarrow>
   lookup (copyProps acc new) k = (if k \<in> fst ` set new then lookup new k else lookup acc k)"
proof (induction new arbitrary: acc)
  case Nil
  then show ?case by (simp add: copyProps_Nil2)
next
  case (Cons p new)
  obtain k' v where p: "p = (k', v)" by (cases p)
  from Cons.prems have d: "distinct (map fst new)" and nk: "k' \<notin> fst ` set new" by (auto simp: p)
  show ?case
    using Cons.IH[OF d, of "assign acc k' v"] nk
    by (auto simp: p copyProps_Cons lookup_assign lookup_Cons)
qed


lemma getPath3_ObjD:
  "getPath t [a, b, c] = Obj old \<Longrightarrow>
   \<exists>ps qs rs. t = Obj ps \<and> lookup ps a = Obj qs \<and> lookup qs b = Obj rs \<and> lookup rs c = Obj old"
  by (cases t; cases "getPath t [a]"; cases "getPath t [a, b]") auto

lemma spread2_Obj:
  "distinct (map fst old) \<Longrightarrow> spread2 (Obj old) (Obj new) = Inr (Obj (copyProps old new))"
  by (simp add: spread2_def copyProps_Nil_distinct)




lemma grid_lines_merges:
  assumes "ax = ''xaxis'' \<or> ax = ''yaxis''" "getPath t [''grid'', ax, ''lines''] = Obj old"
    "distinct (map fst old)"
  shows "\<exists>t'. grid_lines ax (Obj [(''lines'', Obj new)]) t = Inr t' \<and>
              getPath t' [''grid'', ax, ''lines''] = Obj (copyProps old new)"
proof -
  from getPath3_ObjD[OF assms(2)] obtain ps qs rs where
    "t = Obj ps" "lookup ps ''grid'' = Obj qs" "lookup qs ax = Obj rs" "lookup rs ''lines'' = Obj old"
    by blast
  moreover have "\<not> inherited ax" using assms(1) not_inh by auto
  ultimately show ?thesis
    using assms(3)
    by (simp add: grid_lines_def modify_def orInit_def getProp_Obj_plain setProp_Obj_plain not_inh
        spread2_Obj lookup_assign lookup_Cons orEmpty_def assign_assign del: getProp.simps setProp.simps)
qed

subsection \<open>What a successful statement did\<close>

lemma andThen_InrD: "andThen m f = Inr y \<Longrightarrow> \<exists>x. m = Inr x \<and> f x = Inr y"
  by (cases m) auto

lemma getProp_ObjD: "getProp (Obj ps) k = Inr c \<Longrightarrow> c = lookup ps k"
  by (auto simp: lookup_def split: option.splits if_splits)

lemma setProp_InrD: "setProp c k v = Inr c' \<Longrightarrow> \<exists>ps. c = Obj ps \<and> c' = Obj (assign ps k v)"
  by (cases c) (auto split: if_splits)

lemma is_obj_iff: "is_obj v \<longleftrightarrow> (\<exists>ps. v = Obj ps)"
  by (cases v) auto

lemma modify_ObjD:
  assumes "modify (Obj ps) k f = Inr t'"
  shows "\<exists>c'. f (lookup ps k) = Inr c' \<and> t' = Obj (assign ps k c')"
proof -
  from assms obtain c c' where "getProp (Obj ps) k = Inr c" "f c = Inr c'"
    "t' = putBack (Obj ps) k c'"
    unfolding modify_def by (blast dest: andThen_InrD)
  then show ?thesis by (auto dest: getProp_ObjD simp del: getProp.simps)
qed

lemma ensureKey_InrD:
  assumes "ensureKey k c = Inr c'"
  shows "\<exists>ps. c = Obj ps \<and> (if truthy (lookup ps k) then c' = c else c' = Obj (assign ps k (Obj [])))"
proof -
  from assms obtain v where g: "getProp c k = Inr v"
    and r: "(if truthy v then Inr c else setProp c k (Obj [])) = Inr c'"
    unfolding ensureKey_def by (blast dest: andThen_InrD)
  show ?thesis
  proof (cases "truthy v")
    case True
    with g obtain ps where c: "c = Obj ps"
      by (cases c) (auto split: if_splits)
    with g have "v = lookup ps k" by (simp only: getProp_ObjD)
    with True r c show ?thesis by (intro exI[of _ ps]) simp
  next
    case False
    with r have "setProp c k (Obj []) = Inr c'" by simp
    then obtain ps where c: "c = Obj ps" "c' = Obj (assign ps k (Obj []))"
      by (blast dest: setProp_InrD)
    with g have "v = lookup ps k" by (simp only: getProp_ObjD)
    with False c show ?thesis by (intro exI[of _ ps]) simp
  qed
qed

lemma orInit_InrD:
  assumes "orInit k c = Inr c'"
  shows "\<exists>ps. c = Obj ps \<and> c' = Obj (assign ps k (orEmpty (lookup ps k)))"
proof -
  from assms obtain v where g: "getProp c k = Inr v" and r: "setProp c k (orEmpty v) = Inr c'"
    unfolding orInit_def by (blast dest: andThen_InrD)
  from r obtain ps where c: "c = Obj ps" "c' = Obj (assign ps k (orEmpty v))"
    by (blast dest: setProp_InrD)
  with g have "v = lookup ps k" by (simp only: getProp_ObjD)
  with c show ?thesis by simp
qed

lemma spread2_InrD: "spread2 a b = Inr m \<Longrightarrow> is_obj m"
  unfolding spread2_def by (cases "ownProps a"; cases "ownProps b") auto

lemma mergeProp_InrD:
  assumes "mergeProp k config c = Inr c'"
  shows "\<exists>ps m. c = Obj ps \<and> is_obj m \<and> c' = Obj (assign ps k m)"
proof -
  from assms obtain old m where "spread2 old config = Inr m" "setProp c k m = Inr c'"
    unfolding mergeProp_def by (blast dest: andThen_InrD)
  then show ?thesis by (blast dest: setProp_InrD spread2_InrD)
qed

lemma mergeOrEmpty_InrD:
  assumes "mergeOrEmpty k config c = Inr c'"
  shows "\<exists>ps m. c = Obj ps \<and> is_obj m \<and> c' = Obj (assign ps k m)"
proof -
  from assms obtain old m where "spread2 (orEmpty old) config = Inr m" "setProp c k m = Inr c'"
    unfolding mergeOrEmpty_def by (blast dest: andThen_InrD)
  then show ?thesis by (blast dest: setProp_InrD spread2_InrD)
qed

lemma yields_obj_setProp: "yields_obj (\<lambda>c. setProp c k v)"
  unfolding yields_obj_def
proof (intro allI impI)
  fix c c'
  assume "setProp c k v = Inr c'"
  then obtain ps where "c' = Obj ps" by (blast dest: setProp_InrD)
  then show "is_obj c'" by simp
qed

lemma yields_obj_mergeOrEmpty: "yields_obj (mergeOrEmpty k config)"
  unfolding yields_obj_def
proof (intro allI impI)
  fix c c'
  assume "mergeOrEmpty k config c = Inr c'"
  then obtain ps where "c' = Obj ps" by (blast dest: mergeOrEmpty_InrD)
  then show "is_obj c'" by simp
qed

lemma yields_obj_mergeProp: "yields_obj (mergeProp k config)"
  unfolding yields_obj_def
proof (intro allI impI)
  fix c c'
  assume "mergeProp k config c = Inr c'"
  then obtain ps where "c' = Obj ps" by (blast dest: mergeProp_InrD)
  then show "is_obj c'" by simp
qed

lemma yields_obj_orInit: "yields_obj (orInit k)"
  unfolding yields_obj_def
proof (intro allI impI)
  fix c c'
  assume "orInit k c = Inr c'"
  then obtain ps where "c' = Obj ps" by (blast dest: orInit_InrD)
  then show "is_obj c'" by simp
qed

lemma yields_keeps: "yields_obj f \<Longrightarrow> keeps_obj f"
  unfolding yields_obj_def keeps_obj_def by blast

lemma keeps_obj_modify: "keeps_obj (\<lambda>c. modify c k f)"
  unfolding keeps_obj_def is_obj_iff by (blast dest: modify_ObjD)

lemma keeps_obj_chain: "list_all keeps_obj fs \<Longrightarrow> keeps_obj (\<lambda>c. chain c fs)"
proof (induction fs)
  case Nil
  then show ?case by (simp add: keeps_obj_def)
next
  case (Cons f fs)
  then have f: "keeps_obj f" and fs: "keeps_obj (\<lambda>c. chain c fs)" by simp_all
  show ?case
    unfolding keeps_obj_def
  proof (intro allI impI)
    fix c c'
    assume a: "is_obj c \<and> chain c (f # fs) = Inr c'"
    then obtain y where "f c = Inr y" "chain y fs = Inr c'"
      by (auto dest: andThen_InrD)
    with a f fs show "is_obj c'" unfolding keeps_obj_def by blast
  qed
qed

lemma yields_obj_chain:
  assumes "yields_obj f" "list_all keeps_obj fs"
  shows "yields_obj (\<lambda>c. chain c (f # fs))"
  unfolding yields_obj_def
proof (intro allI impI)
  fix c c'
  assume "chain c (f # fs) = Inr c'"
  then obtain y where "f c = Inr y" "chain y fs = Inr c'"
    by (auto dest: andThen_InrD)
  with assms(1) keeps_obj_chain[OF assms(2)] show "is_obj c'"
    unfolding yields_obj_def keeps_obj_def by blast
qed

lemma keeps_obj_cond:
  assumes "\<And>x. keeps_obj (g x)"
  shows "keeps_obj (\<lambda>c. andThen m (\<lambda>x. if b x then g x c else Inr c))"
proof (cases m)
  case (Inl e)
  then show ?thesis by (simp add: keeps_obj_def)
next
  case (Inr x)
  with assms[of x] show ?thesis by (simp add: keeps_obj_def)
qed


subsection \<open>Plot options and their manager\<close>

lemma onPlotType_creates:
  assumes "onPlotType ty body t = Inr t'" "yields_obj body"
  shows "is_obj (getPath t' [''plotOptions'', ty])"
proof -
  from assms(1) obtain t1 where t1: "modify t1 ''plotOptions'' (\<lambda>p. modify p ty body) = Inr t'"
    and e: "ensurePlotOptionType ty t = Inr t1"
    unfolding onPlotType_def by (blast dest: andThen_InrD)
  from e obtain t0 where "ensureKey ''plotOptions'' t = Inr t0"
    and m: "modify t0 ''plotOptions'' (ensureKey ty) = Inr t1"
    unfolding ensurePlotOptionType_def ensurePlotOptions_def by (blast dest: andThen_InrD)
  then obtain ps0 where t0: "t0 = Obj ps0"
    by (cases "truthy (getPath t [''plotOptions''])") (auto dest!: ensureKey_InrD split: if_splits)
  from m obtain ps1 where ps1: "t1 = Obj ps1"
    unfolding t0 by (blast dest: modify_ObjD)
  from t1 obtain p' where p: "modify (lookup ps1 ''plotOptions'') ty body = Inr p'"
    and t': "t' = Obj (assign ps1 ''plotOptions'' p')"
    unfolding ps1 by (blast dest: modify_ObjD)
  from p obtain c c' where c: "body c = Inr c'" and p': "p' = putBack (lookup ps1 ''plotOptions'') ty c'"
    unfolding modify_def by (blast dest: andThen_InrD)
  from m obtain q where "ensureKey ty (lookup ps0 ''plotOptions'') = Inr q"
    and "t1 = Obj (assign ps0 ''plotOptions'' q)"
    unfolding t0 by (blast dest: modify_ObjD)
  then obtain qs where "lookup ps1 ''plotOptions'' = Obj qs"
    unfolding ps1 by (auto dest!: ensureKey_InrD simp: lookup_assign split: if_splits)
  with c p' t' assms(2) show ?thesis
    by (auto simp: lookup_assign yields_obj_def)
qed

lemma keeps_obj_radial_label: "keeps_obj (radial_label config k)"
  unfolding radial_label_def
  by (rule keeps_obj_cond) (rule keeps_obj_modify)

lemma PlotOptions_call_creates:
  assumes "PlotOptions_call op t = Inr t'"
  shows "is_obj (getPath t' [''plotOptions'', plot_op_key op])"
proof (cases op)
  case (PieDonut config)
  have "yields_obj (\<lambda>pieOptions. chain pieOptions
         [mergeOrEmpty ''donut'' config,
          (\<lambda>pieOptions. andThen (getProp config ''labels'') (\<lambda>configLabels.
             if truthy configLabels
             then modify pieOptions ''donut'' (\<lambda>donut.
                    andThen (getProp donut ''labels'') (\<lambda>labels.
                    andThen (ownProps (orEmpty labels)) (\<lambda>p1.
                    andThen (ownProps configLabels) (\<lambda>p2.
                    andThen (donut_label labels configLabels ''name'') (\<lambda>nm.
                    andThen (donut_label labels configLabels ''value'') (\<lambda>vl.
                    andThen (donut_label labels configLabels ''total'') (\<lambda>tl.
                      setProp donut ''labels''
                        (Obj (copyProps (copyProps (copyProps [] p1) p2)
                                [(''name'', nm), (''value'', vl), (''total'', tl)])))))))))
             else Inr pieOptions))])"
    by (intro yields_obj_chain yields_obj_mergeOrEmpty)
       (simp, rule keeps_obj_cond, rule keeps_obj_modify)
  with assms PieDonut show ?thesis
    by (auto simp: PieOptions_donut_def dest: onPlotType_creates)
next
  case (RadialDataLabels config)
  have "yields_obj (\<lambda>radialOptions. chain radialOptions
         [mergeOrEmpty ''dataLabels'' config,
          radial_label config ''name'',
          radial_label config ''value'',
          radial_label config ''total''])"
    by (intro yields_obj_chain yields_obj_mergeOrEmpty) (simp add: keeps_obj_radial_label)
  with assms RadialDataLabels show ?thesis
    by (auto simp: RadialBarOptions_dataLabels_def dest: onPlotType_creates)
qed (use assms in \<open>auto simp: BarOptions_horizontal_def BarOptions_columnWidth_def
      BarOptions_barHeight_def BarOptions_distributed_def BarOptions_borderRadius_def
      BarOptions_colors_def PieOptions_startAngle_def PieOptions_endAngle_def
      PieOptions_expandOnClick_def RadialBarOptions_hollow_def RadialBarOptions_track_def
      HeatmapOptions_radius_def HeatmapOptions_enableShades_def HeatmapOptions_shadeIntensity_def
      HeatmapOptions_colorScale_def
      dest: onPlotType_creates[OF _ yields_obj_setProp] onPlotType_creates[OF _ yields_obj_mergeOrEmpty]\<close>)


lemma accessor_facts:
  assumes "accessor k m = (r, m')"
  shows "options m' = options m" "cache k m' = Some r"
    "k' \<noteq> k \<Longrightarrow> cache k' m' = cache k' m"
    "cache k m = Some r0 \<Longrightarrow> r = r0 \<and> m' = m"
    "cache k m = None \<Longrightarrow> r = allocated m \<and> allocated m' = Suc (allocated m)"
  using assms
  by (cases k; cases k';
      auto simp: PlotOptionsManager_bar_def PlotOptionsManager_pie_def
        PlotOptionsManager_radialBar_def PlotOptionsManager_heatmap_def split: option.splits)+

lemma calls_length: "calls ks m = (refs, m') \<Longrightarrow> length refs = length ks"
  by (induction ks arbitrary: m refs) (auto split: prod.splits)

lemma calls_options: "calls ks m = (refs, m') \<Longrightarrow> options m' = options m"
proof (induction ks arbitrary: m refs m')
  case Nil
  then show ?case by simp
next
  case (Cons k ks)
  obtain r m1 where a: "accessor k m = (r, m1)" by (cases "accessor k m")
  obtain rs m2 where c: "calls ks m1 = (rs, m2)" by (cases "calls ks m1")
  from Cons.prems a c have "m' = m2" by simp
  with Cons.IH[OF c] accessor_facts(1)[OF a] show ?case by simp
qed

lemma calls_cached:
  "cache k m = Some r \<Longrightarrow> calls ks m = (refs, m') \<Longrightarrow>
   cache k m' = Some r \<and> (\<forall>i<length ks. ks ! i = k \<longrightarrow> refs ! i = r)"
proof (induction ks arbitrary: m refs m')
  case Nil
  then show ?case by simp
next
  case (Cons k0 ks)
  obtain r0 m1 where a: "accessor k0 m = (r0, m1)" by (cases "accessor k0 m")
  obtain rs m2 where c: "calls ks m1 = (rs, m2)" by (cases "calls ks m1")
  from Cons.prems(2) a c have eq: "refs = r0 # rs" "m' = m2" by simp_all
  have c1: "cache k m1 = Some r"
    using accessor_facts(3)[OF a, of k] accessor_facts(4)[OF a, of r] Cons.prems(1)
    by (cases "k = k0") auto
  have r0: "k0 = k \<Longrightarrow> r0 = r"
    using accessor_facts(4)[OF a, of r] Cons.prems(1) by simp
  from Cons.IH[OF c1 c] have ih: "cache k m2 = Some r" "\<forall>i<length ks. ks ! i = k \<longrightarrow> rs ! i = r"
    by simp_all
  show ?case
    unfolding eq
  proof (intro conjI allI impI)
    show "cache k m2 = Some r" by (rule ih(1))
  next
    fix i
    assume i: "i < length (k0 # ks)" and e: "(k0 # ks) ! i = k"
    show "(r0 # rs) ! i = r"
    proof (cases i)
      case 0
      with e r0 show ?thesis by simp
    next
      case (Suc i')
      with i e ih(2) show ?thesis by simp
    qed
  qed
qed

lemma calls_same_instance:
  "calls ks m = (refs, m') \<Longrightarrow>
   \<forall>i<length ks. \<forall>j<length ks. ks ! i = ks ! j \<longrightarrow> refs ! i = refs ! j"
proof (induction ks arbitrary: m refs m')
  case Nil
  then show ?case by simp
next
  case (Cons k0 ks)
  obtain r0 m1 where a: "accessor k0 m = (r0, m1)" by (cases "accessor k0 m")
  obtain rs m2 where c: "calls ks m1 = (rs, m2)" by (cases "calls ks m1")
  from Cons.prems a c have eq: "refs = r0 # rs" by simp
  from calls_cached[OF accessor_facts(2)[OF a] c]
  have first: "\<forall>i<length ks. ks ! i = k0 \<longrightarrow> rs ! i = r0" by simp
  from Cons.IH[OF c]
  have rest: "\<forall>i<length ks. \<forall>j<length ks. ks ! i = ks ! j \<longrightarrow> rs ! i = rs ! j" .
  show ?case
    unfolding eq
  proof (intro allI impI)
    fix i j
    assume i: "i < length (k0 # ks)" and j: "j < length (k0 # ks)"
      and e: "(k0 # ks) ! i = (k0 # ks) ! j"
    show "(r0 # rs) ! i = (r0 # rs) ! j"
    proof (cases i)
      case 0
      show ?thesis
      proof (cases j)
        case 0
        with \<open>i = 0\<close> show ?thesis by simp
      next
        case (Suc j')
        with \<open>i = 0\<close> j e first[rule_format, of j'] show ?thesis by simp
      qed
    next
      case (Suc i')
      show ?thesis
      proof (cases j)
        case 0
        with Suc i e first[rule_format, of i'] show ?thesis by simp
      next
        case (Suc j')
        with \<open>i = Suc i'\<close> i j e rest[rule_format, of i' j'] show ?thesis by simp
      qed
    qed
  qed
qed

lemma calls_allocates:
  "calls ks m = (refs, m') \<Longrightarrow>
   allocated m' = allocated m + card {k \<in> set ks. cache k m = None}"
proof (induction ks arbitrary: m refs m')
  case Nil
  then show ?case by simp
next
  case (Cons k0 ks)
  obtain r0 m1 where a: "accessor k0 m = (r0, m1)" by (cases "accessor k0 m")
  obtain rs m2 where c: "calls ks m1 = (rs, m2)" by (cases "calls ks m1")
  from Cons.prems a c have eq: "m' = m2" by simp
  note ih = Cons.IH[OF c]
  show ?case
  proof (cases "cache k0 m")
    case None
    have "cache x m1 = None \<longleftrightarrow> cache x m = None \<and> x \<noteq> k0" for x
      using accessor_facts(2)[OF a] accessor_facts(3)[OF a, of x] by (cases "x = k0") auto
    then have s1: "{k \<in> set ks. cache k m1 = None} = {k \<in> set ks. cache k m = None} - {k0}"
      by auto
    have s2: "{k \<in> set (k0 # ks). cache k m = None} = insert k0 ({k \<in> set ks. cache k m = None} - {k0})"
      using None by auto
    have A: "allocated m2 = allocated m1 + card {k \<in> set ks. cache k m1 = None}" by (rule ih)
    have B: "allocated m1 = Suc (allocated m)" using accessor_facts(5)[OF a None] by blast
    have C: "card {k \<in> set (k0 # ks). cache k m = None} = Suc (card {k \<in> set ks. cache k m1 = None})"
      unfolding s1 s2 by (rule card_insert_disjoint) auto
    show ?thesis unfolding eq A B C by simp
  next
    case (Some r)
    from accessor_facts(4)[OF a Some] have m1: "m1 = m" by blast
    have s3: "{k \<in> set (k0 # ks). cache k m = None} = {k \<in> set ks. cache k m = None}"
      using Some by auto
    have A: "allocated m2 = allocated m1 + card {k \<in> set ks. cache k m1 = None}" by (rule ih)
    show ?thesis unfolding eq A s3 m1 by (rule refl)
  qed
qed


text \<open>
  Claim C8. On construction the manager makes \<open>plotOptions\<close> an empty mapping when it is
  missing, creates no sub-key of it and starts with empty caches. Through any sequence of
  accessor calls the tree stays as it is, two calls of the same accessor return the same
  component, and a component is allocated only by the first call of an accessor whose
  cache is empty. Every plot-type setter that returns leaves a mapping at its sub-key of
  \<open>plotOptions\<close>.
\<close>

theorem PlotOptionsManager_lazy:
  "(\<forall>ps n. \<exists>m. PlotOptionsManager_constructor n (Obj ps) = Inr m \<and>
       getPath (options m) [''plotOptions''] = orEmpty (lookup ps ''plotOptions'') \<and>
       (\<forall>ty. getPath (options m) [''plotOptions'', ty] = getPath (Obj ps) [''plotOptions'', ty]) \<and>
       allocated m = n \<and> cached_bar m = None \<and> cached_pie m = None \<and>
       cached_radialBar m = None \<and> cached_heatmap m = None) \<and>
   (\<forall>ks m refs m'. calls ks m = (refs, m') \<longrightarrow>
       options m' = options m \<and>
       (\<forall>i<length ks. \<forall>j<length ks. ks ! i = ks ! j \<longrightarrow> refs ! i = refs ! j) \<and>
       allocated m' = allocated m + card {k \<in> set ks. cache k m = None}) \<and>
   (\<forall>op t t'. PlotOptions_call op t = Inr t' \<longrightarrow>
       is_obj (getPath t' [''plotOptions'', plot_op_key op]))"
proof -
  have p1: "\<exists>m. PlotOptionsManager_constructor n (Obj ps) = Inr m \<and>
       getPath (options m) [''plotOptions''] = orEmpty (lookup ps ''plotOptions'') \<and>
       (\<forall>ty. getPath (options m) [''plotOptions'', ty] = getPath (Obj ps) [''plotOptions'', ty]) \<and>
       allocated m = n \<and> cached_bar m = None \<and> cached_pie m = None \<and>
       cached_radialBar m = None \<and> cached_heatmap m = None" for ps n
  proof (cases "truthy (lookup ps ''plotOptions'')")
    case True
    then show ?thesis
      by (simp add: PlotOptionsManager_constructor_def ensurePlotOptions_def ensureKey_def
          getProp_Obj_plain not_inh orEmpty_def del: getProp.simps)
  next
    case False
    then have "getPath (lookup ps ''plotOptions'') [ty] = Undef" for ty
      by (cases "lookup ps ''plotOptions''") auto
    with False show ?thesis
      by (simp add: PlotOptionsManager_constructor_def ensurePlotOptions_def ensureKey_def
          getProp_Obj_plain setProp_Obj_plain not_inh orEmpty_def lookup_assign lookup_Nil
          del: getProp.simps setProp.simps)
  qed
  have p2: "options m' = options m \<and>
       (\<forall>i<length ks. \<forall>j<length ks. ks ! i = ks ! j \<longrightarrow> refs ! i = refs ! j) \<and>
       allocated m' = allocated m + card {k \<in> set ks. cache k m = None}"
    if c: "calls ks m = (refs, m')" for ks m refs m'
    using calls_options[OF c] calls_same_instance[OF c] calls_allocates[OF c]
    by (intro conjI)
  have p3: "is_obj (getPath t' [''plotOptions'', plot_op_key op])"
    if "PlotOptions_call op t = Inr t'" for op t t'
    using that by (rule PlotOptions_call_creates)
  show ?thesis
    using p1 p2 p3 by (intro conjI allI impI) blast+
qed

text \<open>A manager on a tree without \<open>plotOptions\<close>: \<open>bar()\<close>, \<open>pie()\<close>, \<open>bar()\<close>, then the
  first setter of the bar component.\<close>

theorem PlotOptionsManager_lazy_witness:
  "(case PlotOptionsManager_constructor 0 (Obj [(''series'', Arr [])]) of
      Inl e \<Rightarrow> False
    | Inr m \<Rightarrow>
        (case calls [KBar, KPie, KBar] m of
           (refs, m') \<Rightarrow>
              refs ! 0 = refs ! 2 \<and> allocated m' = 2 \<and>
              options m' = Obj [(''series'', Arr []), (''plotOptions'', Obj [])] \<and>
              (case PlotOptions_call (BarHorizontal True) (options m') of
                 Inl e \<Rightarrow> False
               | Inr t' \<Rightarrow> is_obj (getPath t' [''plotOptions'', ''bar'']))))"
proof -
  let ?m = "\<lparr>options = Obj [(''series'', Arr []), (''plotOptions'', Obj [])], allocated = 0,
             cached_bar = None, cached_pie = None, cached_radialBar = None,
             cached_heatmap = None\<rparr>"
  have c: "PlotOptionsManager_constructor 0 (Obj [(''series'', Arr [])]) = Inr ?m"
    by (simp add: PlotOptionsManager_constructor_def ensurePlotOptions_def ensureKey_def not_inh)
  obtain refs m' where k: "calls [KBar, KPie, KBar] ?m = (refs, m')"
    by (cases "calls [KBar, KPie, KBar] ?m")
  from PlotOptionsManager_lazy[THEN conjunct2, THEN conjunct1, rule_format, OF k]
  have o: "options m' = options ?m"
    and s: "\<forall>i<length [KBar, KPie, KBar]. \<forall>j<length [KBar, KPie, KBar].
              [KBar, KPie, KBar] ! i = [KBar, KPie, KBar] ! j \<longrightarrow> refs ! i = refs ! j"
    and a: "allocated m' = allocated ?m + card {k \<in> set [KBar, KPie, KBar]. cache k ?m = None}"
    by blast+
  from s[rule_format, of 0 2] have s': "refs ! 0 = refs ! 2" by simp
  have "{k \<in> set [KBar, KPie, KBar]. cache k ?m = None} = {KBar, KPie}" by auto
  with a have a': "allocated m' = 2" by simp
  obtain t' where p: "PlotOptions_call (BarHorizontal True) (options m') = Inr t'"
    by (simp add: o BarOptions_horizontal_def onPlotType_def ensurePlotOptionType_def
        ensurePlotOptions_def ensureKey_def modify_def not_inh lookup_def)
  from PlotOptionsManager_lazy[THEN conjunct2, THEN conjunct2, rule_format, OF p]
  have "is_obj (getPath t' [''plotOptions'', ''bar''])" by simp
  with c k s' a' o p show ?thesis by simp
qed

subsection \<open>The axis slot\<close>

lemma lookup_SomeD: "lookup ps k = v \<Longrightarrow> v \<noteq> Undef \<Longrightarrow> map_of ps k = Some v"
  by (auto simp: lookup_def split: option.splits)

lemma assign_same: "map_of ps k = Some v \<Longrightarrow> assign ps k v = ps"
  by (induction ps) (auto split: if_splits)








lemma axis_op_eta:
  "Axis_categories a cs = whenAxis a (\<lambda>c. setProp c ''categories'' (Arr cs))"
  "Axis_type a k = whenAxis a (\<lambda>c. setProp c ''type'' (Str (axis_kind_name k)))"
  "Axis_labels a config =
     whenAxis a (\<lambda>c.
       chain c
         [orInit ''labels'',
          mergeProp ''labels'' config,
          (\<lambda>c. andThen (getProp config ''style'') (\<lambda>s.
             if truthy s
             then modify c ''labels'' (\<lambda>l. chain l [orInit ''style'', mergeProp ''style'' s])
             else Inr c))])"
  "Axis_range a mn mx =
     whenAxis a (\<lambda>c. chain c [\<lambda>c. setProp c ''min'' (Num mn), \<lambda>c. setProp c ''max'' (Num mx)])"
  "Axis_tickAmount a n = whenAxis a (\<lambda>c. setProp c ''tickAmount'' (Num n))"
  "Axis_axisBorder a config = whenAxis a (mergeOrEmpty ''axisBorder'' config)"
  "Axis_axisTicks a config = whenAxis a (mergeOrEmpty ''axisTicks'' config)"
  "Axis_crosshairs a config = whenAxis a (mergeOrEmpty ''crosshairs'' config)"
  by (rule ext, simp add: Axis_categories_def Axis_type_def Axis_labels_def Axis_range_def
      Axis_tickAmount_def Axis_axisBorder_def Axis_axisTicks_def Axis_crosshairs_def)+

















lemma yields_obj_labels:
  "yields_obj (\<lambda>c. chain c
         [orInit ''labels'',
          mergeProp ''labels'' config,
          (\<lambda>c. andThen (getProp config ''style'') (\<lambda>s.
             if truthy s
             then modify c ''labels'' (\<lambda>l. chain l [orInit ''style'', mergeProp ''style'' s])
             else Inr c))])"
  by (intro yields_obj_chain yields_obj_orInit)
     (simp add: yields_keeps yields_obj_mergeProp, rule keeps_obj_cond, rule keeps_obj_modify)

lemma yields_obj_range:
  "yields_obj (\<lambda>c. chain c [\<lambda>c. setProp c ''min'' (Num mn), \<lambda>c. setProp c ''max'' (Num mx)])"
  by (intro yields_obj_chain yields_obj_setProp) (simp add: yields_keeps yields_obj_setProp)








subsection \<open>When the axis setters return\<close>

lemma getAxisConfig_resolved: "getAxisConfig a (Obj ps) = Inr (resolved_axis a ps)"
  by (cases a; cases "lookup ps ''yaxis''")
     (auto simp: getProp_Obj_plain not_inh split: list.splits simp del: getProp.simps)

lemma whenAxis_falsy:
  "\<not> truthy (resolved_axis a ps) \<Longrightarrow> whenAxis a body (Obj ps) = Inr (Obj ps)"
  by (simp add: whenAxis_def getAxisConfig_resolved del: getAxisConfig.simps)

lemma whenAxis_ok:
  "body (resolved_axis a ps) = Inr c' \<Longrightarrow> \<exists>t'. whenAxis a body (Obj ps) = Inr t'"
  by (simp add: whenAxis_def getAxisConfig_resolved del: getAxisConfig.simps)

lemma whenAxis_raises:
  "truthy (resolved_axis a ps) \<Longrightarrow> body (resolved_axis a ps) = Inl e \<Longrightarrow>
   whenAxis a body (Obj ps) = Inl e"
  by (simp add: whenAxis_def getAxisConfig_resolved del: getAxisConfig.simps)

lemma falsy_or_obj_orEmpty: "falsy_or_obj v \<Longrightarrow> \<exists>m. orEmpty v = Obj m"
  by (cases v) (auto simp: orEmpty_def)

lemma falsy_or_obj_truthy: "falsy_or_obj v \<Longrightarrow> truthy v \<Longrightarrow> \<exists>m. v = Obj m"
  by (cases v) auto

lemma mergeOrEmpty_ok:
  assumes "\<not> inherited k" "falsy_or_obj (lookup m k)"
  shows "\<exists>c'. mergeOrEmpty k (Obj cfg) (Obj m) = Inr c'"
proof -
  from falsy_or_obj_orEmpty[OF assms(2)] obtain old where "orEmpty (lookup m k) = Obj old" by blast
  with assms(1) show ?thesis
    by (simp add: mergeOrEmpty_def getProp_Obj_plain setProp_Obj_plain spread2_def
        del: getProp.simps setProp.simps)
qed

lemma labels_ok:
  assumes "falsy_or_obj (lookup m ''labels'')" "distinct (map fst cfg)"
    "falsy_or_obj (lookup cfg ''style'')"
  shows "\<exists>c'. chain (Obj m)
         [orInit ''labels'',
          mergeProp ''labels'' (Obj cfg),
          (\<lambda>c. andThen (getProp (Obj cfg) ''style'') (\<lambda>s.
             if truthy s
             then modify c ''labels'' (\<lambda>l. chain l [orInit ''style'', mergeProp ''style'' s])
             else Inr c))] = Inr c'"
proof -
  from falsy_or_obj_orEmpty[OF assms(1)] obtain old where old: "orEmpty (lookup m ''labels'') = Obj old"
    by blast
  define merged where "merged = copyProps (copyProps [] old) cfg"
  show ?thesis
  proof (cases "truthy (lookup cfg ''style'')")
    case False
    then show ?thesis
      using old
      by (simp add: orInit_def mergeProp_def getProp_Obj_plain setProp_Obj_plain spread2_def
          not_inh lookup_assign assign_assign del: getProp.simps setProp.simps)
  next
    case True
    from falsy_or_obj_truthy[OF assms(3) True] obtain sm where sm: "lookup cfg ''style'' = Obj sm"
      by blast
    then have "''style'' \<in> fst ` set cfg"
      by (auto simp: lookup_def split: option.splits dest: map_of_SomeD intro: rev_image_eqI)
    with assms(2) sm have ms: "lookup merged ''style'' = Obj sm"
      by (simp add: merged_def lookup_copyProps)
    then have oe: "orEmpty (lookup merged ''style'') = Obj sm" by (simp add: orEmpty_def)
    show ?thesis
      using old True sm ms oe
      by (simp add: orInit_def mergeProp_def modify_def getProp_Obj_plain setProp_Obj_plain
          spread2_def not_inh lookup_assign assign_assign merged_def[symmetric]
          del: getProp.simps setProp.simps)
  qed
qed


lemma getOpt_falsy: "\<not> truthy c \<Longrightarrow> k \<in> set plain_keys \<Longrightarrow> getOpt c k = Inr Undef"
  by (cases c) (simp_all add: getOpt_def)

lemma getProp_scalar: "truthy_scalar c \<Longrightarrow> k \<in> set plain_keys \<Longrightarrow> getProp c k = Inr Undef"
  by (cases c) simp_all

lemma setProp_scalar:
  "truthy_scalar c \<Longrightarrow> k \<noteq> ''__proto__'' \<Longrightarrow> setProp c k v = Inl TypeError"
  by (cases c) simp_all

lemma truthy_scalar_truthy: "truthy_scalar c \<Longrightarrow> truthy c \<and> \<not> nullish c"
  by (cases c) simp_all

lemma plain_mem:
  "''title'' \<in> set plain_keys" "''labels'' \<in> set plain_keys" "''axisBorder'' \<in> set plain_keys"
  "''axisTicks'' \<in> set plain_keys" "''crosshairs'' \<in> set plain_keys"
  by (simp_all add: plain_keys_def)

lemma Axis_title_resolved:
  "Axis_title a text (Obj ps) =
     andThen (getOpt (resolved_axis a ps) ''title'') (\<lambda>ti.
       if truthy ti
       then andThen (modify (resolved_axis a ps) ''title'' (\<lambda>x. setProp x ''text'' (Str text)))
              (\<lambda>c'. Inr (putAxisConfig a (Obj ps) c'))
       else Inr (Obj ps))"
  by (simp add: Axis_title_def getAxisConfig_resolved del: getAxisConfig.simps)

lemma Axis_title_ok:
  assumes "axis_slot_ok (resolved_axis a ps)"
  shows "\<exists>t'. Axis_title a text (Obj ps) = Inr t'"
proof (cases "truthy (resolved_axis a ps)")
  case False
  then show ?thesis
    by (simp add: Axis_title_resolved getOpt_falsy plain_mem)
next
  case True
  with assms obtain m where m: "resolved_axis a ps = Obj m"
    by (cases "resolved_axis a ps") auto
  with assms have f: "falsy_or_obj (lookup m ''title'')" by simp
  show ?thesis
  proof (cases "truthy (lookup m ''title'')")
    case False
    then show ?thesis
      by (simp add: Axis_title_resolved m getOpt_def getProp_Obj_plain not_inh del: getProp.simps)
  next
    case True
    from falsy_or_obj_truthy[OF f True] obtain tm where "lookup m ''title'' = Obj tm" by blast
    then show ?thesis
      by (simp add: Axis_title_resolved m getOpt_def modify_def getProp_Obj_plain
          setProp_Obj_plain not_inh del: getProp.simps setProp.simps putAxisConfig.simps)
  qed
qed

lemma Axis_title_scalar:
  "truthy_scalar (resolved_axis a ps) \<Longrightarrow> Axis_title a text (Obj ps) = Inr (Obj ps)"
  using truthy_scalar_truthy[of "resolved_axis a ps"]
  by (simp add: Axis_title_resolved getOpt_def getProp_scalar plain_mem del: getProp.simps)

lemma whenAxis_slot_ok:
  assumes "axis_slot_ok (resolved_axis a ps)"
    and "\<And>m. resolved_axis a ps = Obj m \<Longrightarrow> \<exists>c'. body (Obj m) = Inr c'"
  shows "\<exists>t'. whenAxis a body (Obj ps) = Inr t'"
proof (cases "truthy (resolved_axis a ps)")
  case False
  then show ?thesis by (simp add: whenAxis_falsy)
next
  case True
  with assms(1) obtain m where m: "resolved_axis a ps = Obj m"
    by (cases "resolved_axis a ps") auto
  from assms(2)[OF m] obtain c' where "body (resolved_axis a ps) = Inr c'" using m by auto
  then show ?thesis by (rule whenAxis_ok)
qed

lemma Axis_call_ok:
  assumes "axis_slot_ok (resolved_axis a ps)" "axis_args_ok op"
  shows "\<exists>t'. Axis_call a op (Obj ps) = Inr t'"
proof (cases op)
  case (AxTitle title_text)
  then show ?thesis using Axis_title_ok[OF assms(1)] by simp
next
  case (AxLabels config)
  with assms(2) obtain cfg where c: "config = Obj cfg" "distinct (map fst cfg)"
    "falsy_or_obj (lookup cfg ''style'')"
    by (cases config) auto
  show ?thesis
    unfolding AxLabels Axis_call.simps axis_op_eta c(1)
    by (rule whenAxis_slot_ok[OF assms(1)], rule labels_ok) (use assms(1) c in simp_all)
next
  case (AxAxisBorder config)
  with assms(2) obtain cfg where c: "config = Obj cfg" by (cases config) auto
  show ?thesis
    unfolding AxAxisBorder Axis_call.simps axis_op_eta c
    by (rule whenAxis_slot_ok[OF assms(1)], rule mergeOrEmpty_ok)
       (use assms(1) in \<open>simp_all add: not_inh\<close>)
next
  case (AxAxisTicks config)
  with assms(2) obtain cfg where c: "config = Obj cfg" by (cases config) auto
  show ?thesis
    unfolding AxAxisTicks Axis_call.simps axis_op_eta c
    by (rule whenAxis_slot_ok[OF assms(1)], rule mergeOrEmpty_ok)
       (use assms(1) in \<open>simp_all add: not_inh\<close>)
next
  case (AxCrosshairs config)
  with assms(2) obtain cfg where c: "config = Obj cfg" by (cases config) auto
  show ?thesis
    unfolding AxCrosshairs Axis_call.simps axis_op_eta c
    by (rule whenAxis_slot_ok[OF assms(1)], rule mergeOrEmpty_ok)
       (use assms(1) in \<open>simp_all add: not_inh\<close>)
next
  case (AxCategories cs)
  show ?thesis
    unfolding AxCategories Axis_call.simps axis_op_eta
    by (rule whenAxis_slot_ok[OF assms(1)]) simp
next
  case (AxType k)
  show ?thesis
    unfolding AxType Axis_call.simps axis_op_eta
    by (rule whenAxis_slot_ok[OF assms(1)]) simp
next
  case (AxRange mn mx)
  show ?thesis
    unfolding AxRange Axis_call.simps axis_op_eta
    by (rule whenAxis_slot_ok[OF assms(1)]) simp
next
  case (AxTickAmount n)
  show ?thesis
    unfolding AxTickAmount Axis_call.simps axis_op_eta
    by (rule whenAxis_slot_ok[OF assms(1)]) simp
qed

lemma Axis_call_scalar:
  assumes "truthy_scalar (resolved_axis a ps)" "axis_args_ok op"
  shows "Axis_call a op (Obj ps) = (case op of AxTitle text \<Rightarrow> Inr (Obj ps) | _ \<Rightarrow> Inl TypeError)"
proof -
  note t = truthy_scalar_truthy[OF assms(1), THEN conjunct1]
  note g = getProp_scalar[OF assms(1)]
  note s = setProp_scalar[OF assms(1)]
  show ?thesis
  proof (cases op)
    case (AxTitle title_text)
    then show ?thesis using Axis_title_scalar[OF assms(1)] by simp
  next
    case (AxLabels config)
    show ?thesis
      unfolding AxLabels Axis_call.simps axis_op_eta
      by (simp add: whenAxis_raises[OF t] orInit_def g plain_mem s del: getProp.simps setProp.simps)
  next
    case (AxAxisBorder config)
    with assms(2) obtain cfg where c: "config = Obj cfg" by (cases config) auto
    show ?thesis
      unfolding AxAxisBorder Axis_call.simps axis_op_eta c
      by (simp add: whenAxis_raises[OF t] mergeOrEmpty_def spread2_def orEmpty_def g plain_mem s
          del: getProp.simps setProp.simps)
  next
    case (AxAxisTicks config)
    with assms(2) obtain cfg where c: "config = Obj cfg" by (cases config) auto
    show ?thesis
      unfolding AxAxisTicks Axis_call.simps axis_op_eta c
      by (simp add: whenAxis_raises[OF t] mergeOrEmpty_def spread2_def orEmpty_def g plain_mem s
          del: getProp.simps setProp.simps)
  next
    case (AxCrosshairs config)
    with assms(2) obtain cfg where c: "config = Obj cfg" by (cases config) auto
    show ?thesis
      unfolding AxCrosshairs Axis_call.simps axis_op_eta c
      by (simp add: whenAxis_raises[OF t] mergeOrEmpty_def spread2_def orEmpty_def g plain_mem s
          del: getProp.simps setProp.simps)
  next
    case (AxCategories cs)
    show ?thesis
      unfolding AxCategories Axis_call.simps axis_op_eta
      by (simp add: whenAxis_raises[OF t] s del: setProp.simps)
  next
    case (AxType k)
    show ?thesis
      unfolding AxType Axis_call.simps axis_op_eta
      by (simp add: whenAxis_raises[OF t] s del: setProp.simps)
  next
    case (AxRange mn mx)
    show ?thesis
      unfolding AxRange Axis_call.simps axis_op_eta
      by (simp add: whenAxis_raises[OF t] s del: setProp.simps)
  next
    case (AxTickAmount n)
    show ?thesis
      unfolding AxTickAmount Axis_call.simps axis_op_eta
      by (simp add: whenAxis_raises[OF t] s del: setProp.simps)
  qed
qed


text \<open>
  Claim C7, amended. For either axis and every tree: when the value the slot resolves to
  is falsy (absent, \<open>null\<close>, an empty sequence) or a mapping whose \<open>title\<close>, \<open>labels\<close>,
  \<open>axisBorder\<close>, \<open>axisTicks\<close> and \<open>crosshairs\<close> are each falsy or mappings, every setter
  called with a well-formed argument returns. When the slot, or element 0 of the sequence,
  holds a truthy scalar, \<open>title\<close> returns and leaves the tree as it is, and every other
  setter raises \<open>TypeError\<close>.
\<close>

theorem Axis_setters_return:
  "(\<forall>a ps op. axis_slot_ok (resolved_axis a ps) \<and> axis_args_ok op \<longrightarrow>
      (\<exists>t'. Axis_call a op (Obj ps) = Inr t')) \<and>
   (\<forall>a ps op. truthy_scalar (resolved_axis a ps) \<and> axis_args_ok op \<longrightarrow>
      Axis_call a op (Obj ps) =
        (case op of AxTitle title_text \<Rightarrow> Inr (Obj ps) | _ \<Rightarrow> Inl TypeError))"
  using Axis_call_ok Axis_call_scalar by blast

text \<open>\<open>labels\<close> on a sequence whose first axis has \<open>labels: null\<close>; \<open>title\<close> on a slot
  replaced by the number 5.\<close>

theorem Axis_setters_return_witness:
  "axis_slot_ok (resolved_axis YAxis [(''yaxis'', Arr [Obj [(''labels'', Null)]])]) \<and>
   axis_args_ok (AxLabels (Obj [(''style'', Obj [(''colors'', Str ''red'')])])) \<and>
   (case Axis_call YAxis (AxLabels (Obj [(''style'', Obj [(''colors'', Str ''red'')])]))
           (Obj [(''yaxis'', Arr [Obj [(''labels'', Null)]])]) of
      Inl e \<Rightarrow> False
    | Inr t' \<Rightarrow> True) \<and>
   truthy_scalar (resolved_axis YAxis [(''yaxis'', Num 5)]) \<and>
   Axis_call YAxis (AxTitle ''Y'') (Obj [(''yaxis'', Num 5)]) = Inr (Obj [(''yaxis'', Num 5)])"
proof -
  have h1: "axis_slot_ok (resolved_axis YAxis [(''yaxis'', Arr [Obj [(''labels'', Null)]])])"
    by (simp add: lookup_def)
  have h2: "axis_args_ok (AxLabels (Obj [(''style'', Obj [(''colors'', Str ''red'')])]))"
    by (simp add: lookup_def)
  have h3: "truthy_scalar (resolved_axis YAxis [(''yaxis'', Num 5)])"
    by (simp add: lookup_def)
  have h4: "axis_args_ok (AxTitle ''Y'')" by simp
  from Axis_setters_return[THEN conjunct1, rule_format, OF conjI[OF h1 h2]]
  obtain t' where r: "Axis_call YAxis (AxLabels (Obj [(''style'', Obj [(''colors'', Str ''red'')])]))
           (Obj [(''yaxis'', Arr [Obj [(''labels'', Null)]])]) = Inr t'"
    by blast
  from Axis_setters_return[THEN conjunct2, rule_format, OF conjI[OF h3 h4]]
  have t: "Axis_call YAxis (AxTitle ''Y'') (Obj [(''yaxis'', Num 5)]) = Inr (Obj [(''yaxis'', Num 5)])"
    by simp
  show ?thesis
    using h1 h2 h3 r t by simp
qed

text \<open>
  The claim as stated includes a slot replaced by a value that is neither a mapping nor a
  sequence. After \<open>chart.options.yaxis = 5\<close> on a new line chart, \<open>yaxis.categories\<close>
  raises \<open>TypeError\<close>: the number is truthy, so the guard lets the assignment run, and a
  property cannot be assigned on a number in strict mode.
\<close>

theorem Axis_setters_never_raise_counterexample:
  "andThen (Chart_create Line) (\<lambda>t.
     andThen (setProp t ''yaxis'' (Num 5)) (Axis_call YAxis (AxCategories [Str ''Jan'']))) =
   Inl TypeError"
  by (simp add: Chart_create_def Chart_constructor_value fresh_tree_def Axis_categories_def
      whenAxis_def not_inh)

subsection \<open>Every call writes under one key\<close>

lemma touches_frames: "touches k ps t' \<Longrightarrow> frames k ps t'"
  unfolding touches_def frames_def by blast

lemma touches_refl: "touches k ps (Obj ps)"
  unfolding touches_def by blast

lemma frames_refl: "frames k ps (Obj ps)"
  unfolding frames_def by blast

lemma touches_assign: "(is_obj (lookup ps k) \<Longrightarrow> is_obj c) \<Longrightarrow> touches k ps (Obj (assign ps k c))"
  unfolding touches_def by (auto simp: lookup_assign)

lemma frames_assign: "frames k ps (Obj (assign ps k c))"
  unfolding frames_def by (auto simp: lookup_assign)

lemma touches_trans: "touches k ps (Obj qs) \<Longrightarrow> touches k qs t' \<Longrightarrow> touches k ps t'"
  unfolding touches_def by auto

lemma frames_trans: "frames k ps (Obj qs) \<Longrightarrow> frames k qs t' \<Longrightarrow> frames k ps t'"
  unfolding frames_def by auto

lemma touches_modify:
  assumes "keeps_obj f" "modify (Obj ps) k f = Inr t'"
  shows "touches k ps t'"
proof -
  from modify_ObjD[OF assms(2)] obtain c' where c: "f (lookup ps k) = Inr c'"
    and t: "t' = Obj (assign ps k c')" by blast
  from assms(1) c have "is_obj (lookup ps k) \<Longrightarrow> is_obj c'"
    unfolding keeps_obj_def by blast
  then show ?thesis unfolding t by (rule touches_assign)
qed

lemma frames_modify: "modify (Obj ps) k f = Inr t' \<Longrightarrow> frames k ps t'"
  by (auto dest!: modify_ObjD intro: frames_assign)

lemma touches_ensureKey: "ensureKey k (Obj ps) = Inr t' \<Longrightarrow> touches k ps t'"
proof -
  assume "ensureKey k (Obj ps) = Inr t'"
  from ensureKey_InrD[OF this]
  have "t' = Obj ps \<or> t' = Obj (assign ps k (Obj []))" by (auto split: if_splits)
  then show ?thesis using touches_refl[of k ps] touches_assign[of ps k "Obj []"] by auto
qed

lemma touches_setter:
  assumes "andThen (ensureKey k (Obj ps)) (\<lambda>t. modify t k f) = Inr t'" "keeps_obj f"
  shows "touches k ps t'"
proof -
  from assms(1) obtain t1 where e: "ensureKey k (Obj ps) = Inr t1" and m: "modify t1 k f = Inr t'"
    by (blast dest: andThen_InrD)
  from touches_ensureKey[OF e] obtain qs where q: "t1 = Obj qs" unfolding touches_def by blast
  from touches_ensureKey[OF e] touches_modify[OF assms(2) m[unfolded q]] show ?thesis
    unfolding q by (rule touches_trans)
qed

lemma keeps_obj_setProp: "keeps_obj (\<lambda>c. setProp c k v)"
  by (rule yields_keeps[OF yields_obj_setProp])

lemma keeps_obj_mergeProp: "keeps_obj (mergeProp k config)"
  by (rule yields_keeps[OF yields_obj_mergeProp])

lemma keeps_obj_mergeOrEmpty: "keeps_obj (mergeOrEmpty k config)"
  by (rule yields_keeps[OF yields_obj_mergeOrEmpty])

lemma keeps_obj_orInit: "keeps_obj (orInit k)"
  by (rule yields_keeps[OF yields_obj_orInit])

lemma touches_assignIn: "assignIn ck k v (Obj ps) = Inr t' \<Longrightarrow> touches ck ps t'"
  unfolding assignIn_def by (rule touches_modify[OF keeps_obj_setProp])

lemma touches_mergeIn: "mergeIn ck k config (Obj ps) = Inr t' \<Longrightarrow> touches ck ps t'"
  unfolding mergeIn_def by (rule touches_modify[OF keeps_obj_mergeProp])

lemma Tooltip_call_touches: "Tooltip_call op (Obj ps) = Inr t' \<Longrightarrow> touches ''tooltip'' ps t'"
  by (cases op)
     (auto simp: Tooltip_enabled_def Tooltip_shared_def Tooltip_followCursor_def Tooltip_theme_def
        Tooltip_style_def Tooltip_custom_def Tooltip_xFormatter_def Tooltip_yFormatter_def
        intro: touches_assignIn touches_mergeIn touches_modify[OF keeps_obj_modify])

lemma Legend_call_touches: "Legend_call op (Obj ps) = Inr t' \<Longrightarrow> touches ''legend'' ps t'"
  by (cases op)
     (auto simp: Legend_show_def Legend_position_def Legend_horizontalAlign_def
        Legend_fontSize_def Legend_fontFamily_def Legend_labels_def Legend_markers_def
        Legend_itemMargin_def intro: touches_assignIn touches_mergeIn)

lemma grid_lines_touches: "grid_lines ax config (Obj ps) = Inr t' \<Longrightarrow> touches ''grid'' ps t'"
  unfolding grid_lines_def
  by (rule touches_modify[rotated], assumption, rule keeps_obj_chain)
     (simp add: keeps_obj_orInit keeps_obj_modify)

lemma Grid_call_touches: "Grid_call op (Obj ps) = Inr t' \<Longrightarrow> touches ''grid'' ps t'"
  by (cases op)
     (auto simp: Grid_show_def Grid_borderColor_def Grid_strokeDashArray_def Grid_position_def
        Grid_xaxis_def Grid_yaxis_def Grid_padding_def
        intro: touches_assignIn touches_mergeIn grid_lines_touches)

lemma DataLabels_call_touches:
  "DataLabels_call op (Obj ps) = Inr t' \<Longrightarrow> touches ''dataLabels'' ps t'"
  by (cases op)
     (auto simp: DataLabels_enabled_def DataLabels_formatter_def DataLabels_style_def
        DataLabels_background_def DataLabels_offsetX_def DataLabels_offsetY_def
        intro: touches_assignIn touches_mergeIn)

lemma Markers_call_touches: "Markers_call op (Obj ps) = Inr t' \<Longrightarrow> touches ''markers'' ps t'"
  by (cases op)
     (auto simp: Markers_size_def Markers_colors_def Markers_strokeColors_def
        Markers_strokeWidth_def Markers_shape_def Markers_radius_def Markers_hover_def
        intro: touches_assignIn touches_mergeIn)

lemma Theme_call_touches: "Theme_call op (Obj ps) = Inr t' \<Longrightarrow> touches ''theme'' ps t'"
  by (cases op)
     (auto simp: Theme_mode_def Theme_palette_def Theme_monochrome_def
        intro: touches_assignIn touches_mergeIn)


lemma putAxisConfig_touches:
  assumes "is_obj c'"
  shows "touches (axis_key a) ps (putAxisConfig a (Obj ps) c')"
proof (cases a)
  case XAxis
  then show ?thesis using assms by (simp add: touches_assign)
next
  case YAxis
  show ?thesis
  proof (cases "lookup ps ''yaxis''")
    case (Arr xs)
    show ?thesis
    proof (cases xs)
      case Nil
      with Arr YAxis show ?thesis by (simp add: touches_refl)
    next
      case (Cons x rest)
      have "touches ''yaxis'' ps (Obj (assign ps ''yaxis'' (Arr (c' # rest))))"
        by (rule touches_assign) (simp add: Arr)
      with Arr Cons YAxis show ?thesis by simp
    qed
  qed (use YAxis assms in \<open>simp_all add: touches_assign\<close>)
qed

lemma whenAxis_touches:
  assumes "whenAxis a body (Obj ps) = Inr t'" "yields_obj body"
  shows "touches (axis_key a) ps t'"
proof (cases "truthy (resolved_axis a ps)")
  case False
  with assms(1) have "t' = Obj ps" by (simp add: whenAxis_falsy)
  then show ?thesis by (simp add: touches_refl)
next
  case True
  with assms(1) obtain c' where c: "body (resolved_axis a ps) = Inr c'"
    and t: "t' = putAxisConfig a (Obj ps) c'"
    by (auto simp: whenAxis_def getAxisConfig_resolved dest!: andThen_InrD
        simp del: getAxisConfig.simps putAxisConfig.simps)
  from assms(2) c have "is_obj c'" unfolding yields_obj_def by blast
  then show ?thesis unfolding t by (rule putAxisConfig_touches)
qed

lemma getOpt_truthy_Obj: "getOpt c k = Inr ti \<Longrightarrow> truthy ti \<Longrightarrow> is_obj c"
  by (cases c) (auto simp: getOpt_def split: if_splits)

lemma Axis_title_touches:
  assumes "Axis_title a txt0 (Obj ps) = Inr t'"
  shows "touches (axis_key a) ps t'"
proof -
  from assms obtain ti where g: "getOpt (resolved_axis a ps) ''title'' = Inr ti"
    and r: "(if truthy ti
       then andThen (modify (resolved_axis a ps) ''title'' (\<lambda>x. setProp x ''text'' (Str txt0)))
              (\<lambda>c'. Inr (putAxisConfig a (Obj ps) c'))
       else Inr (Obj ps)) = Inr t'"
    unfolding Axis_title_resolved by (blast dest: andThen_InrD)
  show ?thesis
  proof (cases "truthy ti")
    case False
    with r have "t' = Obj ps" by simp
    then show ?thesis by (simp add: touches_refl)
  next
    case True
    from getOpt_truthy_Obj[OF g True] obtain m where m: "resolved_axis a ps = Obj m"
      by (auto simp: is_obj_iff)
    from r True obtain c' where c: "modify (Obj m) ''title'' (\<lambda>x. setProp x ''text'' (Str txt0)) = Inr c'"
      and t: "t' = putAxisConfig a (Obj ps) c'"
      unfolding m by (auto dest!: andThen_InrD simp del: putAxisConfig.simps)
    from modify_ObjD[OF c] have "is_obj c'" by auto
    then show ?thesis unfolding t by (rule putAxisConfig_touches)
  qed
qed

lemma Axis_call_touches: "Axis_call a op (Obj ps) = Inr t' \<Longrightarrow> touches (axis_key a) ps t'"
  by (cases op)
     (auto simp only: Axis_call.simps axis_op_eta
        intro: Axis_title_touches
          whenAxis_touches[OF _ yields_obj_setProp] whenAxis_touches[OF _ yields_obj_mergeOrEmpty]
          whenAxis_touches[OF _ yields_obj_labels] whenAxis_touches[OF _ yields_obj_range])

lemma keeps_obj_ensureKey: "keeps_obj (ensureKey k)"
  unfolding keeps_obj_def
proof (intro allI impI)
  fix c c'
  assume "is_obj c \<and> ensureKey k c = Inr c'"
  then have "ensureKey k c = Inr c'" by simp
  from ensureKey_InrD[OF this] show "is_obj c'" by (auto split: if_splits)
qed

lemma onPlotType_touches:
  assumes "onPlotType ty body (Obj ps) = Inr t'"
  shows "touches ''plotOptions'' ps t'"
proof -
  from assms obtain t1 where e: "ensurePlotOptionType ty (Obj ps) = Inr t1"
    and m: "modify t1 ''plotOptions'' (\<lambda>p. modify p ty body) = Inr t'"
    unfolding onPlotType_def by (blast dest: andThen_InrD)
  from e have "andThen (ensureKey ''plotOptions'' (Obj ps)) (\<lambda>t. modify t ''plotOptions'' (ensureKey ty)) = Inr t1"
    by (simp add: ensurePlotOptionType_def ensurePlotOptions_def)
  from touches_setter[OF this keeps_obj_ensureKey] have t1: "touches ''plotOptions'' ps t1" .
  then obtain qs where q: "t1 = Obj qs" unfolding touches_def by blast
  from t1 touches_modify[OF keeps_obj_modify m[unfolded q]] show ?thesis
    unfolding q by (rule touches_trans)
qed

lemma PlotOptions_call_touches:
  "PlotOptions_call op (Obj ps) = Inr t' \<Longrightarrow> touches ''plotOptions'' ps t'"
  by (cases op)
     (auto simp: BarOptions_horizontal_def BarOptions_columnWidth_def
      BarOptions_barHeight_def BarOptions_distributed_def BarOptions_borderRadius_def
      BarOptions_colors_def PieOptions_startAngle_def PieOptions_endAngle_def
      PieOptions_expandOnClick_def PieOptions_donut_def RadialBarOptions_hollow_def
      RadialBarOptions_track_def RadialBarOptions_dataLabels_def
      HeatmapOptions_radius_def HeatmapOptions_enableShades_def HeatmapOptions_shadeIntensity_def
      HeatmapOptions_colorScale_def intro: onPlotType_touches)


lemma frames_setProp: "setProp (Obj ps) k v = Inr t' \<Longrightarrow> frames k ps t'"
  using frames_assign[of k ps v] by (auto split: if_splits)

lemma frames_chain:
  assumes "\<And>f qs t. f \<in> set fs \<Longrightarrow> f (Obj qs) = Inr t \<Longrightarrow> frames k qs t"
    and "chain (Obj ps) fs = Inr t'"
  shows "frames k ps t'"
  using assms
proof (induction fs arbitrary: ps)
  case Nil
  then show ?case using frames_refl[of k ps] by auto
next
  case (Cons f fs)
  from Cons.prems(2) obtain t1 where f: "f (Obj ps) = Inr t1" and c: "chain t1 fs = Inr t'"
    by (auto dest: andThen_InrD)
  have f1: "frames k ps t1" by (rule Cons.prems(1)[of f]) (simp_all add: f)
  then obtain qs where q: "t1 = Obj qs" unfolding frames_def by blast
  have "frames k qs t'"
  proof (rule Cons.IH[OF _ c[unfolded q]])
    fix g qs0 t0
    assume "g \<in> set fs" "g (Obj qs0) = Inr t0"
    then show "frames k qs0 t0" by (intro Cons.prems(1)[of g]) simp_all
  qed
  with f1 show ?case unfolding q by (rule frames_trans)
qed

lemma frames_ensure_then:
  assumes "andThen (ensureKey k (Obj ps)) (\<lambda>t. modify t k f) = Inr t'"
  shows "frames k ps t'"
proof -
  from assms obtain t1 where e: "ensureKey k (Obj ps) = Inr t1" and m: "modify t1 k f = Inr t'"
    by (blast dest: andThen_InrD)
  from touches_ensureKey[OF e, THEN touches_frames] have f1: "frames k ps t1" .
  then obtain qs where q: "t1 = Obj qs" unfolding frames_def by blast
  from f1 frames_modify[OF m[unfolded q]] show ?thesis unfolding q by (rule frames_trans)
qed

lemma frames_ensureChart_then:
  assumes "andThen (ensureChart (Obj ps)) (\<lambda>t. modify t ''chart'' f) = Inr t'"
  shows "frames ''chart'' ps t'"
proof -
  from assms obtain t1 where e: "ensureChart (Obj ps) = Inr t1" and m: "modify t1 ''chart'' f = Inr t'"
    by (blast dest: andThen_InrD)
  from e obtain c where "(if truthy c then Inr (Obj ps)
      else setProp (Obj ps) ''chart'' (Obj [(''type'', Str ''line'')])) = Inr t1"
    unfolding ensureChart_def by (blast dest: andThen_InrD)
  then have f1: "frames ''chart'' ps t1"
    by (auto split: if_splits intro: frames_refl frames_assign)
  then obtain qs where q: "t1 = Obj qs" unfolding frames_def by blast
  from f1 frames_modify[OF m[unfolded q]] show ?thesis unfolding q by (rule frames_trans)
qed

lemma state_filter_frames: "state_filter config k (Obj qs) = Inr t \<Longrightarrow> frames ''states'' qs t"
  unfolding state_filter_def
  by (auto dest!: andThen_InrD split: if_splits intro: frames_refl frames_modify)

lemma mergeOrEmpty_frames: "mergeOrEmpty k config (Obj qs) = Inr t \<Longrightarrow> frames k qs t"
  unfolding mergeOrEmpty_def by (auto dest!: andThen_InrD intro: frames_setProp)

lemma Chart_call_frames: "Chart_call op (Obj ps) = Inr t' \<Longrightarrow> frames (chart_op_key op) ps t'"
proof (cases op)
  case (ChStates config)
  assume "Chart_call op (Obj ps) = Inr t'"
  then have "chain (Obj ps)
       [mergeOrEmpty ''states'' config,
        state_filter config ''normal'',
        state_filter config ''hover'',
        state_filter config ''active''] = Inr t'"
    by (simp add: ChStates Chart_states_def)
  then have "frames ''states'' ps t'"
    by (rule frames_chain[rotated]) (auto intro: mergeOrEmpty_frames state_filter_frames)
  then show ?thesis by (simp add: ChStates)
qed (auto simp: Chart_title_def Chart_subtitle_def Chart_height_def Chart_width_def
      Chart_series_def Chart_colors_def Chart_responsive_def Chart_animations_def
      assignIn_def[abs_def]
      intro: frames_setProp frames_ensure_then frames_ensureChart_then)

lemma chart_op_key_not_component: "chart_op_key op \<notin> set component_keys"
  by (cases op) (simp_all add: component_keys_def)

lemma perform_frames: "perform op (Obj ps) = Inr t' \<Longrightarrow> frames (target op) ps t'"
  by (cases op)
     (auto intro: touches_frames Axis_call_touches Tooltip_call_touches Legend_call_touches
        Grid_call_touches DataLabels_call_touches Markers_call_touches Theme_call_touches
        PlotOptions_call_touches Chart_call_frames)

lemma perform_touches:
  "perform op (Obj ps) = Inr t' \<Longrightarrow> target op \<in> set component_keys \<Longrightarrow> touches (target op) ps t'"
  by (cases op)
     (auto simp: chart_op_key_not_component
        intro: Axis_call_touches Tooltip_call_touches Legend_call_touches
        Grid_call_touches DataLabels_call_touches Markers_call_touches Theme_call_touches
        PlotOptions_call_touches)

lemma run_invariant:
  "run ops (Obj ps) = Inr t' \<Longrightarrow>
   \<exists>qs. t' = Obj qs \<and>
        (\<forall>k. k \<notin> target ` set ops \<longrightarrow> lookup qs k = lookup ps k) \<and>
        (\<forall>k\<in>set component_keys. is_obj (lookup ps k) \<longrightarrow> is_obj (lookup qs k))"
proof (induction ops arbitrary: ps)
  case Nil
  then show ?case by auto
next
  case (Cons op ops)
  from Cons.prems obtain t1 where p: "perform op (Obj ps) = Inr t1" and r: "run ops t1 = Inr t'"
    by (auto dest: andThen_InrD)
  from perform_frames[OF p] obtain ps1 where t1: "t1 = Obj ps1"
    and fr: "\<And>k. k \<noteq> target op \<Longrightarrow> lookup ps1 k = lookup ps k"
    unfolding frames_def by blast
  have keep: "is_obj (lookup ps1 k)" if "k \<in> set component_keys" "is_obj (lookup ps k)" for k
  proof (cases "k = target op")
    case True
    with that(1) have "touches (target op) ps t1" using perform_touches[OF p] by simp
    with that(2) True show ?thesis unfolding touches_def t1 by auto
  next
    case False
    with fr that(2) show ?thesis by simp
  qed
  from Cons.IH[OF r[unfolded t1]] obtain qs where q: "t' = Obj qs"
    and a: "\<And>k. k \<notin> target ` set ops \<Longrightarrow> lookup qs k = lookup ps1 k"
    and b: "\<And>k. k \<in> set component_keys \<Longrightarrow> is_obj (lookup ps1 k) \<Longrightarrow> is_obj (lookup qs k)"
    by blast
  show ?case
    using q a b fr keep by (intro exI[of _ qs]) auto
qed

subsection \<open>Constructors keep what is there\<close>

lemma scaffolds_mono: "set sp \<subseteq> set sp' \<Longrightarrow> scaffolds sp f \<Longrightarrow> scaffolds sp' f"
  unfolding scaffolds_def by blast

lemma changed_ok_trans: "changed_ok u v \<Longrightarrow> changed_ok v w \<Longrightarrow> changed_ok u w"
  unfolding changed_ok_def by (cases v) auto

lemma scaffolds_comp:
  assumes "scaffolds sp f" "scaffolds sp g"
  shows "scaffolds sp (\<lambda>c. andThen (f c) g)"
  unfolding scaffolds_def
proof (intro allI impI)
  fix c c' q
  assume "andThen (f c) g = Inr c'"
  then obtain c1 where f: "f c = Inr c1" and g: "g c1 = Inr c'" by (blast dest: andThen_InrD)
  from assms(1) f have a: "get_at c1 q = get_at c q \<or> (q \<in> set sp \<and> changed_ok (get_at c q) (get_at c1 q))"
    unfolding scaffolds_def by blast
  from assms(2) g have b: "get_at c' q = get_at c1 q \<or> (q \<in> set sp \<and> changed_ok (get_at c1 q) (get_at c' q))"
    unfolding scaffolds_def by blast
  from a b show "get_at c' q = get_at c q \<or> (q \<in> set sp \<and> changed_ok (get_at c q) (get_at c' q))"
    using changed_ok_trans[of "get_at c q" "get_at c1 q" "get_at c' q"] by auto
qed

lemma scaffolds_id: "scaffolds sp Inr"
  unfolding scaffolds_def by simp

lemma scaffolds_chain: "(\<And>f. f \<in> set fs \<Longrightarrow> scaffolds sp f) \<Longrightarrow> scaffolds sp (\<lambda>c. chain c fs)"
proof (induction fs)
  case Nil
  show ?case using scaffolds_id[of sp] by (simp add: scaffolds_def)
next
  case (Cons f fs)
  have "scaffolds sp (\<lambda>c. andThen (f c) (\<lambda>y. chain y fs))"
    by (rule scaffolds_comp) (simp_all add: Cons)
  then show ?case by simp
qed

lemma scaffolds_chain_Nil: "scaffolds sp (\<lambda>c. chain c [])"
  using scaffolds_id[of sp] by (simp add: scaffolds_def)

lemma scaffolds_chain_Cons:
  "scaffolds sp f \<Longrightarrow> scaffolds sp (\<lambda>c. chain c fs) \<Longrightarrow> scaffolds sp (\<lambda>c. chain c (f # fs))"
  using scaffolds_comp[of sp f "\<lambda>y. chain y fs"] by simp

lemma get_at_falsy: "\<not> truthy v \<Longrightarrow> r \<noteq> [] \<Longrightarrow> get_at v r = Undef"
  by (cases v; cases r) auto

lemma get_at_empty: "r \<noteq> [] \<Longrightarrow> get_at (Obj []) r = Undef"
proof (cases r)
  case (Cons s r')
  then show ?thesis by (cases s; cases r') (auto simp: lookup_Nil)
qed simp

lemma get_at_Undef: "get_at Undef r = Undef"
  by (cases r) auto

lemma scaffolds_assign:
  assumes "\<And>r. get_at v' r = get_at (lookup m k) r \<or>
             (r \<in> set sp \<and> changed_ok (get_at (lookup m k) r) (get_at v' r))"
  shows "get_at (Obj (assign m k v')) q = get_at (Obj m) q \<or>
         (q \<in> set ([] # map ((#) (Key k)) sp) \<and>
          changed_ok (get_at (Obj m) q) (get_at (Obj (assign m k v')) q))"
proof (cases q)
  case Nil
  then show ?thesis by (simp add: changed_ok_def)
next
  case (Cons s r)
  show ?thesis
  proof (cases s)
    case (Key k')
    show ?thesis
    proof (cases "k' = k")
      case True
      with assms[of r] show ?thesis by (auto simp: Cons Key lookup_assign)
    next
      case False
      then show ?thesis by (simp add: Cons Key lookup_assign)
    qed
  next
    case (Idx i)
    then show ?thesis by (simp add: Cons)
  qed
qed

lemma orEmpty_step:
  "get_at (orEmpty v) r = get_at v r \<or> (r \<in> set [[]] \<and> changed_ok (get_at v r) (get_at (orEmpty v) r))"
proof (cases "truthy v")
  case True
  then show ?thesis by (simp add: orEmpty_def)
next
  case False
  then show ?thesis
    by (cases r) (simp_all add: orEmpty_def changed_ok_def get_at_falsy get_at_empty)
qed

lemma scaffolds_orInit: "scaffolds [[], [Key k]] (orInit k)"
  unfolding scaffolds_def
proof (intro allI impI)
  fix c c' q
  assume "orInit k c = Inr c'"
  from orInit_InrD[OF this] obtain m where c: "c = Obj m"
    and c': "c' = Obj (assign m k (orEmpty (lookup m k)))" by blast
  from scaffolds_assign[of "orEmpty (lookup m k)" m k "[[]]" q, OF orEmpty_step]
  show "get_at c' q = get_at c q \<or> (q \<in> set [[], [Key k]] \<and> changed_ok (get_at c q) (get_at c' q))"
    unfolding c c' by simp
qed

lemma scaffolds_ensureKey: "scaffolds [[], [Key k]] (ensureKey k)"
  unfolding scaffolds_def
proof (intro allI impI)
  fix c c' q
  assume "ensureKey k c = Inr c'"
  from ensureKey_InrD[OF this] obtain m where c: "c = Obj m"
    and r: "if truthy (lookup m k) then c' = c else c' = Obj (assign m k (Obj []))" by blast
  show "get_at c' q = get_at c q \<or> (q \<in> set [[], [Key k]] \<and> changed_ok (get_at c q) (get_at c' q))"
  proof (cases "truthy (lookup m k)")
    case True
    with r show ?thesis by simp
  next
    case False
    with r have c': "c' = Obj (assign m k (orEmpty (lookup m k)))" by (simp add: orEmpty_def)
    from scaffolds_assign[of "orEmpty (lookup m k)" m k "[[]]" q, OF orEmpty_step]
    show ?thesis unfolding c c' by simp
  qed
qed

lemma modify_InrD:
  "modify v k f = Inr t' \<Longrightarrow> \<exists>c c'. getProp v k = Inr c \<and> f c = Inr c' \<and> t' = putBack v k c'"
  unfolding modify_def by (blast dest: andThen_InrD)

lemma scaffolds_modify:
  assumes "scaffolds sp f"
  shows "scaffolds ([] # map ((#) (Key k)) sp) (\<lambda>c. modify c k f)"
  unfolding scaffolds_def
proof (intro allI impI)
  fix c c' q
  assume a: "modify c k f = Inr c'"
  show "get_at c' q = get_at c q \<or>
        (q \<in> set ([] # map ((#) (Key k)) sp) \<and> changed_ok (get_at c q) (get_at c' q))"
  proof (cases c)
    case (Obj m)
    from modify_ObjD[OF a[unfolded Obj]] obtain x' where f: "f (lookup m k) = Inr x'"
      and c': "c' = Obj (assign m k x')" by blast
    have "get_at x' r = get_at (lookup m k) r \<or>
          (r \<in> set sp \<and> changed_ok (get_at (lookup m k) r) (get_at x' r))" for r
      using assms f unfolding scaffolds_def by blast
    from scaffolds_assign[of x' m k sp q, OF this] show ?thesis unfolding Obj c' .
  qed (use modify_InrD[OF a] in auto)
qed


lemma scaffolds_component:
  assumes "scaffolds sp f" "[] \<in> set sp"
  shows "scaffolds ([] # map ((#) (Key k)) sp) (\<lambda>t. andThen (ensureKey k t) (\<lambda>t. modify t k f))"
proof (rule scaffolds_comp)
  show "scaffolds ([] # map ((#) (Key k)) sp) (ensureKey k)"
    by (rule scaffolds_mono[OF _ scaffolds_ensureKey]) (use assms(2) in auto)
  show "scaffolds ([] # map ((#) (Key k)) sp) (\<lambda>t. modify t k f)"
    by (rule scaffolds_modify[OF assms(1)])
qed

lemma scaffolds_Tooltip: "scaffolds (spine TooltipC) Tooltip_constructor"
proof -
  have "scaffolds [[], [Key ''style''], [Key ''x''], [Key ''y'']]
          (\<lambda>c. chain c [orInit ''style'', orInit ''x'', orInit ''y''])"
    by (rule scaffolds_chain) (auto intro: scaffolds_mono[OF _ scaffolds_orInit])
  from scaffolds_component[OF this, of "''tooltip''"] show ?thesis
    by (simp add: Tooltip_constructor_def[abs_def])
qed

lemma scaffolds_Legend: "scaffolds (spine LegendC) Legend_constructor"
proof -
  have "scaffolds [[], [Key ''labels''], [Key ''markers''], [Key ''itemMargin'']]
          (\<lambda>c. chain c [orInit ''labels'', orInit ''markers'', orInit ''itemMargin''])"
    by (rule scaffolds_chain) (auto intro: scaffolds_mono[OF _ scaffolds_orInit])
  from scaffolds_component[OF this, of "''legend''"] show ?thesis
    by (simp add: Legend_constructor_def[abs_def])
qed

lemma scaffolds_DataLabels: "scaffolds (spine DataLabelsC) DataLabels_constructor"
proof -
  have "scaffolds [[], [Key ''style''], [Key ''background'']]
          (\<lambda>c. chain c [orInit ''style'', orInit ''background''])"
    by (rule scaffolds_chain) (auto intro: scaffolds_mono[OF _ scaffolds_orInit])
  from scaffolds_component[OF this, of "''dataLabels''"] show ?thesis
    by (simp add: DataLabels_constructor_def[abs_def])
qed

lemma scaffolds_Markers: "scaffolds (spine MarkersC) Markers_constructor"
  using scaffolds_component[OF scaffolds_orInit, of "''hover''" "''markers''"]
  by (simp add: Markers_constructor_def[abs_def])

lemma scaffolds_Theme: "scaffolds (spine ThemeC) Theme_constructor"
  using scaffolds_component[OF scaffolds_orInit, of "''monochrome''" "''theme''"]
  by (simp add: Theme_constructor_def[abs_def])

lemma scaffolds_Grid: "scaffolds (spine GridC) Grid_constructor"
proof -
  let ?sp = "[[], [Key ''xaxis''], [Key ''xaxis'', Key ''lines''], [Key ''yaxis''],
              [Key ''yaxis'', Key ''lines''], [Key ''padding'']]"
  have l: "scaffolds ?sp (\<lambda>g. modify g ax (orInit ''lines''))" if "ax = ''xaxis'' \<or> ax = ''yaxis''" for ax
    by (rule scaffolds_mono[OF _ scaffolds_modify[OF scaffolds_orInit]]) (use that in auto)
  have "scaffolds ?sp
          (\<lambda>g. chain g
           [orInit ''xaxis'',
            (\<lambda>g. modify g ''xaxis'' (orInit ''lines'')),
            orInit ''yaxis'',
            (\<lambda>g. modify g ''yaxis'' (orInit ''lines'')),
            orInit ''padding''])"
    by (rule scaffolds_chain) (auto intro: scaffolds_mono[OF _ scaffolds_orInit] l)
  from scaffolds_component[OF this, of "''grid''"] show ?thesis
    by (simp add: Grid_constructor_def[abs_def])
qed

lemma scaffolds_Axis_scaffold: "scaffolds axis_spine Axis_scaffold"
proof -
  have l: "scaffolds axis_spine (\<lambda>c. modify c ''labels'' (orInit ''style''))"
    by (rule scaffolds_mono[OF _ scaffolds_modify[OF scaffolds_orInit]])
       (auto simp: axis_spine_def)
  have o: "scaffolds axis_spine (orInit ''title'')" "scaffolds axis_spine (orInit ''labels'')"
    "scaffolds axis_spine (orInit ''axisBorder'')" "scaffolds axis_spine (orInit ''axisTicks'')"
    "scaffolds axis_spine (orInit ''crosshairs'')"
    by (rule scaffolds_mono[OF _ scaffolds_orInit], simp add: axis_spine_def)+
  have "scaffolds axis_spine
          (\<lambda>c. chain c
       [orInit ''title'',
        orInit ''labels'',
        (\<lambda>c. modify c ''labels'' (orInit ''style'')),
        orInit ''axisBorder'',
        orInit ''axisTicks'',
        orInit ''crosshairs''])"
    by (intro scaffolds_chain_Cons scaffolds_chain_Nil l o)
  then show ?thesis by (simp add: Axis_scaffold_def[abs_def])
qed


lemma getAxisConfig_not_obj:
  "getAxisConfig a t = Inr c \<Longrightarrow> \<not> is_obj t \<Longrightarrow> c = Undef"
  by (cases a; cases t) (auto simp: plain_keys_def split: if_splits)

lemma first_element_step:
  assumes "\<And>r. get_at c' r = get_at x r \<or> (r \<in> set sp \<and> changed_ok (get_at x r) (get_at c' r))"
  shows "get_at (Arr (c' # rest)) r = get_at (Arr (x # rest)) r \<or>
         (r \<in> set ([] # map ((#) (Idx 0)) sp) \<and>
          changed_ok (get_at (Arr (x # rest)) r) (get_at (Arr (c' # rest)) r))"
proof (cases r)
  case Nil
  then show ?thesis by (simp add: changed_ok_def)
next
  case (Cons s r')
  show ?thesis
  proof (cases s)
    case (Key k)
    then show ?thesis by (simp add: Cons)
  next
    case (Idx i)
    show ?thesis
    proof (cases i)
      case 0
      with assms[of r'] show ?thesis by (auto simp: Cons Idx)
    next
      case (Suc j)
      then show ?thesis by (simp add: Cons Idx)
    qed
  qed
qed

lemma scaffolds_whenAxis:
  assumes "scaffolds sp body" "[] \<in> set sp"
  shows "scaffolds ([] # map ((#) (Key (axis_key a))) sp @
                   (case a of YAxis \<Rightarrow> map (\<lambda>p. Key ''yaxis'' # Idx 0 # p) sp | XAxis \<Rightarrow> []))
           (whenAxis a body)"
  unfolding scaffolds_def
proof (intro allI impI)
  fix t t' q
  let ?sp = "[] # map ((#) (Key (axis_key a))) sp @
             (case a of YAxis \<Rightarrow> map (\<lambda>p. Key ''yaxis'' # Idx 0 # p) sp | XAxis \<Rightarrow> [])"
  assume w: "whenAxis a body t = Inr t'"
  then obtain c where g: "getAxisConfig a t = Inr c"
    and r: "(if truthy c then andThen (body c) (\<lambda>c'. Inr (putAxisConfig a t c')) else Inr t) = Inr t'"
    unfolding whenAxis_def by (blast dest: andThen_InrD)
  show "get_at t' q = get_at t q \<or> (q \<in> set ?sp \<and> changed_ok (get_at t q) (get_at t' q))"
  proof (cases "truthy c")
    case False
    with r have "t' = t" by simp
    then show ?thesis by simp
  next
    case True
    have "is_obj t"
    proof (rule ccontr)
      assume "\<not> is_obj t"
      from getAxisConfig_not_obj[OF g this] True show False by simp
    qed
    then obtain ps where t: "t = Obj ps" by (auto simp: is_obj_iff)
    from g have c: "c = resolved_axis a ps" by (simp add: t getAxisConfig_resolved del: getAxisConfig.simps)
    from r True obtain c' where b: "body c = Inr c'" and t': "t' = putAxisConfig a t c'"
      by (auto dest: andThen_InrD)
    have step: "get_at c' r = get_at c r \<or> (r \<in> set sp \<and> changed_ok (get_at c r) (get_at c' r))" for r
      using assms(1) b unfolding scaffolds_def by blast
    have plain: ?thesis if l: "lookup ps (axis_key a) = c" and p: "t' = Obj (assign ps (axis_key a) c')"
    proof -
      from scaffolds_assign[of c' ps "axis_key a" sp q] step l
      have "get_at (Obj (assign ps (axis_key a) c')) q = get_at (Obj ps) q \<or>
            (q \<in> set ([] # map ((#) (Key (axis_key a))) sp) \<and>
             changed_ok (get_at (Obj ps) q) (get_at (Obj (assign ps (axis_key a) c')) q))"
        by simp
      then show ?thesis unfolding t p by auto
    qed
    show ?thesis
    proof (cases a)
      case XAxis
      show ?thesis by (rule plain) (use XAxis c t' t in simp_all)
    next
      case YAxis
      show ?thesis
      proof (cases "lookup ps ''yaxis''")
        case (Arr xs)
        show ?thesis
        proof (cases xs)
          case Nil
          with Arr YAxis c True show ?thesis by simp
        next
          case (Cons x rest)
          with Arr YAxis c have cx: "c = x" by simp
          from Cons Arr YAxis t' t have p: "t' = Obj (assign ps ''yaxis'' (Arr (c' # rest)))" by simp
          have "get_at (Arr (c' # rest)) r = get_at (lookup ps ''yaxis'') r \<or>
                (r \<in> set ([] # map ((#) (Idx 0)) sp) \<and>
                 changed_ok (get_at (lookup ps ''yaxis'') r) (get_at (Arr (c' # rest)) r))" for r
            using first_element_step[of c' x sp rest r] step cx unfolding Arr Cons by blast
          from scaffolds_assign[of "Arr (c' # rest)" ps "''yaxis''" "[] # map ((#) (Idx 0)) sp" q, OF this]
          have "get_at t' q = get_at t q \<or>
            (q \<in> set ([] # map ((#) (Key ''yaxis'')) ([] # map ((#) (Idx 0)) sp)) \<and>
             changed_ok (get_at t q) (get_at t' q))"
            unfolding t p .
          moreover have "set ([] # map ((#) (Key ''yaxis'')) ([] # map ((#) (Idx 0)) sp)) \<subseteq> set ?sp"
            using assms(2) YAxis by auto
          ultimately show ?thesis by blast
        qed
      qed (rule plain; use YAxis c t' t in simp)+
    qed
  qed
qed


lemma Axis_ensure_slot_falsy:
  "getProp t (axis_key a) = Inr y \<Longrightarrow> \<not> truthy y \<Longrightarrow>
   Axis_ensure_slot a t = ensureKey (axis_key a) t"
  by (cases a) (simp_all add: ensureKey_def del: getProp.simps setProp.simps)

lemma first_pushed:
  "get_at (Arr [Obj []]) r = get_at (Arr []) r \<or>
   (r \<in> set [[], [Idx 0]] \<and> changed_ok (get_at (Arr []) r) (get_at (Arr [Obj []]) r))"
proof (cases r)
  case Nil
  then show ?thesis by (simp add: changed_ok_def)
next
  case (Cons s r')
  show ?thesis
  proof (cases s)
    case (Key k)
    then show ?thesis by (simp add: Cons)
  next
    case (Idx i)
    show ?thesis
    proof (cases "i = 0")
      case True
      show ?thesis
      proof (cases "r' = []")
        case True
        with \<open>i = 0\<close> show ?thesis by (simp add: Cons Idx changed_ok_def)
      next
        case False
        with \<open>i = 0\<close> show ?thesis by (simp add: Cons Idx get_at_empty)
      qed
    next
      case False
      then show ?thesis by (simp add: Cons Idx)
    qed
  qed
qed

lemma scaffolds_ensure_slot:
  "scaffolds ([] # [Key (axis_key a)] # (case a of YAxis \<Rightarrow> [[Key ''yaxis'', Idx 0]] | XAxis \<Rightarrow> []))
     (Axis_ensure_slot a)"
  unfolding scaffolds_def
proof (intro allI impI)
  fix t t' q
  let ?sp = "[] # [Key (axis_key a)] # (case a of YAxis \<Rightarrow> [[Key ''yaxis'', Idx 0]] | XAxis \<Rightarrow> [])"
  assume e: "Axis_ensure_slot a t = Inr t'"
  then obtain y where g: "getProp t (axis_key a) = Inr y"
    by (cases a) (auto dest: andThen_InrD simp del: getProp.simps setProp.simps)
  have keep: "get_at t' q = get_at t q \<or> (q \<in> set ?sp \<and> changed_ok (get_at t q) (get_at t' q))"
    if "ensureKey (axis_key a) t = Inr t'"
  proof -
    have "scaffolds ?sp (ensureKey (axis_key a))"
      by (rule scaffolds_mono[OF _ scaffolds_ensureKey]) auto
    with that show ?thesis unfolding scaffolds_def by blast
  qed
  show "get_at t' q = get_at t q \<or> (q \<in> set ?sp \<and> changed_ok (get_at t q) (get_at t' q))"
  proof (cases "truthy y")
    case False
    from e show ?thesis unfolding Axis_ensure_slot_falsy[OF g False] by (rule keep)
  next
    case True
    show ?thesis
    proof (cases "a = YAxis \<and> y = Arr []")
      case False
      with e g True have "t' = t"
        by (cases a; cases y) (auto simp del: getProp.simps setProp.simps split: list.splits)
      then show ?thesis by simp
    next
      case True
      then have a: "a = YAxis" and y: "y = Arr []" by simp_all
      from g y obtain ps where t: "t = Obj ps"
        by (cases t) (auto split: if_splits)
      with g y have l: "lookup ps ''yaxis'' = Arr []"
        using getProp_ObjD[of ps "''yaxis''" y] by (simp add: a del: getProp.simps)
      from e g have t': "t' = Obj (assign ps ''yaxis'' (Arr [Obj []]))"
        by (simp add: a y t del: getProp.simps)
      have "get_at (Arr [Obj []]) r = get_at (lookup ps ''yaxis'') r \<or>
            (r \<in> set [[], [Idx 0]] \<and> changed_ok (get_at (lookup ps ''yaxis'') r) (get_at (Arr [Obj []]) r))" for r
        unfolding l by (rule first_pushed)
      from scaffolds_assign[of "Arr [Obj []]" ps "''yaxis''" "[[], [Idx 0]]" q, OF this]
      show ?thesis unfolding t t' a by simp
    qed
  qed
qed

lemma scaffolds_Axis: "scaffolds (spine (AxisC a)) (Axis_constructor a)"
  unfolding Axis_constructor_def[abs_def]
proof (rule scaffolds_comp)
  have n: "[] \<in> set axis_spine" by (simp add: axis_spine_def)
  show "scaffolds (spine (AxisC a)) (Axis_ensure_slot a)"
    by (rule scaffolds_mono[OF _ scaffolds_ensure_slot]) (cases a; simp add: axis_spine_def)
  show "scaffolds (spine (AxisC a)) (whenAxis a Axis_scaffold)"
    by (rule scaffolds_mono[OF _ scaffolds_whenAxis[OF scaffolds_Axis_scaffold n]])
       (cases a; auto simp: axis_spine_def)
qed


lemma scaffolds_construct: "scaffolds (spine C) (construct C)"
proof (cases C)
  case (AxisC a)
  then show ?thesis by (simp add: scaffolds_Axis del: spine.simps)
qed (simp_all add: scaffolds_Tooltip scaffolds_Legend scaffolds_Grid scaffolds_DataLabels
      scaffolds_Markers scaffolds_Theme del: spine.simps)


subsection \<open>Constructing a second time\<close>

lemma settles_idem: "settles sp f \<Longrightarrow> f c = Inr c' \<Longrightarrow> f c' = Inr c'"
  unfolding settles_def by blast

lemma scaffolds_truthy:
  assumes "scaffolds sp f" "f c = Inr c'" "truthy (get_at c q)"
  shows "truthy (get_at c' q)"
proof -
  from assms(1,2) have "get_at c' q = get_at c q \<or> changed_ok (get_at c q) (get_at c' q)"
    unfolding scaffolds_def by blast
  with assms(3) show ?thesis
    unfolding changed_ok_def by (cases "get_at c' q") auto
qed

lemma settles_comp:
  assumes f: "settles sp1 f" and g: "settles sp2 g" and s: "scaffolds sp g"
  shows "settles (sp1 @ sp2) (\<lambda>c. andThen (f c) g)"
  unfolding settles_def
proof (intro conjI allI impI ballI)
  fix c c' q
  assume r: "andThen (f c) g = Inr c'" and q: "q \<in> set (sp1 @ sp2)"
  from r obtain c1 where 1: "f c = Inr c1" and 2: "g c1 = Inr c'" by (blast dest: andThen_InrD)
  show "truthy (get_at c' q)"
  proof (cases "q \<in> set sp1")
    case True
    with f 1 have "truthy (get_at c1 q)" unfolding settles_def by blast
    from scaffolds_truthy[OF s 2 this] show ?thesis .
  next
    case False
    with q have "q \<in> set sp2" by simp
    with g 2 show ?thesis unfolding settles_def by blast
  qed
next
  fix c
  assume a: "\<forall>q\<in>set (sp1 @ sp2). truthy (get_at c q)"
  then have "\<forall>q\<in>set sp1. truthy (get_at c q)" "\<forall>q\<in>set sp2. truthy (get_at c q)" by simp_all
  with f g have "f c = Inr c" "g c = Inr c" unfolding settles_def by blast+
  then show "andThen (f c) g = Inr c" by simp
qed

lemma settles_chain_Nil: "settles [] (\<lambda>c. chain c [])"
  unfolding settles_def by simp

lemma settles_chain_Cons:
  assumes "settles sp1 f" "settles sp2 (\<lambda>c. chain c fs)" "scaffolds sp (\<lambda>c. chain c fs)"
  shows "settles (sp1 @ sp2) (\<lambda>c. chain c (f # fs))"
  using settles_comp[OF assms] by simp

lemma get_at_Key_truthy: "truthy (get_at c (Key k # r)) \<Longrightarrow> \<exists>m. c = Obj m"
  by (cases c) auto

lemma truthy_SomeD: "truthy (lookup m k) \<Longrightarrow> map_of m k = Some (lookup m k)"
  by (auto simp: lookup_def split: option.splits)

lemma truthy_orEmpty: "truthy (orEmpty v)"
  by (simp add: orEmpty_def)

lemma settles_orInit:
  assumes "k \<noteq> ''__proto__''"
  shows "settles [[], [Key k]] (orInit k)"
  unfolding settles_def
proof (intro conjI allI impI ballI)
  fix c c' q
  assume "orInit k c = Inr c'" and q: "q \<in> set [[], [Key k]]"
  from orInit_InrD[OF this(1)] obtain m where "c' = Obj (assign m k (orEmpty (lookup m k)))"
    by blast
  with q show "truthy (get_at c' q)" by (auto simp: lookup_assign truthy_orEmpty)
next
  fix c
  assume "\<forall>q\<in>set [[], [Key k]]. truthy (get_at c q)"
  then have t: "truthy (get_at c [Key k])" by simp
  from get_at_Key_truthy[OF this] obtain m where c: "c = Obj m" by blast
  with t have l: "truthy (lookup m k)" by simp
  from truthy_SomeD[OF l] have s: "map_of m k = Some (lookup m k)" .
  then have "getProp (Obj m) k = Inr (lookup m k)" by simp
  with l assms show "orInit k c = Inr c"
    unfolding c orInit_def by (simp add: orEmpty_def assign_same[OF s] del: getProp.simps)
qed

lemma settles_ensureKey: "settles [[], [Key k]] (ensureKey k)"
  unfolding settles_def
proof (intro conjI allI impI ballI)
  fix c c' q
  assume "ensureKey k c = Inr c'" and q: "q \<in> set [[], [Key k]]"
  from ensureKey_InrD[OF this(1)] obtain m where c: "c = Obj m"
    and r: "if truthy (lookup m k) then c' = c else c' = Obj (assign m k (Obj []))" by blast
  with q show "truthy (get_at c' q)" by (cases "truthy (lookup m k)") (auto simp: lookup_assign)
next
  fix c
  assume "\<forall>q\<in>set [[], [Key k]]. truthy (get_at c q)"
  then have t: "truthy (get_at c [Key k])" by simp
  from get_at_Key_truthy[OF this] obtain m where c: "c = Obj m" by blast
  with t have l: "truthy (lookup m k)" by simp
  from truthy_SomeD[OF l] have "getProp (Obj m) k = Inr (lookup m k)" by simp
  with l show "ensureKey k c = Inr c"
    unfolding c ensureKey_def by (simp del: getProp.simps)
qed

lemma settles_modify:
  assumes f: "settles sp f" and n: "[] \<in> set sp" and o: "\<And>x x'. f x = Inr x' \<Longrightarrow> is_obj x"
  shows "settles (map ((#) (Key k)) sp) (\<lambda>c. modify c k f)"
  unfolding settles_def
proof (intro conjI allI impI ballI)
  fix c c' q
  assume m: "modify c k f = Inr c'" and q: "q \<in> set (map ((#) (Key k)) sp)"
  from q obtain r where r: "r \<in> set sp" "q = Key k # r" by auto
  from modify_InrD[OF m] obtain x x' where g: "getProp c k = Inr x" and x': "f x = Inr x'"
    and c': "c' = putBack c k x'" by blast
  from f x' r have t: "truthy (get_at x' r)" unfolding settles_def by blast
  from o[OF x'] g obtain ps where "c = Obj ps"
    by (cases c) (auto split: if_splits)
  with c' t r show "truthy (get_at c' q)" by (simp add: lookup_assign)
next
  fix c
  assume a: "\<forall>q\<in>set (map ((#) (Key k)) sp). truthy (get_at c q)"
  with n have t: "truthy (get_at c [Key k])" by auto
  from get_at_Key_truthy[OF this] obtain m where c: "c = Obj m" by blast
  with t have l: "truthy (lookup m k)" by simp
  from truthy_SomeD[OF l] have s: "map_of m k = Some (lookup m k)" .
  then have g: "getProp (Obj m) k = Inr (lookup m k)" by simp
  from a c have "\<forall>q\<in>set sp. truthy (get_at (lookup m k) q)" by simp
  with f have "f (lookup m k) = Inr (lookup m k)" unfolding settles_def by blast
  with g show "modify c k f = Inr c"
    unfolding c modify_def by (simp add: assign_same[OF s] del: getProp.simps)
qed


lemma settles_mono_Nil:
  assumes "settles sp f" "\<And>c c'. f c = Inr c' \<Longrightarrow> truthy c'"
  shows "settles ([] # sp) f"
  using assms unfolding settles_def by auto

lemma fixingI:
  "settles sp f \<Longrightarrow> [] \<in> set sp \<Longrightarrow> scaffolds sp' f \<Longrightarrow> (\<And>x x'. f x = Inr x' \<Longrightarrow> is_obj x) \<Longrightarrow>
   fixing f"
  unfolding fixing_def by blast

lemma fixing_idem: "fixing f \<Longrightarrow> f c = Inr c' \<Longrightarrow> f c' = Inr c'"
  unfolding fixing_def by (blast dest: settles_idem)

lemma fixing_truthy: "fixing f \<Longrightarrow> f c = Inr c' \<Longrightarrow> truthy c'"
  unfolding fixing_def settles_def by fastforce

lemma fixing_obj: "fixing f \<Longrightarrow> f c = Inr c' \<Longrightarrow> is_obj c"
  unfolding fixing_def by blast

lemma fixing_orInit: "k \<noteq> ''__proto__'' \<Longrightarrow> fixing (orInit k)"
  by (rule fixingI[OF settles_orInit _ scaffolds_orInit]) (auto dest: orInit_InrD)

lemma fixing_ensureKey: "fixing (ensureKey k)"
  by (rule fixingI[OF settles_ensureKey _ scaffolds_ensureKey]) (auto dest: ensureKey_InrD)

lemma fixing_modify:
  assumes "fixing f"
  shows "fixing (\<lambda>c. modify c k f)"
proof -
  from assms obtain sp sp' where s: "settles sp f" "[] \<in> set sp" and c: "scaffolds sp' f"
    and o: "\<And>x x'. f x = Inr x' \<Longrightarrow> is_obj x"
    unfolding fixing_def by blast
  have obj: "is_obj c" if "modify c k f = Inr c'" for c c'
  proof -
    from modify_InrD[OF that] obtain x x' where g: "getProp c k = Inr x" and x': "f x = Inr x'"
      by blast
    from o[OF x'] g show ?thesis by (cases c) (auto split: if_splits)
  qed
  have tr: "truthy c'" if "modify c k f = Inr c'" for c c'
  proof -
    from obj[OF that] obtain ps where c: "c = Obj ps" by (auto simp: is_obj_iff)
    from modify_ObjD[OF that[unfolded c]] show ?thesis by auto
  qed
  show ?thesis
    by (rule fixingI[OF settles_mono_Nil[OF settles_modify[OF s o] tr] _ scaffolds_modify[OF c] obj])
       simp_all
qed

lemma fixing_comp:
  assumes "fixing f" "fixing g"
  shows "fixing (\<lambda>c. andThen (f c) g)"
proof -
  from assms(1) obtain sp1 sp1' where f: "settles sp1 f" "[] \<in> set sp1" "scaffolds sp1' f"
    and o: "\<And>x x'. f x = Inr x' \<Longrightarrow> is_obj x"
    unfolding fixing_def by blast
  from assms(2) obtain sp2 sp2' where g: "settles sp2 g" "scaffolds sp2' g"
    unfolding fixing_def by blast
  have "scaffolds (sp1' @ sp2') f" "scaffolds (sp1' @ sp2') g"
    by (rule scaffolds_mono[OF _ f(3)], simp, rule scaffolds_mono[OF _ g(2)], simp)
  from scaffolds_comp[OF this] have c: "scaffolds (sp1' @ sp2') (\<lambda>c. andThen (f c) g)" .
  show ?thesis
  proof (rule fixingI[OF settles_comp[OF f(1) g(1) g(2)] _ c])
    show "[] \<in> set (sp1 @ sp2)" using f(2) by simp
    show "is_obj x" if "andThen (f x) g = Inr x'" for x x'
      using that o by (blast dest: andThen_InrD)
  qed
qed

lemma andThen_Inr: "andThen m Inr = m"
  by (cases m) simp_all

lemma fixing_chain:
  assumes "fs \<noteq> []" "\<And>f. f \<in> set fs \<Longrightarrow> fixing f"
  shows "fixing (\<lambda>c. chain c fs)"
  using assms
proof (induction fs rule: list_nonempty_induct)
  case (single f)
  then show ?case by (simp add: andThen_Inr)
next
  case (cons f fs)
  have "fixing (\<lambda>c. andThen (f c) (\<lambda>y. chain y fs))"
    by (rule fixing_comp) (simp_all add: cons)
  then show ?case by simp
qed

lemma fixing_component: "fixing f \<Longrightarrow> fixing (\<lambda>t. andThen (ensureKey k t) (\<lambda>t. modify t k f))"
  by (intro fixing_comp fixing_ensureKey fixing_modify)

lemma fixing_Tooltip: "fixing Tooltip_constructor"
  unfolding Tooltip_constructor_def[abs_def]
  by (rule fixing_component, rule fixing_chain) (auto intro: fixing_orInit)

lemma fixing_Legend: "fixing Legend_constructor"
  unfolding Legend_constructor_def[abs_def]
  by (rule fixing_component, rule fixing_chain) (auto intro: fixing_orInit)

lemma fixing_DataLabels: "fixing DataLabels_constructor"
  unfolding DataLabels_constructor_def[abs_def]
  by (rule fixing_component, rule fixing_chain) (auto intro: fixing_orInit)

lemma fixing_Markers: "fixing Markers_constructor"
  unfolding Markers_constructor_def[abs_def]
  by (rule fixing_component, rule fixing_orInit) simp

lemma fixing_Theme: "fixing Theme_constructor"
  unfolding Theme_constructor_def[abs_def]
  by (rule fixing_component, rule fixing_orInit) simp

lemma fixing_Grid: "fixing Grid_constructor"
  unfolding Grid_constructor_def[abs_def]
  by (rule fixing_component, rule fixing_chain) (auto intro: fixing_orInit fixing_modify)

lemma fixing_Axis_scaffold: "fixing Axis_scaffold"
  unfolding Axis_scaffold_def[abs_def]
  by (rule fixing_chain) (auto intro: fixing_orInit fixing_modify)


lemma fixing_result_obj:
  assumes "fixing f" "f c = Inr c'"
  shows "is_obj c'"
proof -
  from assms obtain sp where "scaffolds sp f" and o: "is_obj c"
    unfolding fixing_def by blast
  with assms(2) have "get_at c' [] = get_at c [] \<or> changed_ok (get_at c []) (get_at c' [])"
    unfolding scaffolds_def by blast
  with o show ?thesis unfolding changed_ok_def by (cases c) auto
qed

lemma whenAxis_Obj:
  "whenAxis a body (Obj ps) =
     (if truthy (resolved_axis a ps)
      then andThen (body (resolved_axis a ps)) (\<lambda>c'. Inr (putAxisConfig a (Obj ps) c'))
      else Inr (Obj ps))"
  by (simp add: whenAxis_def getAxisConfig_resolved del: getAxisConfig.simps)

lemma putAxisConfig_Obj:
  "truthy (resolved_axis a ps) \<Longrightarrow>
   putAxisConfig a (Obj ps) c =
     Obj (assign ps (axis_key a)
            (case a of
               XAxis \<Rightarrow> c
             | YAxis \<Rightarrow> (case lookup ps ''yaxis'' of Arr (x # rest) \<Rightarrow> Arr (c # rest) | y \<Rightarrow> c)))"
  by (cases a; cases "lookup ps ''yaxis''") (auto split: list.splits)

lemma Axis_ensure_slot_ready:
  assumes "Axis_ensure_slot a t = Inr t1"
  shows "\<exists>ps. t1 = Obj ps \<and> truthy (lookup ps (axis_key a)) \<and>
              (a = YAxis \<longrightarrow> lookup ps ''yaxis'' \<noteq> Arr [])"
proof -
  from assms obtain y where g: "getProp t (axis_key a) = Inr y"
    by (cases a) (auto dest: andThen_InrD simp del: getProp.simps setProp.simps)
  show ?thesis
  proof (cases "truthy y")
    case False
    from assms have "ensureKey (axis_key a) t = Inr t1"
      unfolding Axis_ensure_slot_falsy[OF g False] .
    from ensureKey_InrD[OF this] obtain ps where t: "t = Obj ps"
      and r: "if truthy (lookup ps (axis_key a)) then t1 = t else t1 = Obj (assign ps (axis_key a) (Obj []))"
      by blast
    from g t have "y = lookup ps (axis_key a)" by (simp only: getProp_ObjD)
    with False r have "t1 = Obj (assign ps (axis_key a) (Obj []))" by simp
    then show ?thesis by (simp add: lookup_assign)
  next
    case True
    with g obtain ps where t: "t = Obj ps" by (cases t) (auto split: if_splits)
    with g have y: "y = lookup ps (axis_key a)" by (simp only: getProp_ObjD)
    show ?thesis
    proof (cases "a = YAxis \<and> y = Arr []")
      case False
      with assms g True have "t1 = t"
        by (cases a; cases y) (auto simp del: getProp.simps setProp.simps split: list.splits)
      with t y True False show ?thesis by auto
    next
      case True
      with assms g t have "t1 = Obj (assign ps ''yaxis'' (Arr [Obj []]))"
        by (simp del: getProp.simps)
      with True show ?thesis by (simp add: lookup_assign)
    qed
  qed
qed

lemma Axis_ensure_slot_fixed:
  assumes "truthy (lookup ps (axis_key a))" "a = YAxis \<longrightarrow> lookup ps ''yaxis'' \<noteq> Arr []"
  shows "Axis_ensure_slot a (Obj ps) = Inr (Obj ps)"
  using assms
  by (cases a; cases "lookup ps ''yaxis''")
     (auto simp: getProp_Obj_plain not_inh split: list.splits simp del: getProp.simps)

lemma whenAxis_idem:
  assumes f: "fixing body" and r: "truthy (lookup ps (axis_key a))"
    and n: "a = YAxis \<longrightarrow> lookup ps ''yaxis'' \<noteq> Arr []"
    and w: "whenAxis a body (Obj ps) = Inr t'"
  shows "\<exists>ps'. t' = Obj ps' \<and> truthy (lookup ps' (axis_key a)) \<and>
               (a = YAxis \<longrightarrow> lookup ps' ''yaxis'' \<noteq> Arr []) \<and>
               whenAxis a body (Obj ps') = Inr (Obj ps')"
proof (cases "truthy (resolved_axis a ps)")
  case False
  with w have "t' = Obj ps" by (simp add: whenAxis_Obj)
  with False r n show ?thesis by (simp add: whenAxis_Obj)
next
  case True
  let ?c = "resolved_axis a ps"
  from w True obtain c' where b: "body ?c = Inr c'" and t': "t' = putAxisConfig a (Obj ps) c'"
    by (auto simp: whenAxis_Obj dest: andThen_InrD)
  from fixing_result_obj[OF f b] obtain m where c': "c' = Obj m" by (auto simp: is_obj_iff)
  from fixing_idem[OF f b] have i: "body c' = Inr c'" .
  let ?v = "case a of XAxis \<Rightarrow> c'
            | YAxis \<Rightarrow> (case lookup ps ''yaxis'' of Arr (x # rest) \<Rightarrow> Arr (c' # rest) | y \<Rightarrow> c')"
  let ?ps' = "assign ps (axis_key a) ?v"
  from t' have p: "t' = Obj ?ps'" unfolding putAxisConfig_Obj[OF True] .
  have l: "lookup ?ps' (axis_key a) = ?v" by (simp add: lookup_assign)
  have res: "resolved_axis a ?ps' = c'"
    by (cases a; cases "lookup ps ''yaxis''") (auto simp: lookup_assign c' split: list.splits)
  have tv: "truthy ?v" "a = YAxis \<longrightarrow> ?v \<noteq> Arr []"
    by (cases a; cases "lookup ps ''yaxis''"; auto simp: c' split: list.splits)+
  from res have "truthy (resolved_axis a ?ps')" by (simp add: c')
  from putAxisConfig_Obj[OF this, of c']
  have "putAxisConfig a (Obj ?ps') c' = Obj ?ps'"
    by (cases a; cases "lookup ps ''yaxis''")
       (auto simp: lookup_assign assign_assign c' split: list.splits)
  with i res have "whenAxis a body (Obj ?ps') = Inr (Obj ?ps')"
    by (simp add: whenAxis_Obj c')
  with p l tv show ?thesis by (cases a) auto
qed

lemma Axis_constructor_idem:
  assumes "Axis_constructor a t = Inr t'"
  shows "Axis_constructor a t' = Inr t'"
proof -
  from assms obtain t1 where e: "Axis_ensure_slot a t = Inr t1"
    and w: "whenAxis a Axis_scaffold t1 = Inr t'"
    unfolding Axis_constructor_def by (blast dest: andThen_InrD)
  from Axis_ensure_slot_ready[OF e] obtain ps where t1: "t1 = Obj ps"
    and r: "truthy (lookup ps (axis_key a))" and n: "a = YAxis \<longrightarrow> lookup ps ''yaxis'' \<noteq> Arr []"
    by blast
  from whenAxis_idem[OF fixing_Axis_scaffold r n w[unfolded t1]]
  obtain ps' where t': "t' = Obj ps'" and r': "truthy (lookup ps' (axis_key a))"
    and n': "a = YAxis \<longrightarrow> lookup ps' ''yaxis'' \<noteq> Arr []"
    and w': "whenAxis a Axis_scaffold (Obj ps') = Inr (Obj ps')"
    by blast
  from Axis_ensure_slot_fixed[OF r' n'] w' show ?thesis
    unfolding t' Axis_constructor_def by simp
qed

lemma construct_idem: "construct C t = Inr t' \<Longrightarrow> construct C t' = Inr t'"
proof (cases C)
  case (AxisC a)
  then show "construct C t = Inr t' \<Longrightarrow> construct C t' = Inr t'"
    by (simp add: Axis_constructor_idem)
qed (simp_all add: fixing_idem[OF fixing_Tooltip] fixing_idem[OF fixing_Legend]
       fixing_idem[OF fixing_Grid] fixing_idem[OF fixing_DataLabels]
       fixing_idem[OF fixing_Markers] fixing_idem[OF fixing_Theme])


text \<open>
  Claim C5. For each component constructor (x-axis, y-axis, tooltip, legend, grid, data
  labels, markers, theme) and every tree it returns on, also one the component was
  constructed on before and that setters have filled since: the value at every path of the
  tree, through mappings and through sequences, is the value that was there, except at
  the paths of the scaffolding of the component (\<open>spine\<close>: the root, the key of the
  component and the nested objects its constructor creates), where a mapping stands
  where a mapping or a falsy value stood, or a sequence where a sequence stood. So a
  populated (truthy) value that is neither a mapping nor a sequence is the same after
  the constructor wherever it is in the tree, a mapping or sequence keeps what it holds,
  and a new mapping appears only in a slot of the scaffolding whose value was falsy.
  Constructing the component once more on the tree that came out returns, with that tree.
\<close>

theorem constructors_keep_values:
  assumes "construct C t = Inr t'"
  shows "(get_at t' q = get_at t q \<or>
          (q \<in> set (spine C) \<and> changed_ok (get_at t q) (get_at t' q))) \<and>
         (truthy (get_at t q) \<and> \<not> is_obj (get_at t q) \<and> \<not> is_arr (get_at t q) \<longrightarrow>
          get_at t' q = get_at t q) \<and>
         construct C t' = Inr t'"
proof -
  from scaffolds_construct[of C] assms
  have p: "get_at t' q = get_at t q \<or>
           (q \<in> set (spine C) \<and> changed_ok (get_at t q) (get_at t' q))"
    unfolding scaffolds_def by blast
  then have "truthy (get_at t q) \<and> \<not> is_obj (get_at t q) \<and> \<not> is_arr (get_at t q) \<longrightarrow>
             get_at t' q = get_at t q"
    unfolding changed_ok_def by blast
  with p construct_idem[OF assms] show ?thesis by (intro conjI)
qed

text \<open>The tooltip constructor on a tree whose tooltip has a style and a flag; the y-axis
  constructor on a sequence of two axes with titles.\<close>

theorem constructors_keep_values_witness:
  "(case construct TooltipC
          (Obj [(''tooltip'', Obj [(''style'', Obj [(''fontSize'', Str ''14px'')]),
                                   (''enabled'', Bool False)])]) of
      Inl e \<Rightarrow> False
    | Inr t' \<Rightarrow>
        get_at t' [Key ''tooltip'', Key ''style'', Key ''fontSize''] = Str ''14px'' \<and>
        get_at t' [Key ''tooltip'', Key ''enabled''] = Bool False \<and>
        construct TooltipC t' = Inr t') \<and>
   (case construct (AxisC YAxis)
          (Obj [(''yaxis'', Arr [Obj [(''title'', Obj [(''text'', Str ''left'')])],
                                 Obj [(''title'', Obj [(''text'', Str ''right'')])]])]) of
      Inl e \<Rightarrow> False
    | Inr t' \<Rightarrow>
        get_at t' [Key ''yaxis'', Idx 0, Key ''title'', Key ''text''] = Str ''left'' \<and>
        get_at t' [Key ''yaxis'', Idx 1] = Obj [(''title'', Obj [(''text'', Str ''right'')])])"
proof -
  let ?t = "Obj [(''tooltip'', Obj [(''style'', Obj [(''fontSize'', Str ''14px'')]),
                                    (''enabled'', Bool False)])]"
  let ?y = "Obj [(''yaxis'', Arr [Obj [(''title'', Obj [(''text'', Str ''left'')])],
                                  Obj [(''title'', Obj [(''text'', Str ''right'')])]])]"
  obtain t' where c: "construct TooltipC ?t = Inr t'"
    by (simp add: Tooltip_constructor_def ensureKey_def orInit_def modify_def orEmpty_def
        not_inh lookup_def)
  obtain y' where d: "construct (AxisC YAxis) ?y = Inr y'"
    by (simp add: Axis_constructor_def Axis_scaffold_def whenAxis_def orInit_def modify_def
        orEmpty_def not_inh lookup_def)
  from constructors_keep_values[OF c, of "[Key ''tooltip'', Key ''style'', Key ''fontSize'']"]
  have 1: "get_at t' [Key ''tooltip'', Key ''style'', Key ''fontSize''] = Str ''14px''"
    by (simp add: lookup_def)
  from constructors_keep_values[OF c, of "[Key ''tooltip'', Key ''enabled'']"]
  have 2: "get_at t' [Key ''tooltip'', Key ''enabled''] = Bool False"
    by (simp add: lookup_def)
  from constructors_keep_values[OF d, of "[Key ''yaxis'', Idx 0, Key ''title'', Key ''text'']"]
  have 3: "get_at y' [Key ''yaxis'', Idx 0, Key ''title'', Key ''text''] = Str ''left''"
    by (simp add: lookup_def)
  from constructors_keep_values[OF d, of "[Key ''yaxis'', Idx 1]"]
  have 4: "get_at y' [Key ''yaxis'', Idx 1] = Obj [(''title'', Obj [(''text'', Str ''right'')])]"
    by (simp add: lookup_def axis_spine_def)
  from constructors_keep_values[OF c, of "[]"]
  have 5: "construct TooltipC t' = Inr t'" by simp
  from c d 1 2 3 4 5 show ?thesis by simp
qed

subsection \<open>The nested objects after a call\<close>

lemma assignIn_ObjD:
  assumes "assignIn ck k v (Obj ps) = Inr t'"
  shows "\<exists>m. lookup ps ck = Obj m \<and> t' = Obj (assign ps ck (Obj (assign m k v)))"
proof -
  from modify_ObjD[OF assms[unfolded assignIn_def]] obtain c'
    where "setProp (lookup ps ck) k v = Inr c'" and t: "t' = Obj (assign ps ck c')" by blast
  from setProp_InrD[OF this(1)] t show ?thesis by blast
qed

lemma mergeIn_ObjD:
  assumes "mergeIn ck k config (Obj ps) = Inr t'"
  shows "\<exists>m mg. lookup ps ck = Obj m \<and> is_obj mg \<and> t' = Obj (assign ps ck (Obj (assign m k mg)))"
proof -
  from modify_ObjD[OF assms[unfolded mergeIn_def]] obtain c'
    where "mergeProp k config (lookup ps ck) = Inr c'" and t: "t' = Obj (assign ps ck c')" by blast
  from mergeProp_InrD[OF this(1)] t show ?thesis by blast
qed

lemma getProp_Inr_ObjD: "getProp c k = Inr x \<Longrightarrow> truthy x \<Longrightarrow> \<exists>m. c = Obj m \<and> x = lookup m k"
  by (cases c) (auto simp: lookup_def split: option.splits if_splits)

lemma modify_setProp_D:
  assumes "modify c k (\<lambda>x. setProp x j v) = Inr c'"
  shows "\<exists>m xm. c = Obj m \<and> lookup m k = Obj xm \<and> c' = Obj (assign m k (Obj (assign xm j v)))"
proof -
  from modify_InrD[OF assms] obtain x x' where g: "getProp c k = Inr x"
    and s: "setProp x j v = Inr x'" and c': "c' = putBack c k x'" by blast
  from setProp_InrD[OF s] obtain xm where x: "x = Obj xm" "x' = Obj (assign xm j v)" by blast
  from getProp_Inr_ObjD[OF g] x obtain m where "c = Obj m" "lookup m k = Obj xm" by auto
  with c' x show ?thesis by simp
qed

lemma is_obj_orEmpty: "is_obj v \<Longrightarrow> orEmpty v = v"
  by (cases v) (simp_all add: orEmpty_def)

lemma grid_lines_ObjD:
  assumes "grid_lines ax config (Obj ps) = Inr t'"
  shows "\<exists>m xm mg. lookup ps ''grid'' = Obj m \<and> orEmpty (lookup m ax) = Obj xm \<and> is_obj mg \<and>
           t' = Obj (assign ps ''grid'' (Obj (assign m ax (Obj (assign xm ''lines'' mg)))))"
proof -
  let ?f = "\<lambda>g. modify g ax (\<lambda>x.
             andThen (getProp x ''lines'') (\<lambda>old.
               andThen (getProp config ''lines'') (\<lambda>cl.
                 andThen (spread2 (orEmpty old) cl) (\<lambda>m. setProp x ''lines'' m))))"
  from modify_ObjD[OF assms[unfolded grid_lines_def]] obtain g'
    where c: "chain (lookup ps ''grid'') [orInit ax, ?f] = Inr g'"
      and t: "t' = Obj (assign ps ''grid'' g')" by blast
  from c obtain g1 where o: "orInit ax (lookup ps ''grid'') = Inr g1" and f: "?f g1 = Inr g'"
    by (auto dest!: andThen_InrD)
  from orInit_InrD[OF o] obtain m where m: "lookup ps ''grid'' = Obj m"
    and g1: "g1 = Obj (assign m ax (orEmpty (lookup m ax)))" by blast
  from modify_ObjD[OF f[unfolded g1]] obtain x' where
    b: "andThen (getProp (orEmpty (lookup m ax)) ''lines'') (\<lambda>old.
               andThen (getProp config ''lines'') (\<lambda>cl.
                 andThen (spread2 (orEmpty old) cl) (\<lambda>mm. setProp (orEmpty (lookup m ax)) ''lines'' mm))) = Inr x'"
    and g': "g' = Obj (assign (assign m ax (orEmpty (lookup m ax))) ax x')"
    by (auto simp: lookup_assign)
  from b obtain old cl mm where sp: "spread2 (orEmpty old) cl = Inr mm"
    and s: "setProp (orEmpty (lookup m ax)) ''lines'' mm = Inr x'"
    by (blast dest: andThen_InrD)
  from setProp_InrD[OF s] obtain xm where "orEmpty (lookup m ax) = Obj xm"
    "x' = Obj (assign xm ''lines'' mm)" by blast
  with m g' t spread2_InrD[OF sp] show ?thesis by (auto simp: assign_assign)
qed

lemma whenAxis_ObjD:
  assumes "whenAxis a body (Obj ps) = Inr t'" "lookup ps (axis_key a) = Obj m"
  shows "\<exists>c'. body (Obj m) = Inr c' \<and> t' = Obj (assign ps (axis_key a) c')"
proof -
  from assms(2) have r: "resolved_axis a ps = Obj m" by (cases a) simp_all
  from assms(1) obtain c' where "body (Obj m) = Inr c'" "t' = putAxisConfig a (Obj ps) c'"
    by (auto simp: whenAxis_def getAxisConfig_resolved r dest!: andThen_InrD
        simp del: getAxisConfig.simps putAxisConfig.simps)
  with assms(2) show ?thesis by (cases a) auto
qed


lemma assignIn_child:
  assumes "assignIn ck k v (Obj ps) = Inr t'" "r \<noteq> []" "hd r \<noteq> k"
  shows "getPath t' (ck # r) = getPath (lookup ps ck) r"
proof -
  from assignIn_ObjD[OF assms(1)] obtain m where "lookup ps ck = Obj m"
    "t' = Obj (assign ps ck (Obj (assign m k v)))" by blast
  with assms(2,3) show ?thesis by (cases r) (simp_all add: lookup_assign)
qed

lemma mergeIn_child:
  assumes "mergeIn ck k config (Obj ps) = Inr t'" "r = [k] \<or> (r \<noteq> [] \<and> hd r \<noteq> k)"
    "is_obj (getPath (lookup ps ck) r)"
  shows "is_obj (getPath t' (ck # r))"
proof -
  from mergeIn_ObjD[OF assms(1)] obtain m mg where "lookup ps ck = Obj m" "is_obj mg"
    "t' = Obj (assign ps ck (Obj (assign m k mg)))" by blast
  with assms(2,3) show ?thesis by (cases r) (auto simp: lookup_assign)
qed

lemma modify2_child:
  assumes "modify (Obj ps) ck (\<lambda>c. modify c k (\<lambda>x. setProp x j v)) = Inr t'"
    "r = [k] \<or> (r \<noteq> [] \<and> hd r \<noteq> k)" "is_obj (getPath (lookup ps ck) r)"
  shows "is_obj (getPath t' (ck # r))"
proof -
  from modify_ObjD[OF assms(1)] obtain c' where
    "modify (lookup ps ck) k (\<lambda>x. setProp x j v) = Inr c'" and t: "t' = Obj (assign ps ck c')"
    by blast
  from modify_setProp_D[OF this(1)] obtain m xm where "lookup ps ck = Obj m"
    "c' = Obj (assign m k (Obj (assign xm j v)))" by blast
  with t assms(2,3) show ?thesis by (cases r) (auto simp: lookup_assign)
qed

lemma grid_lines_child:
  assumes "grid_lines ax config (Obj ps) = Inr t'"
    "r = [ax] \<or> r = [ax, ''lines''] \<or> (r \<noteq> [] \<and> hd r \<noteq> ax)"
    "is_obj (getPath (lookup ps ''grid'') r)"
  shows "is_obj (getPath t' (''grid'' # r))"
proof -
  from grid_lines_ObjD[OF assms(1)] obtain m xm mg where "lookup ps ''grid'' = Obj m"
    "is_obj mg" "t' = Obj (assign ps ''grid'' (Obj (assign m ax (Obj (assign xm ''lines'' mg)))))"
    by blast
  with assms(2,3) show ?thesis by (cases r) (auto simp: lookup_assign)
qed

lemma Tooltip_call_child:
  assumes "Tooltip_call op (Obj ps) = Inr t'" "r \<in> set [[''style''], [''x''], [''y'']]"
    "is_obj (getPath (lookup ps ''tooltip'') r)"
  shows "is_obj (getPath t' (''tooltip'' # r))"
proof (cases op)
  case (TtStyle config)
  with assms have "mergeIn ''tooltip'' ''style'' config (Obj ps) = Inr t'"
    by (simp add: Tooltip_style_def)
  from mergeIn_child[OF this _ assms(3)] assms(2) show ?thesis by auto
next
  case (TtXFormatter f)
  with assms have "modify (Obj ps) ''tooltip'' (\<lambda>c. modify c ''x'' (\<lambda>x. setProp x ''formatter'' (Fn f))) = Inr t'"
    by (simp add: Tooltip_xFormatter_def)
  from modify2_child[OF this _ assms(3)] assms(2) show ?thesis by auto
next
  case (TtYFormatter f)
  with assms have "modify (Obj ps) ''tooltip'' (\<lambda>c. modify c ''y'' (\<lambda>x. setProp x ''formatter'' (Fn f))) = Inr t'"
    by (simp add: Tooltip_yFormatter_def)
  from modify2_child[OF this _ assms(3)] assms(2) show ?thesis by auto
qed (use assms in \<open>auto simp: Tooltip_enabled_def Tooltip_shared_def Tooltip_followCursor_def
       Tooltip_theme_def Tooltip_custom_def assignIn_child\<close>)

lemma Legend_call_child:
  assumes "Legend_call op (Obj ps) = Inr t'"
    "r \<in> set [[''labels''], [''markers''], [''itemMargin'']]"
    "is_obj (getPath (lookup ps ''legend'') r)"
  shows "is_obj (getPath t' (''legend'' # r))"
proof (cases op)
  case (LgLabels config)
  with assms have "mergeIn ''legend'' ''labels'' config (Obj ps) = Inr t'"
    by (simp add: Legend_labels_def)
  from mergeIn_child[OF this _ assms(3)] assms(2) show ?thesis by auto
next
  case (LgMarkers config)
  with assms have "mergeIn ''legend'' ''markers'' config (Obj ps) = Inr t'"
    by (simp add: Legend_markers_def)
  from mergeIn_child[OF this _ assms(3)] assms(2) show ?thesis by auto
next
  case (LgItemMargin config)
  with assms have "mergeIn ''legend'' ''itemMargin'' config (Obj ps) = Inr t'"
    by (simp add: Legend_itemMargin_def)
  from mergeIn_child[OF this _ assms(3)] assms(2) show ?thesis by auto
qed (use assms in \<open>auto simp: Legend_show_def Legend_position_def Legend_horizontalAlign_def
       Legend_fontSize_def Legend_fontFamily_def assignIn_child\<close>)

lemma Grid_call_child:
  assumes "Grid_call op (Obj ps) = Inr t'"
    "r \<in> set [[''xaxis''], [''xaxis'', ''lines''], [''yaxis''], [''yaxis'', ''lines''], [''padding'']]"
    "is_obj (getPath (lookup ps ''grid'') r)"
  shows "is_obj (getPath t' (''grid'' # r))"
proof (cases op)
  case (GrXaxis config)
  with assms have "grid_lines ''xaxis'' config (Obj ps) = Inr t'" by (simp add: Grid_xaxis_def)
  from grid_lines_child[OF this _ assms(3)] assms(2) show ?thesis by auto
next
  case (GrYaxis config)
  with assms have "grid_lines ''yaxis'' config (Obj ps) = Inr t'" by (simp add: Grid_yaxis_def)
  from grid_lines_child[OF this _ assms(3)] assms(2) show ?thesis by auto
next
  case (GrPadding config)
  with assms have "mergeIn ''grid'' ''padding'' config (Obj ps) = Inr t'"
    by (simp add: Grid_padding_def)
  from mergeIn_child[OF this _ assms(3)] assms(2) show ?thesis by auto
qed (use assms in \<open>auto simp: Grid_show_def Grid_borderColor_def Grid_strokeDashArray_def
       Grid_position_def assignIn_child\<close>)

lemma DataLabels_call_child:
  assumes "DataLabels_call op (Obj ps) = Inr t'" "r \<in> set [[''style''], [''background'']]"
    "is_obj (getPath (lookup ps ''dataLabels'') r)"
  shows "is_obj (getPath t' (''dataLabels'' # r))"
proof (cases op)
  case (DlStyle config)
  with assms have "mergeIn ''dataLabels'' ''style'' config (Obj ps) = Inr t'"
    by (simp add: DataLabels_style_def)
  from mergeIn_child[OF this _ assms(3)] assms(2) show ?thesis by auto
next
  case (DlBackground config)
  with assms have "mergeIn ''dataLabels'' ''background'' config (Obj ps) = Inr t'"
    by (simp add: DataLabels_background_def)
  from mergeIn_child[OF this _ assms(3)] assms(2) show ?thesis by auto
qed (use assms in \<open>auto simp: DataLabels_enabled_def DataLabels_formatter_def
       DataLabels_offsetX_def DataLabels_offsetY_def assignIn_child\<close>)

lemma Markers_call_child:
  assumes "Markers_call op (Obj ps) = Inr t'" "r \<in> set [[''hover'']]"
    "is_obj (getPath (lookup ps ''markers'') r)"
  shows "is_obj (getPath t' (''markers'' # r))"
proof (cases op)
  case (MkHover config)
  with assms have "mergeIn ''markers'' ''hover'' config (Obj ps) = Inr t'"
    by (simp add: Markers_hover_def)
  from mergeIn_child[OF this _ assms(3)] assms(2) show ?thesis by auto
qed (use assms in \<open>auto simp: Markers_size_def Markers_colors_def Markers_strokeColors_def
       Markers_strokeWidth_def Markers_shape_def Markers_radius_def assignIn_child\<close>)

lemma Theme_call_child:
  assumes "Theme_call op (Obj ps) = Inr t'" "r \<in> set [[''monochrome'']]"
    "is_obj (getPath (lookup ps ''theme'') r)"
  shows "is_obj (getPath t' (''theme'' # r))"
proof (cases op)
  case (ThMonochrome config)
  with assms have "mergeIn ''theme'' ''monochrome'' config (Obj ps) = Inr t'"
    by (simp add: Theme_monochrome_def)
  from mergeIn_child[OF this _ assms(3)] assms(2) show ?thesis by auto
qed (use assms in \<open>auto simp: Theme_mode_def Theme_palette_def assignIn_child\<close>)


lemma keys_assign: "fst ` set (assign ps k v) = insert k (fst ` set ps)"
proof (induction ps)
  case (Cons p ps)
  then show ?case by (cases p) (simp add: insert_commute)
qed simp

lemma distinct_assign: "distinct (map fst ps) \<Longrightarrow> distinct (map fst (assign ps k v))"
proof (induction ps)
  case (Cons p ps)
  then show ?case by (cases p) (auto simp: keys_assign)
qed simp

lemma distinct_copyProps:
  "distinct (map fst acc) \<Longrightarrow> distinct (map fst (copyProps acc new))"
proof (induction new arbitrary: acc)
  case (Cons p new)
  then show ?case by (cases p) (simp add: copyProps_Cons distinct_assign)
qed (simp add: copyProps_Nil2)

lemma lookup_copyProps_notin:
  "k \<notin> fst ` set new \<Longrightarrow> lookup (copyProps acc new) k = lookup acc k"
proof (induction new arbitrary: acc)
  case (Cons p new)
  then show ?case by (cases p) (auto simp: copyProps_Cons lookup_assign)
qed (simp add: copyProps_Nil2)

lemma ownProps_style_kept:
  assumes "ownProps config = Inr pb" "getProp config ''style'' = Inr s" "\<not> truthy s"
    "style_kept config"
  shows "''style'' \<notin> fst ` set pb"
proof (cases config)
  case (Obj cfg)
  with assms(1) have pb: "pb = cfg" by simp
  from assms(2) Obj have "s = lookup cfg ''style''" by (simp only: getProp_ObjD)
  with assms(3,4) Obj have "map_of cfg ''style'' = None"
    by (auto simp: lookup_def split: option.splits)
  then show ?thesis unfolding pb by (simp add: map_of_eq_None_iff)
qed (use assms(1) in \<open>auto split: if_splits\<close>)

lemma labels_body_D:
  assumes "chain (Obj m)
         [orInit ''labels'',
          mergeProp ''labels'' config,
          (\<lambda>c. andThen (getProp config ''style'') (\<lambda>s.
             if truthy s
             then modify c ''labels'' (\<lambda>l. chain l [orInit ''style'', mergeProp ''style'' s])
             else Inr c))] = Inr c'"
  shows "\<exists>lm'. c' = Obj (assign m ''labels'' (Obj lm')) \<and>
           (\<forall>lm. lookup m ''labels'' = Obj lm \<and> distinct (map fst lm) \<and>
                 is_obj (lookup lm ''style'') \<and> style_kept config \<longrightarrow>
                 distinct (map fst lm') \<and> is_obj (lookup lm' ''style''))"
proof -
  from assms obtain c1 c2 s where o: "orInit ''labels'' (Obj m) = Inr c1"
    and mp: "mergeProp ''labels'' config c1 = Inr c2"
    and g: "getProp config ''style'' = Inr s"
    and r: "(if truthy s
             then modify c2 ''labels'' (\<lambda>l. chain l [orInit ''style'', mergeProp ''style'' s])
             else Inr c2) = Inr c'"
    by (auto dest!: andThen_InrD)
  let ?l0 = "orEmpty (lookup m ''labels'')"
  from orInit_InrD[OF o] have c1: "c1 = Obj (assign m ''labels'' ?l0)" by simp
  from mp obtain old mg where go: "getProp c1 ''labels'' = Inr old"
    and sp: "spread2 old config = Inr mg" and st: "setProp c1 ''labels'' mg = Inr c2"
    unfolding mergeProp_def by (blast dest: andThen_InrD)
  from go have old: "old = ?l0" unfolding c1 by (simp add: getProp_Obj_plain not_inh lookup_assign del: getProp.simps)
  from sp obtain pa pb where pa: "ownProps ?l0 = Inr pa" and pb: "ownProps config = Inr pb"
    and mg: "mg = Obj (copyProps (copyProps [] pa) pb)"
    unfolding spread2_def old by (auto dest!: andThen_InrD)
  let ?lm2 = "copyProps (copyProps [] pa) pb"
  from st have c2: "c2 = Obj (assign m ''labels'' (Obj ?lm2))"
    unfolding c1 mg by (simp add: assign_assign)
  have d2: "distinct (map fst ?lm2)" by (intro distinct_copyProps) simp
  show ?thesis
  proof (cases "truthy s")
    case True
    with r have "modify c2 ''labels'' (\<lambda>l. chain l [orInit ''style'', mergeProp ''style'' s]) = Inr c'"
      by simp
    from modify_ObjD[OF this[unfolded c2]] obtain l' where
      ch: "chain (Obj ?lm2) [orInit ''style'', mergeProp ''style'' s] = Inr l'"
      and c': "c' = Obj (assign m ''labels'' l')"
      by (auto simp: lookup_assign assign_assign)
    from ch obtain l1 where o1: "orInit ''style'' (Obj ?lm2) = Inr l1"
      and m1: "mergeProp ''style'' s l1 = Inr l'" by (auto dest!: andThen_InrD)
    from orInit_InrD[OF o1] have l1: "l1 = Obj (assign ?lm2 ''style'' (orEmpty (lookup ?lm2 ''style'')))"
      by simp
    from mergeProp_InrD[OF m1] l1 obtain x where x: "is_obj x"
      and l': "l' = Obj (assign ?lm2 ''style'' x)" by (auto simp: assign_assign)
    have "distinct (map fst (assign ?lm2 ''style'' x))" by (rule distinct_assign[OF d2])
    moreover have "is_obj (lookup (assign ?lm2 ''style'' x) ''style'')"
      using x by (simp add: lookup_assign)
    ultimately show ?thesis unfolding c' l' by blast
  next
    case False
    with r have c': "c' = Obj (assign m ''labels'' (Obj ?lm2))" by (simp add: c2)
    have "is_obj (lookup ?lm2 ''style'')"
      if h: "lookup m ''labels'' = Obj lm" "distinct (map fst lm)" "is_obj (lookup lm ''style'')"
        "style_kept config" for lm
    proof -
      from h(1) pa have "pa = lm" by (simp add: orEmpty_def)
      with h(2) have "copyProps [] pa = lm" by (simp add: copyProps_Nil_distinct)
      moreover from ownProps_style_kept[OF pb g False h(4)]
      have "lookup ?lm2 ''style'' = lookup (copyProps [] pa) ''style''"
        by (rule lookup_copyProps_notin)
      ultimately show ?thesis using h(3) by simp
    qed
    with d2 show ?thesis unfolding c' by blast
  qed
qed


lemma axis_assign_children:
  assumes "k \<noteq> ''labels''"
    and "is_obj v \<or> k \<notin> {''title'', ''axisBorder'', ''axisTicks'', ''crosshairs''}"
  shows "r \<in> set axis_children \<Longrightarrow> is_obj (getPath (Obj m) r) \<Longrightarrow>
         is_obj (getPath (Obj (assign m k v)) r)"
    and "lookup (assign m k v) ''labels'' = lookup m ''labels''"
  using assms by (auto simp: axis_children_def lookup_assign)

lemma axis_labels_children:
  "r \<in> set axis_children \<Longrightarrow> r \<noteq> [''labels'', ''style''] \<Longrightarrow> is_obj (getPath (Obj m) r) \<Longrightarrow>
   is_obj (getPath (Obj (assign m ''labels'' (Obj lm'))) r)"
  by (auto simp: axis_children_def lookup_assign)

lemma Axis_call_children:
  assumes c: "Axis_call a op (Obj ps) = Inr t'" and l: "lookup ps (axis_key a) = Obj m"
  shows "\<exists>m'. t' = Obj (assign ps (axis_key a) (Obj m')) \<and>
           (\<forall>r\<in>set axis_children. r \<noteq> [''labels'', ''style''] \<longrightarrow>
               is_obj (getPath (Obj m) r) \<longrightarrow> is_obj (getPath (Obj m') r)) \<and>
           (keeps_style (OnAxis a op) \<longrightarrow>
              (\<forall>lm. lookup m ''labels'' = Obj lm \<and> distinct (map fst lm) \<and>
                    is_obj (lookup lm ''style'') \<longrightarrow>
                 (\<exists>lm'. lookup m' ''labels'' = Obj lm' \<and> distinct (map fst lm') \<and>
                        is_obj (lookup lm' ''style''))))"
proof -
  have plain: ?thesis
    if "t' = Obj (assign ps (axis_key a) (Obj (assign m k v)))" "k \<noteq> ''labels''"
      "is_obj v \<or> k \<notin> {''title'', ''axisBorder'', ''axisTicks'', ''crosshairs''}" for k v
    using that(1) axis_assign_children(1)[OF that(2,3), where m = m]
      axis_assign_children(2)[OF that(2,3), where m = m]
    by (intro exI[of _ "assign m k v"]) auto
  have r: "resolved_axis a ps = Obj m" using l by (cases a) simp_all
  have same: "Obj ps = Obj (assign ps (axis_key a) (Obj m))"
    using assign_same[OF lookup_SomeD[OF l]] by simp
  have sp: ?thesis
    if w: "whenAxis a (\<lambda>c. setProp c k v) (Obj ps) = Inr t'" and k: "k \<noteq> ''labels''"
      "k \<notin> {''title'', ''axisBorder'', ''axisTicks'', ''crosshairs''}" for k v
  proof -
    from whenAxis_ObjD[OF w l] obtain c' where "setProp (Obj m) k v = Inr c'"
      and t: "t' = Obj (assign ps (axis_key a) c')" by blast
    from setProp_InrD[OF this(1)] have "c' = Obj (assign m k v)" by simp
    with t have "t' = Obj (assign ps (axis_key a) (Obj (assign m k v)))" by simp
    then show ?thesis by (rule plain) (use k in simp_all)
  qed
  have mg: ?thesis
    if w: "whenAxis a (mergeOrEmpty k config) (Obj ps) = Inr t'" and k: "k \<noteq> ''labels''"
    for k config
  proof -
    from whenAxis_ObjD[OF w l] obtain c' where "mergeOrEmpty k config (Obj m) = Inr c'"
      and t: "t' = Obj (assign ps (axis_key a) c')" by blast
    from mergeOrEmpty_InrD[OF this(1)] obtain x where "is_obj x" "c' = Obj (assign m k x)"
      by auto
    with t have "t' = Obj (assign ps (axis_key a) (Obj (assign m k x)))" by simp
    then show ?thesis by (rule plain) (use k \<open>is_obj x\<close> in simp_all)
  qed
  show ?thesis
  proof (cases op)
    case (AxTitle txt0)
    with c have "Axis_title a txt0 (Obj ps) = Inr t'" by simp
    then obtain ti where g: "getOpt (Obj m) ''title'' = Inr ti"
      and b: "(if truthy ti
         then andThen (modify (Obj m) ''title'' (\<lambda>x. setProp x ''text'' (Str txt0)))
                (\<lambda>c'. Inr (putAxisConfig a (Obj ps) c'))
         else Inr (Obj ps)) = Inr t'"
      unfolding Axis_title_resolved r by (blast dest: andThen_InrD)
    show ?thesis
    proof (cases "truthy ti")
      case False
      with b have "t' = Obj ps" by simp
      with same have "t' = Obj (assign ps (axis_key a) (Obj m))" by simp
      then show ?thesis by (intro exI[of _ m]) auto
    next
      case True
      with b obtain c' where md: "modify (Obj m) ''title'' (\<lambda>x. setProp x ''text'' (Str txt0)) = Inr c'"
        and t: "t' = putAxisConfig a (Obj ps) c'"
        by (auto dest!: andThen_InrD simp del: putAxisConfig.simps)
      from modify_setProp_D[OF md] obtain xm where
        c': "c' = Obj (assign m ''title'' (Obj (assign xm ''text'' (Str txt0))))" by auto
      from t l have "t' = Obj (assign ps (axis_key a) c')" by (cases a) auto
      then show ?thesis unfolding c' by (rule plain) simp_all
    qed
  next
    case (AxCategories cs)
    with c have "whenAxis a (\<lambda>c. setProp c ''categories'' (Arr cs)) (Obj ps) = Inr t'"
      by (simp only: Axis_call.simps axis_op_eta)
    then show ?thesis by (rule sp) simp_all
  next
    case (AxType k)
    with c have "whenAxis a (\<lambda>c. setProp c ''type'' (Str (axis_kind_name k))) (Obj ps) = Inr t'"
      by (simp only: Axis_call.simps axis_op_eta)
    then show ?thesis by (rule sp) simp_all
  next
    case (AxTickAmount n)
    with c have "whenAxis a (\<lambda>c. setProp c ''tickAmount'' (Num n)) (Obj ps) = Inr t'"
      by (simp only: Axis_call.simps axis_op_eta)
    then show ?thesis by (rule sp) simp_all
  next
    case (AxRange mn mx)
    with c have "whenAxis a (\<lambda>c. chain c [\<lambda>c. setProp c ''min'' (Num mn), \<lambda>c. setProp c ''max'' (Num mx)]) (Obj ps) = Inr t'"
      by (simp only: Axis_call.simps axis_op_eta)
    from whenAxis_ObjD[OF this l]
    have t: "t' = Obj (assign ps (axis_key a) (Obj (assign (assign m ''min'' (Num mn)) ''max'' (Num mx))))"
      by auto
    have 1: "is_obj (getPath (Obj (assign (assign m ''min'' (Num mn)) ''max'' (Num mx))) r)"
      if "r \<in> set axis_children" "is_obj (getPath (Obj m) r)" for r
      using that by (auto simp: axis_children_def lookup_assign)
    have 2: "lookup (assign (assign m ''min'' (Num mn)) ''max'' (Num mx)) ''labels'' = lookup m ''labels''"
      by (simp add: lookup_assign)
    show ?thesis unfolding t
      using 1 2 by (intro exI[of _ "assign (assign m ''min'' (Num mn)) ''max'' (Num mx)"]) auto
  next
    case (AxAxisBorder config)
    with c have "whenAxis a (mergeOrEmpty ''axisBorder'' config) (Obj ps) = Inr t'"
      by (simp only: Axis_call.simps axis_op_eta)
    then show ?thesis by (rule mg) simp
  next
    case (AxAxisTicks config)
    with c have "whenAxis a (mergeOrEmpty ''axisTicks'' config) (Obj ps) = Inr t'"
      by (simp only: Axis_call.simps axis_op_eta)
    then show ?thesis by (rule mg) simp
  next
    case (AxCrosshairs config)
    with c have "whenAxis a (mergeOrEmpty ''crosshairs'' config) (Obj ps) = Inr t'"
      by (simp only: Axis_call.simps axis_op_eta)
    then show ?thesis by (rule mg) simp
  next
    case (AxLabels config)
    with c have "whenAxis a (\<lambda>c.
       chain c
         [orInit ''labels'',
          mergeProp ''labels'' config,
          (\<lambda>c. andThen (getProp config ''style'') (\<lambda>s.
             if truthy s
             then modify c ''labels'' (\<lambda>l. chain l [orInit ''style'', mergeProp ''style'' s])
             else Inr c))]) (Obj ps) = Inr t'"
      by (simp only: Axis_call.simps axis_op_eta)
    from whenAxis_ObjD[OF this l] obtain c' where
      b: "chain (Obj m)
         [orInit ''labels'',
          mergeProp ''labels'' config,
          (\<lambda>c. andThen (getProp config ''style'') (\<lambda>s.
             if truthy s
             then modify c ''labels'' (\<lambda>l. chain l [orInit ''style'', mergeProp ''style'' s])
             else Inr c))] = Inr c'"
      and t: "t' = Obj (assign ps (axis_key a) c')" by blast
    from labels_body_D[OF b] obtain lm' where c': "c' = Obj (assign m ''labels'' (Obj lm'))"
      and k: "\<forall>lm. lookup m ''labels'' = Obj lm \<and> distinct (map fst lm) \<and>
                 is_obj (lookup lm ''style'') \<and> style_kept config \<longrightarrow>
                 distinct (map fst lm') \<and> is_obj (lookup lm' ''style'')" by blast
    show ?thesis unfolding t c'
      using k axis_labels_children[of _ m lm']
      by (intro exI[of _ "assign m ''labels'' (Obj lm')"]) (auto simp: AxLabels lookup_assign)
  qed
qed


lemma scaffold_children_distinct: "distinct (map fst scaffold_children)"
  by (simp add: scaffold_children_def)

lemma scaffold_children_of:
  "(k, rs) \<in> set scaffold_children \<longleftrightarrow> map_of scaffold_children k = Some rs"
  using map_of_eq_Some_iff[OF scaffold_children_distinct] by simp

lemma scaffold_children_simps:
  "map_of scaffold_children (axis_key a) = Some axis_children"
  "map_of scaffold_children ''tooltip'' = Some [[''style''], [''x''], [''y'']]"
  "map_of scaffold_children ''legend'' = Some [[''labels''], [''markers''], [''itemMargin'']]"
  "map_of scaffold_children ''grid'' =
     Some [[''xaxis''], [''xaxis'', ''lines''], [''yaxis''], [''yaxis'', ''lines''], [''padding'']]"
  "map_of scaffold_children ''dataLabels'' = Some [[''style''], [''background'']]"
  "map_of scaffold_children ''markers'' = Some [[''hover'']]"
  "map_of scaffold_children ''theme'' = Some [[''monochrome'']]"
  "map_of scaffold_children ''plotOptions'' = Some []"
  by (cases a; simp add: scaffold_children_def)+

lemma scaffold_children_keys: "fst ` set scaffold_children = set component_keys"
  by (simp add: scaffold_children_def component_keys_def)

lemma perform_keeps_children:
  assumes p: "perform op (Obj ps) = Inr t'" and m: "(k, rs) \<in> set scaffold_children"
    and o: "is_obj (lookup ps k)"
    and c: "\<forall>r\<in>set rs. r \<noteq> [''labels'', ''style''] \<longrightarrow> is_obj (getPath (lookup ps k) r)"
  shows "r \<in> set rs \<Longrightarrow> r \<noteq> [''labels'', ''style''] \<Longrightarrow> is_obj (getPath t' (k # r))"
proof -
  assume r: "r \<in> set rs" "r \<noteq> [''labels'', ''style'']"
  from perform_frames[OF p] obtain qs where t': "t' = Obj qs"
    and fr: "\<And>k'. k' \<noteq> target op \<Longrightarrow> lookup qs k' = lookup ps k'"
    unfolding frames_def by blast
  from m have mo: "map_of scaffold_children k = Some rs" by (simp only: scaffold_children_of)
  from c r have cr: "is_obj (getPath (lookup ps k) r)" by blast
  show ?thesis
  proof (cases "k = target op")
    case False
    with fr cr show ?thesis by (simp add: t')
  next
    case True
    show ?thesis
    proof (cases op)
      case (OnAxis a aop)
      with True mo have rs: "rs = axis_children" by (simp add: scaffold_children_simps)
      from o True OnAxis obtain mm where l: "lookup ps (axis_key a) = Obj mm"
        by (auto simp: is_obj_iff)
      from p OnAxis have "Axis_call a aop (Obj ps) = Inr t'" by simp
      from Axis_call_children[OF this l] obtain m' where
        "t' = Obj (assign ps (axis_key a) (Obj m'))"
        "\<forall>r\<in>set axis_children. r \<noteq> [''labels'', ''style''] \<longrightarrow>
               is_obj (getPath (Obj mm) r) \<longrightarrow> is_obj (getPath (Obj m') r)" by blast
      with r cr rs l True OnAxis show ?thesis by (simp add: lookup_assign)
    next
      case (OnTooltip x)
      with True mo have rs: "rs = [[''style''], [''x''], [''y'']]"
        by (simp add: scaffold_children_simps)
      from p OnTooltip have "Tooltip_call x (Obj ps) = Inr t'" by simp
      from Tooltip_call_child[OF this, of r] r cr rs True OnTooltip show ?thesis by simp
    next
      case (OnLegend x)
      with True mo have rs: "rs = [[''labels''], [''markers''], [''itemMargin'']]"
        by (simp add: scaffold_children_simps)
      from p OnLegend have "Legend_call x (Obj ps) = Inr t'" by simp
      from Legend_call_child[OF this, of r] r cr rs True OnLegend show ?thesis by simp
    next
      case (OnGrid x)
      with True mo have rs: "rs = [[''xaxis''], [''xaxis'', ''lines''], [''yaxis''], [''yaxis'', ''lines''], [''padding'']]"
        by (simp add: scaffold_children_simps)
      from p OnGrid have "Grid_call x (Obj ps) = Inr t'" by simp
      from Grid_call_child[OF this, of r] r cr rs True OnGrid show ?thesis by simp
    next
      case (OnDataLabels x)
      with True mo have rs: "rs = [[''style''], [''background'']]"
        by (simp add: scaffold_children_simps)
      from p OnDataLabels have "DataLabels_call x (Obj ps) = Inr t'" by simp
      from DataLabels_call_child[OF this, of r] r cr rs True OnDataLabels show ?thesis by simp
    next
      case (OnMarkers x)
      with True mo have rs: "rs = [[''hover'']]" by (simp add: scaffold_children_simps)
      from p OnMarkers have "Markers_call x (Obj ps) = Inr t'" by simp
      from Markers_call_child[OF this, of r] r cr rs True OnMarkers show ?thesis by simp
    next
      case (OnTheme x)
      with True mo have rs: "rs = [[''monochrome'']]" by (simp add: scaffold_children_simps)
      from p OnTheme have "Theme_call x (Obj ps) = Inr t'" by simp
      from Theme_call_child[OF this, of r] r cr rs True OnTheme show ?thesis by simp
    next
      case (OnPlotOptions x)
      with True mo have "rs = []" by (simp add: scaffold_children_simps)
      with r show ?thesis by simp
    next
      case (OnChart x)
      with True have "k \<notin> set component_keys" by (simp add: chart_op_key_not_component)
      with m scaffold_children_keys show ?thesis by force
    qed
  qed
qed


lemma run_children:
  assumes "run ops (Obj ps) = Inr t'"
    and "\<forall>(k, rs)\<in>set scaffold_children. is_obj (lookup ps k) \<and>
           (\<forall>r\<in>set rs. r \<noteq> [''labels'', ''style''] \<longrightarrow> is_obj (getPath (lookup ps k) r))"
  shows "\<exists>qs. t' = Obj qs \<and>
           (\<forall>(k, rs)\<in>set scaffold_children. is_obj (lookup qs k) \<and>
              (\<forall>r\<in>set rs. r \<noteq> [''labels'', ''style''] \<longrightarrow> is_obj (getPath (lookup qs k) r)))"
  using assms
proof (induction ops arbitrary: ps)
  case Nil
  then show ?case by auto
next
  case (Cons op ops)
  from Cons.prems(1) obtain t1 where p: "perform op (Obj ps) = Inr t1" and r: "run ops t1 = Inr t'"
    by (auto dest: andThen_InrD)
  from perform_frames[OF p] obtain ps1 where t1: "t1 = Obj ps1"
    and fr: "\<And>k. k \<noteq> target op \<Longrightarrow> lookup ps1 k = lookup ps k"
    unfolding frames_def by blast
  have "is_obj (lookup ps1 k) \<and>
        (\<forall>r\<in>set rs. r \<noteq> [''labels'', ''style''] \<longrightarrow> is_obj (getPath (lookup ps1 k) r))"
    if m: "(k, rs) \<in> set scaffold_children" for k rs
  proof
    from m Cons.prems(2) have o: "is_obj (lookup ps k)"
      and c: "\<forall>r\<in>set rs. r \<noteq> [''labels'', ''style''] \<longrightarrow> is_obj (getPath (lookup ps k) r)"
      by blast+
    from m have kc: "k \<in> set component_keys" using scaffold_children_keys by force
    show "is_obj (lookup ps1 k)"
    proof (cases "k = target op")
      case True
      with kc have "touches (target op) ps t1" using perform_touches[OF p] by simp
      with o True show ?thesis unfolding touches_def t1 by auto
    next
      case False
      with fr o show ?thesis by simp
    qed
    show "\<forall>r\<in>set rs. r \<noteq> [''labels'', ''style''] \<longrightarrow> is_obj (getPath (lookup ps1 k) r)"
      using perform_keeps_children[OF p m o c] by (simp add: t1)
  qed
  then have "\<forall>(k, rs)\<in>set scaffold_children. is_obj (lookup ps1 k) \<and>
           (\<forall>r\<in>set rs. r \<noteq> [''labels'', ''style''] \<longrightarrow> is_obj (getPath (lookup ps1 k) r))"
    by blast
  from Cons.IH[OF r[unfolded t1] this] show ?case .
qed

lemma axis_key_inj: "axis_key a = axis_key b \<Longrightarrow> a = b"
  by (cases a; cases b) simp_all

lemma axis_key_component: "axis_key a \<in> set component_keys"
  by (cases a) (simp_all add: component_keys_def)

lemma target_axis:
  assumes "target op = axis_key a"
  shows "\<exists>aop. op = OnAxis a aop"
proof (cases op)
  case (OnAxis a' aop)
  with assms have "a' = a" by (simp add: axis_key_inj)
  with OnAxis show ?thesis by simp
next
  case (OnChart x)
  with assms chart_op_key_not_component[of x] axis_key_component[of a] show ?thesis by simp
qed (use assms in \<open>cases a; simp\<close>)+

lemma run_style:
  assumes "run ops (Obj ps) = Inr t'" "\<forall>op\<in>set ops. keeps_style op"
    and "\<forall>a. \<exists>m lm. lookup ps (axis_key a) = Obj m \<and> lookup m ''labels'' = Obj lm \<and>
               distinct (map fst lm) \<and> is_obj (lookup lm ''style'')"
  shows "\<exists>qs. t' = Obj qs \<and>
           (\<forall>a. \<exists>m lm. lookup qs (axis_key a) = Obj m \<and> lookup m ''labels'' = Obj lm \<and>
               distinct (map fst lm) \<and> is_obj (lookup lm ''style''))"
  using assms
proof (induction ops arbitrary: ps)
  case Nil
  then show ?case by auto
next
  case (Cons op ops)
  from Cons.prems(1) obtain t1 where p: "perform op (Obj ps) = Inr t1" and r: "run ops t1 = Inr t'"
    by (auto dest: andThen_InrD)
  from Cons.prems(2) have k: "keeps_style op" and ks: "\<forall>op\<in>set ops. keeps_style op" by simp_all
  from perform_frames[OF p] obtain ps1 where t1: "t1 = Obj ps1"
    and fr: "\<And>k. k \<noteq> target op \<Longrightarrow> lookup ps1 k = lookup ps k"
    unfolding frames_def by blast
  have "\<exists>m lm. lookup ps1 (axis_key a) = Obj m \<and> lookup m ''labels'' = Obj lm \<and>
               distinct (map fst lm) \<and> is_obj (lookup lm ''style'')" for a
  proof -
    from Cons.prems(3) obtain m lm where l: "lookup ps (axis_key a) = Obj m"
      and lm: "lookup m ''labels'' = Obj lm" "distinct (map fst lm)" "is_obj (lookup lm ''style'')"
      by blast
    show ?thesis
    proof (cases "axis_key a = target op")
      case False
      with fr l lm show ?thesis by auto
    next
      case True
      from target_axis[OF this[symmetric]] obtain aop where op: "op = OnAxis a aop" by blast
      from p op have "Axis_call a aop (Obj ps) = Inr t1" by simp
      from Axis_call_children[OF this l] k op lm obtain m' lm' where
        "t1 = Obj (assign ps (axis_key a) (Obj m'))" "lookup m' ''labels'' = Obj lm'"
        "distinct (map fst lm')" "is_obj (lookup lm' ''style'')" by blast
      with t1 show ?thesis by (auto simp: lookup_assign)
    qed
  qed
  then have "\<forall>a. \<exists>m lm. lookup ps1 (axis_key a) = Obj m \<and> lookup m ''labels'' = Obj lm \<and>
               distinct (map fst lm) \<and> is_obj (lookup lm ''style'')" by blast
  from Cons.IH[OF r[unfolded t1] ks this] show ?case .
qed

lemma scaffold_pathsD:
  assumes "q \<in> set scaffold_paths"
  shows "\<exists>k rs. (k, rs) \<in> set scaffold_children \<and> (q = [k] \<or> (\<exists>r\<in>set rs. q = k # r))"
  using assms unfolding scaffold_paths_def by auto

lemma style_child_axis0:
  assumes "(k, rs) \<in> set scaffold_children" "[''labels'', ''style''] \<in> set rs"
  shows "k = ''xaxis'' \<or> k = ''yaxis''"
proof -
  from assms(1) have "map_of scaffold_children k = Some rs" by (simp only: scaffold_children_of)
  then have "rs = axis_children \<and> (k = ''xaxis'' \<or> k = ''yaxis'') \<or>
             [''labels'', ''style''] \<notin> set rs"
    by (auto simp add: scaffold_children_def split: if_splits)
  with assms(2) show ?thesis by simp
qed


lemma style_child_axis:
  assumes "(k, rs) \<in> set scaffold_children" "[''labels'', ''style''] \<in> set rs"
  shows "\<exists>a. k = axis_key a"
proof -
  have x: "\<exists>a. ''xaxis'' = axis_key a" by (rule exI[of _ XAxis]) simp
  have y: "\<exists>a. ''yaxis'' = axis_key a" by (rule exI[of _ YAxis]) simp
  from style_child_axis0[OF assms] x y show ?thesis by (elim disjE) simp_all
qed

lemma fresh_tree_children:
  "fresh_tree ty = Obj ps \<Longrightarrow>
   \<forall>(k, rs)\<in>set scaffold_children. is_obj (lookup ps k) \<and>
           (\<forall>r\<in>set rs. is_obj (getPath (lookup ps k) r))"
  by (auto simp: fresh_tree_def scaffold_children_def axis_children_def axis_scaffold_value_def
      lookup_def)

lemma fresh_tree_style:
  "fresh_tree ty = Obj ps \<Longrightarrow>
   \<exists>m lm. lookup ps (axis_key a) = Obj m \<and> lookup m ''labels'' = Obj lm \<and>
               distinct (map fst lm) \<and> is_obj (lookup lm ''style'')"
  by (cases a) (auto simp: fresh_tree_def axis_scaffold_value_def lookup_def)


text \<open>
  Claim C10, amended. A chart of any type starts from the tree \<open>fresh_tree\<close>: besides
  \<open>chart\<close> and \<open>series\<close> it has the keys \<open>xaxis\<close>, \<open>yaxis\<close>, \<open>tooltip\<close>, \<open>legend\<close>,
  \<open>grid\<close>, \<open>dataLabels\<close>, \<open>markers\<close>, \<open>theme\<close> and \<open>plotOptions\<close>, each with its
  nested objects as empty mappings. After every sequence of builder calls that returns,
  each of these nine keys still holds a mapping; the value under the key of a component
  that no call was made on is still the one of \<open>fresh_tree\<close>; and each nested object of
  the scaffolding (\<open>scaffold_paths\<close>) is still a mapping, except possibly \<open>labels.style\<close>
  of an axis. That one is a mapping too when no call of \<open>labels\<close> on an axis was given
  an argument with an own entry \<open>style\<close> that is falsy.
\<close>

theorem chart_always_scaffolded:
  "Chart_create ty = Inr (fresh_tree ty) \<and>
   (\<forall>ops t. andThen (Chart_create ty) (run ops) = Inr t \<longrightarrow>
      (\<forall>k\<in>set component_keys. is_obj (getPath t [k])) \<and>
      (\<forall>k\<in>set component_keys. k \<notin> target ` set ops \<longrightarrow>
          getPath t [k] = getPath (fresh_tree ty) [k]) \<and>
      (\<forall>q\<in>set scaffold_paths.
          is_obj (getPath t q) \<or> (\<exists>a. q = [axis_key a, ''labels'', ''style''])) \<and>
      ((\<forall>op\<in>set ops. keeps_style op) \<longrightarrow> (\<forall>q\<in>set scaffold_paths. is_obj (getPath t q))))"
proof (intro conjI allI impI)
  show c: "Chart_create ty = Inr (fresh_tree ty)"
    by (simp add: Chart_create_def Chart_constructor_value)
  fix ops t
  assume "andThen (Chart_create ty) (run ops) = Inr t"
  then have r: "run ops (fresh_tree ty) = Inr t" by (simp add: c)
  obtain ps where ps: "fresh_tree ty = Obj ps" by (simp add: fresh_tree_def)
  have init: "\<forall>k\<in>set component_keys. is_obj (lookup ps k)"
    using ps by (auto simp: fresh_tree_def component_keys_def lookup_def axis_scaffold_value_def)
  from run_invariant[OF r[unfolded ps]] obtain qs where q: "t = Obj qs"
    and a: "\<And>k. k \<notin> target ` set ops \<Longrightarrow> lookup qs k = lookup ps k"
    and b: "\<And>k. k \<in> set component_keys \<Longrightarrow> is_obj (lookup ps k) \<Longrightarrow> is_obj (lookup qs k)"
    by blast
  show "\<forall>k\<in>set component_keys. is_obj (getPath t [k])"
    using init b by (simp add: q)
  show "\<forall>k\<in>set component_keys. k \<notin> target ` set ops \<longrightarrow>
          getPath t [k] = getPath (fresh_tree ty) [k]"
    using a by (simp add: q ps)
  from fresh_tree_children[OF ps]
  have i1: "\<forall>(k, rs)\<in>set scaffold_children. is_obj (lookup ps k) \<and>
           (\<forall>r\<in>set rs. r \<noteq> [''labels'', ''style''] \<longrightarrow> is_obj (getPath (lookup ps k) r))"
    by blast
  from run_children[OF r[unfolded ps] i1] q
  have j1: "\<And>k rs. (k, rs) \<in> set scaffold_children \<Longrightarrow> is_obj (lookup qs k)"
    and j2: "\<And>k rs r. (k, rs) \<in> set scaffold_children \<Longrightarrow> r \<in> set rs \<Longrightarrow>
               r \<noteq> [''labels'', ''style''] \<Longrightarrow> is_obj (getPath (lookup qs k) r)"
    by blast+
  have part: "is_obj (getPath t p) \<or> (\<exists>a. p = [axis_key a, ''labels'', ''style''])"
    if "p \<in> set scaffold_paths" for p
  proof -
    from scaffold_pathsD[OF that] obtain k rs where m: "(k, rs) \<in> set scaffold_children"
      and p: "p = [k] \<or> (\<exists>r\<in>set rs. p = k # r)" by blast
    from p show ?thesis
    proof
      assume "p = [k]"
      with j1[OF m] show ?thesis by (simp add: q)
    next
      assume "\<exists>r\<in>set rs. p = k # r"
      then obtain r where r: "r \<in> set rs" "p = k # r" by blast
      show ?thesis
      proof (cases "r = [''labels'', ''style'']")
        case True
        with style_child_axis[OF m] r show ?thesis by auto
      next
        case False
        from j2[OF m r(1) False] r(2) show ?thesis by (simp add: q)
      qed
    qed
  qed
  then show "\<forall>q\<in>set scaffold_paths.
          is_obj (getPath t q) \<or> (\<exists>a. q = [axis_key a, ''labels'', ''style''])" by blast
  assume k: "\<forall>op\<in>set ops. keeps_style op"
  from run_style[OF r[unfolded ps] k] fresh_tree_style[OF ps] q
  have s: "\<And>a. \<exists>m lm. lookup qs (axis_key a) = Obj m \<and> lookup m ''labels'' = Obj lm \<and>
               is_obj (lookup lm ''style'')" by blast
  show "\<forall>q\<in>set scaffold_paths. is_obj (getPath t q)"
  proof
    fix p assume "p \<in> set scaffold_paths"
    from part[OF this] show "is_obj (getPath t p)"
    proof
      assume "\<exists>a. p = [axis_key a, ''labels'', ''style'']"
      then obtain a where "p = [axis_key a, ''labels'', ''style'']" by blast
      with s[of a] show ?thesis by (auto simp: q)
    qed
  qed
qed

text \<open>A line chart with an enabled tooltip and styled x-axis labels: the nested objects
  are mappings and the legend is as constructed.\<close>

theorem chart_always_scaffolded_witness:
  "(case andThen (Chart_create Line)
           (run [OnTooltip (TtEnabled True),
                 OnAxis XAxis (AxLabels (Obj [(''style'', Obj [(''fontSize'', Str ''12px'')])]))]) of
      Inl e \<Rightarrow> False
    | Inr t \<Rightarrow>
        is_obj (getPath t [''tooltip'', ''style'']) \<and>
        is_obj (getPath t [''xaxis'', ''labels'', ''style'']) \<and>
        getPath t [''legend''] =
          Obj [(''labels'', Obj []), (''markers'', Obj []), (''itemMargin'', Obj [])])"
proof -
  let ?ops = "[OnTooltip (TtEnabled True),
               OnAxis XAxis (AxLabels (Obj [(''style'', Obj [(''fontSize'', Str ''12px'')])]))]"
  have "\<exists>t. andThen (Chart_create Line) (run ?ops) = Inr t"
    by (simp add: Chart_create_def Chart_constructor_value fresh_tree_def axis_scaffold_value_def
        Tooltip_enabled_def Axis_labels_def whenAxis_def orInit_def mergeProp_def spread2_def
        copyProps_def orEmpty_def assignIn_def modify_def not_inh lookup_def)
  then obtain t where e: "andThen (Chart_create Line) (run ?ops) = Inr t" by blast
  have k: "\<forall>op\<in>set ?ops. keeps_style op" by simp
  from chart_always_scaffolded[of Line, THEN conjunct2, rule_format, OF e]
  have b: "\<forall>k\<in>set component_keys. k \<notin> target ` set ?ops \<longrightarrow>
          getPath t [k] = getPath (fresh_tree Line) [k]"
    and c: "(\<forall>op\<in>set ?ops. keeps_style op) \<longrightarrow> (\<forall>q\<in>set scaffold_paths. is_obj (getPath t q))"
    by blast+
  from c k have d: "\<forall>q\<in>set scaffold_paths. is_obj (getPath t q)" by blast
  have "[''tooltip'', ''style''] \<in> set scaffold_paths"
    "[''xaxis'', ''labels'', ''style''] \<in> set scaffold_paths"
    by (simp_all add: scaffold_paths_def scaffold_children_def axis_children_def)
  with d have a': "is_obj (getPath t [''tooltip'', ''style''])"
    "is_obj (getPath t [''xaxis'', ''labels'', ''style''])" by blast+
  from b[rule_format, of "''legend''"]
  have b': "getPath t [''legend''] = Obj [(''labels'', Obj []), (''markers'', Obj []), (''itemMargin'', Obj [])]"
    by (simp add: component_keys_def fresh_tree_def lookup_def)
  show ?thesis using a' b' by (simp add: e)
qed

text \<open>
  The claim as stated says that every component keeps its scaffolded children after every
  builder operation. On a new line chart, \<open>xaxis.labels({style: undefined})\<close> merges the
  entry into \<open>xaxis.labels\<close>; the deep merge of \<open>style\<close> is skipped because the value is
  falsy, and \<open>xaxis.labels.style\<close> is \<open>undefined\<close> afterwards.
\<close>

theorem chart_scaffolded_children_counterexample:
  "andThen (andThen (Chart_create Line) (run [OnAxis XAxis (AxLabels (Obj [(''style'', Undef)]))]))
     (\<lambda>t. Inr (getPath t [''xaxis'', ''labels''])) = Inr (Obj [(''style'', Undef)])"
  by (simp add: Chart_create_def Chart_constructor_value fresh_tree_def axis_scaffold_value_def
      Axis_labels_def whenAxis_def orInit_def mergeProp_def spread2_def
      copyProps_def orEmpty_def modify_def not_inh lookup_def)

subsection \<open>Every merge-setter\<close>





lemma assign_present: "lookup ps k = Obj m \<Longrightarrow> assign ps k (Obj m) = ps"
  by (rule assign_same) (auto simp: lookup_def split: option.splits)

lemma setProp_present:
  "lookup ps k = Obj m \<Longrightarrow> k \<noteq> ''__proto__'' \<Longrightarrow> setProp (Obj ps) k (Obj m) = Inr (Obj ps)"
  by (simp add: assign_present)






































end
